(* ===== verification/Prelude.thy ===== *)
theory Prelude
  imports Main "HOL-Library.Word" "HOL-Library.Multiset"
begin

text \<open>
  Shared vocabulary of the development: the JavaScript exceptions that the page's
  library calls can throw (as one error type, so that every \<open>throw\<close> of the source
  and of the builtins it calls is an \<open>Inl\<close> value), JavaScript strings as lists of
  UTF-16 code units, decimal digit strings, and the generic lemmas on lists and digits
  that the component theories share.
\<close>

section \<open>Errors and results\<close>

text \<open>
  The exceptions that reach a \<open>catch\<close> of \<open>src/my-app/pages/index.js\<close>:
  \<^item> \<open>SyntaxError\<close>: \<open>JSON.parse\<close> on text that is not JSON;
  \<^item> \<open>InvalidCharacterError\<close>: the DOMException of \<open>window.atob\<close> on text that is not
    forgiving-base64;
  \<^item> \<open>TypeError\<close>: reading a property of \<open>null\<close> or \<open>undefined\<close> (the argument names
    the property);
  \<^item> \<open>InvalidArgument\<close> and \<open>NumericFault\<close>: the two error kinds of ethers'
    \<open>parseFixed\<close> (the argument is ethers' message);
  \<^item> \<open>Rejected\<close>: a rejected promise of the wallet library (the argument is its message);
  \<^item> \<open>Error\<close>: a plain \<open>Error\<close> (the argument is its message); React throws one
    when it is given a value it cannot render.
\<close>

datatype js_error =
    SyntaxError
  | InvalidCharacterError
  | TypeError string
  | InvalidArgument string
  | NumericFault string
  | Rejected string
  | Error string

type_synonym 'a js_result = "js_error + 'a"

named_theorems js_eval "equations that evaluate the model's builtins on literals"

section \<open>JavaScript strings\<close>

text \<open>
  A JavaScript string is a sequence of UTF-16 code units. Texts that come out of
  \<open>window.atob\<close> are binary strings (every code unit below 256), and the token URI,
  the contract address and the tier prices are ASCII; those are modelled as
  \<^typ>\<open>string\<close> (one \<^typ>\<open>char\<close> per code unit). Strings that a JSON text denotes may
  hold any code unit (through \<open>\u\<close> escapes), so they are lists of 16-bit words.
\<close>

type_synonym code_unit = "16 word"
type_synonym jstr = "code_unit list"

definition code_unit_of :: "char \<Rightarrow> code_unit" where
  "code_unit_of c = of_nat (of_char c)"

definition utf16 :: "string \<Rightarrow> jstr" where
  "utf16 s = map code_unit_of s"

lemma unat_code_unit_of [simp]: "unat (code_unit_of c) = of_char c"
proof -
  have "of_char c < (256::nat)" by (rule nat_of_char_less_256)
  then have "of_char c < (2::nat) ^ LENGTH(16)" by (simp del: nat_of_char_less_256)
  then show ?thesis by (simp add: code_unit_of_def unat_of_nat)
qed

lemma code_unit_of_inj [simp]: "code_unit_of c = code_unit_of d \<longleftrightarrow> c = d"
  by (metis unat_code_unit_of of_char_eq_iff)

lemma utf16_inj [simp]: "utf16 s = utf16 t \<longleftrightarrow> s = t"
  by (simp add: utf16_def inj_on_def)

section \<open>Decimal digits\<close>

definition is_digit :: "char \<Rightarrow> bool" where
  "is_digit c \<longleftrightarrow> (48::nat) \<le> of_char c \<and> of_char c \<le> (57::nat)"

definition digit_val :: "char \<Rightarrow> nat" where
  "digit_val c = of_char c - 48"

definition digit_char :: "nat \<Rightarrow> char" where
  "digit_char d = char_of (48 + d)"

definition nat_of_digits :: "string \<Rightarrow> nat" where
  "nat_of_digits ds = foldl (\<lambda>n c. 10 * n + digit_val c) 0 ds"

text \<open>\<open>Number.prototype.toString()\<close> on a non-negative integer, as a template literal does.\<close>

fun dec_digits :: "nat \<Rightarrow> string" where
  "dec_digits n = (if n < 10 then [digit_char n] else dec_digits (n div 10) @ [digit_char (n mod 10)])"

declare dec_digits.simps [simp del]

lemma digit_char_is_digit [simp]: "d < 10 \<Longrightarrow> is_digit (digit_char d)"
  by (simp add: is_digit_def digit_char_def)

lemma digit_val_digit_char [simp]: "d < 10 \<Longrightarrow> digit_val (digit_char d) = d"
  by (simp add: digit_val_def digit_char_def)

lemma digit_val_less [simp]: "is_digit c \<Longrightarrow> digit_val c < 10"
  unfolding is_digit_def digit_val_def by linarith

lemma foldl_digits_acc:
  "foldl (\<lambda>n c. 10 * n + digit_val c) a ds = a * 10 ^ length ds + foldl (\<lambda>n c. 10 * n + digit_val c) 0 ds"
proof (induction ds arbitrary: a)
  case Nil
  then show ?case by simp
next
  case (Cons c ds)
  have "foldl (\<lambda>n c. 10 * n + digit_val c) (10 * a + digit_val c) ds
      = (10 * a + digit_val c) * 10 ^ length ds + foldl (\<lambda>n c. 10 * n + digit_val c) 0 ds"
    by (rule Cons.IH)
  moreover have "foldl (\<lambda>n c. 10 * n + digit_val c) (digit_val c) ds
      = digit_val c * 10 ^ length ds + foldl (\<lambda>n c. 10 * n + digit_val c) 0 ds"
    by (rule Cons.IH)
  ultimately show ?case by (simp add: algebra_simps)
qed

lemma nat_of_digits_Nil [simp]: "nat_of_digits [] = 0"
  by (simp add: nat_of_digits_def)

lemma nat_of_digits_append:
  "nat_of_digits (xs @ ys) = nat_of_digits xs * 10 ^ length ys + nat_of_digits ys"
  by (simp add: nat_of_digits_def foldl_digits_acc [of "foldl _ 0 xs"])

lemma nat_of_digits_snoc [simp]:
  "nat_of_digits (xs @ [c]) = 10 * nat_of_digits xs + digit_val c"
  by (simp add: nat_of_digits_def)

lemma nat_of_digits_Cons:
  "nat_of_digits (c # ds) = digit_val c * 10 ^ length ds + nat_of_digits ds"
  using nat_of_digits_append [of "[c]" ds] by (simp add: nat_of_digits_def)

lemma dec_digits_nonempty [simp]: "dec_digits n \<noteq> []"
  by (subst dec_digits.simps) simp

lemma dec_digits_all_digits: "\<forall>c \<in> set (dec_digits n). is_digit c"
proof (induction n rule: dec_digits.induct)
  case (1 n)
  then show ?case by (subst dec_digits.simps) auto
qed

lemma nat_of_dec_digits [simp]: "nat_of_digits (dec_digits n) = n"
proof (induction n rule: dec_digits.induct)
  case (1 n)
  show ?case
  proof (cases "n < 10")
    case True
    then show ?thesis by (subst dec_digits.simps) (simp add: nat_of_digits_def)
  next
    case False
    with "1" have "nat_of_digits (dec_digits (n div 10)) = n div 10" by simp
    with False show ?thesis by (subst dec_digits.simps) simp
  qed
qed

lemma nat_of_digits_zeros [simp]: "nat_of_digits (replicate k (CHR ''0'')) = 0"
  by (induction k) (simp_all add: nat_of_digits_Cons digit_val_def)

lemma nat_of_digits_0 [simp]: "nat_of_digits ''0'' = 0"
  by (simp add: nat_of_digits_def digit_val_def)

lemma nat_of_digits_pad: "nat_of_digits (xs @ replicate k (CHR ''0'')) = nat_of_digits xs * 10 ^ k"
  by (simp add: nat_of_digits_append)

lemma nat_of_digits_less: "\<forall>c \<in> set ds. is_digit c \<Longrightarrow> nat_of_digits ds < 10 ^ length ds"
proof (induction ds rule: rev_induct)
  case Nil
  then show ?case by simp
next
  case (snoc c ds)
  then have "nat_of_digits ds < 10 ^ length ds" "digit_val c < 10" by simp_all
  then show ?case by simp
qed

end
