(* ===== verification/JsString.thy ===== *)
theory JsString
  imports Prelude
begin

text \<open>
  The string builtins that \<open>src/my-app/pages/index.js\<close> calls on the token URI
  (line 61: \<open>tokenURI.substring(tokenURI.indexOf(',') + 1)\<close>) and the truthiness
  test \<open>if (tokenURI)\<close> (line 60), after ECMAScript's \<open>String.prototype.indexOf\<close>
  and \<open>String.prototype.substring\<close>. The search string of \<open>indexOf\<close> is a single
  code unit in the page, and that is the case modelled; \<open>substring\<close> is called
  with one argument, so its end is the length of the string.
\<close>

section \<open>Definitions\<close>

text \<open>\<open>s.indexOf(c)\<close>: the least index holding \<open>c\<close>, or \<open>-1\<close> when there is none.\<close>

definition js_indexOf :: "string \<Rightarrow> char \<Rightarrow> int" where
  "js_indexOf s c = (if c \<in> set s then int (length (takeWhile (\<lambda>x. x \<noteq> c) s)) else -1)"

text \<open>
  \<open>s.substring(start)\<close>: \<open>start\<close> is clamped to \<open>[0, s.length]\<close> and the code units
  from there to the end are returned.
\<close>

definition js_substring :: "string \<Rightarrow> int \<Rightarrow> string" where
  "js_substring s start = drop (nat (min (max start 0) (int (length s)))) s"

text \<open>
  Truthiness of the value a contract read returns: \<open>undefined\<close> (no data yet) and
  the empty string are falsy, every other string is truthy.
\<close>

definition js_truthy_str :: "string option \<Rightarrow> bool" where
  "js_truthy_str u = (case u of None \<Rightarrow> False | Some s \<Rightarrow> s \<noteq> [])"

section \<open>Behaviour of indexOf and substring\<close>

lemma js_indexOf_absent [simp]: "c \<notin> set s \<Longrightarrow> js_indexOf s c = -1"
  by (simp add: js_indexOf_def)

lemma js_indexOf_prefix [simp]: "c \<notin> set p \<Longrightarrow> js_indexOf (p @ c # b) c = int (length p)"
proof -
  assume c: "c \<notin> set p"
  then have "takeWhile (\<lambda>x. x \<noteq> c) (p @ c # b) = p"
    by (induction p) auto
  then show ?thesis by (simp add: js_indexOf_def)
qed

lemma js_indexOf_cases:
  "js_indexOf s c = -1 \<and> c \<notin> set s
   \<or> (\<exists>p b. s = p @ c # b \<and> c \<notin> set p \<and> js_indexOf s c = int (length p))"
proof (cases "c \<in> set s")
  case True
  then obtain p b where s: "s = p @ c # b" and p: "c \<notin> set p"
    by (meson split_list_first)
  from p have "js_indexOf s c = int (length p)" unfolding s by (rule js_indexOf_prefix)
  with s p show ?thesis by blast
next
  case False
  then show ?thesis by simp
qed

lemma js_indexOf_ge: "-1 \<le> js_indexOf s c"
  by (simp add: js_indexOf_def)

lemma js_substring_nat [simp]: "js_substring s (int n) = drop n s"
  by (simp add: js_substring_def min_def)

lemma js_substring_zero [simp]: "js_substring s 0 = s"
  using js_substring_nat [of s 0] by simp

text \<open>The text after the first comma; the whole text when there is no comma.\<close>

lemma js_substring_after_first:
  "c \<notin> set p \<Longrightarrow> js_substring (p @ c # b) (js_indexOf (p @ c # b) c + 1) = b"
proof -
  assume c: "c \<notin> set p"
  have "js_indexOf (p @ c # b) c + 1 = int (Suc (length p))"
    using c by simp
  then have "js_substring (p @ c # b) (js_indexOf (p @ c # b) c + 1) = drop (Suc (length p)) (p @ c # b)"
    by (simp only: js_substring_nat)
  then show ?thesis by simp
qed

lemma js_substring_no_sep:
  "c \<notin> set s \<Longrightarrow> js_substring s (js_indexOf s c + 1) = s"
  by simp

lemma js_truthy_str_Some [simp]: "js_truthy_str (Some s) \<longleftrightarrow> s \<noteq> []"
  by (simp add: js_truthy_str_def)

lemma js_truthy_str_None [simp]: "\<not> js_truthy_str None"
  by (simp add: js_truthy_str_def)

end
