(* ===== verification/Base64.thy ===== *)
theory Base64
  imports Prelude
begin

text \<open>
  \<open>window.atob\<close>, which line 61 of \<open>src/my-app/pages/index.js\<close> applies to the
  payload of the token URI. The browser builtin is not part of the repository; it is
  modelled from the HTML standard's ``forgiving-base64 decode'': remove ASCII
  whitespace; when the length is a multiple of four, drop one or two trailing \<open>=\<close>;
  fail when the length is then one more than a multiple of four or a character is
  outside the base64 alphabet; otherwise turn each character into six bits and every
  24 bits into three bytes, a trailing 12 or 18 bits into one or two bytes (the
  left-over low bits are discarded). \<open>atob\<close> throws \<open>InvalidCharacterError\<close> on
  failure and returns the bytes as a binary string.

  \<open>btoa\<close> (the encoder, with \<open>=\<close> padding) is the specification side of the round
  trip \<open>atob (btoa s) = Inr s\<close>.
\<close>

section \<open>Decoding\<close>

definition ascii_whitespace :: "char \<Rightarrow> bool" where
  "ascii_whitespace c \<longleftrightarrow> (of_char c :: nat) \<in> {9, 10, 12, 13, 32}"

definition b64_value :: "char \<Rightarrow> nat option" where
  "b64_value c = (let n = (of_char c :: nat) in
     if 65 \<le> n \<and> n \<le> 90 then Some (n - 65)
     else if 97 \<le> n \<and> n \<le> 122 then Some (n - 71)
     else if 48 \<le> n \<and> n \<le> 57 then Some (n + 4)
     else if n = 43 then Some 62
     else if n = 47 then Some 63
     else None)"

definition strip_padding :: "string \<Rightarrow> string" where
  "strip_padding s =
     (if length s mod 4 = 0 then
        (if drop (length s - 2) s = ''=='' then take (length s - 2) s
         else if drop (length s - 1) s = ''='' then take (length s - 1) s
         else s)
      else s)"

text \<open>The 6-bit values, four at a time into 24 bits, the tail into 12 or 18 bits.\<close>

fun decode_sextets :: "nat list \<Rightarrow> string" where
  "decode_sextets (a # b # c # d # r) =
     (let n = a * 2^18 + b * 2^12 + c * 2^6 + d
      in [char_of (n div 2^16), char_of (n div 2^8 mod 2^8), char_of (n mod 2^8)])
     @ decode_sextets r"
| "decode_sextets [a, b, c] =
     (let n = (a * 2^12 + b * 2^6 + c) div 4 in [char_of (n div 2^8), char_of (n mod 2^8)])"
| "decode_sextets [a, b] = [char_of ((a * 2^6 + b) div 16)]"
| "decode_sextets [a] = []"
| "decode_sextets [] = []"

definition forgiving_base64_decode :: "string \<Rightarrow> string option" where
  "forgiving_base64_decode s =
     (let d = strip_padding (filter (\<lambda>c. \<not> ascii_whitespace c) s) in
      if length d mod 4 = 1 then None
      else map_option decode_sextets (those (map b64_value d)))"

definition atob :: "string \<Rightarrow> string js_result" where
  "atob s = (case forgiving_base64_decode s of
               None \<Rightarrow> Inl InvalidCharacterError
             | Some bytes \<Rightarrow> Inr bytes)"

lemmas base64_eval [js_eval] = atob_def forgiving_base64_decode_def strip_padding_def
  b64_value_def ascii_whitespace_def char_of_eq_iff take_bit_eq_mod

section \<open>Encoding\<close>

definition b64_char :: "nat \<Rightarrow> char" where
  "b64_char n = char_of (if n < 26 then n + 65 else if n < 52 then n + 71
                         else if n < 62 then n - 4 else if n = 62 then 43 else (47::nat))"

fun sextets :: "string \<Rightarrow> nat list" where
  "sextets (x # y # z # r) =
     (let a = (of_char x :: nat); b = of_char y; c = of_char z in
      [a div 4, a mod 4 * 16 + b div 16, b mod 16 * 4 + c div 64, c mod 64]) @ sextets r"
| "sextets [x, y] =
     (let a = (of_char x :: nat); b = of_char y in [a div 4, a mod 4 * 16 + b div 16, b mod 16 * 4])"
| "sextets [x] = (let a = (of_char x :: nat) in [a div 4, a mod 4 * 16])"
| "sextets [] = []"

definition btoa :: "string \<Rightarrow> string" where
  "btoa s = map b64_char (sextets s) @ replicate ((3 - length s mod 3) mod 3) (CHR ''='')"

section \<open>Arithmetic of the bit packing\<close>

lemma divmod_pack: "(b::nat) < m \<Longrightarrow> (a * m + b) div m = a \<and> (a * m + b) mod m = b"
  by simp

lemma regroup3:
  "(a::nat) * 2^18 + (b * 16 + c) * 2^12 + (d * 4 + e) * 2^6 + f
   = (a * 4 + b) * 2^16 + (c * 16 + d) * 2^8 + (e * 64 + f)"
  by (simp add: algebra_simps)

lemma regroup2:
  "(a::nat) * 2^12 + (b * 16 + c) * 2^6 + d * 4 = ((a * 4 + b) * 2^8 + (c * 16 + d)) * 4"
  by (simp add: algebra_simps)

lemma regroup1: "(a::nat) * 2^6 + b * 16 = (a * 4 + b) * 16"
  by (simp add: algebra_simps)

lemma pack3:
  fixes x y z :: nat
  shows "x div 4 * 2^18 + (x mod 4 * 16 + y div 16) * 2^12 + (y mod 16 * 4 + z div 64) * 2^6 + z mod 64
         = (x * 2^8 + y) * 2^8 + z"
  unfolding regroup3 div_mult_mod_eq by (simp add: algebra_simps)

lemma unpack3:
  assumes "(y::nat) < 2^8" "z < 2^8"
  shows "((x * 2^8 + y) * 2^8 + z) div 2^16 = x"
    and "((x * 2^8 + y) * 2^8 + z) div 2^8 mod 2^8 = y"
    and "((x * 2^8 + y) * 2^8 + z) mod 2^8 = z"
proof -
  have d: "((x * 2^8 + y) * 2^8 + z) div 2^8 = x * 2^8 + y"
    using divmod_pack [of z "2^8" "x * 2^8 + y"] assms by simp
  have "((x * 2^8 + y) * 2^8 + z) div 2^16 = ((x * 2^8 + y) * 2^8 + z) div 2^8 div 2^8"
    by (simp add: div_mult2_eq power_add [of "2::nat" 8 8, symmetric])
  then show "((x * 2^8 + y) * 2^8 + z) div 2^16 = x"
    using d assms by simp
  show "((x * 2^8 + y) * 2^8 + z) div 2^8 mod 2^8 = y"
    using d assms by simp
  show "((x * 2^8 + y) * 2^8 + z) mod 2^8 = z"
    using divmod_pack [of z "2^8" "x * 2^8 + y"] assms by simp
qed

lemma of_char_lt: "(of_char c :: nat) < 2^8"
  using nat_of_char_less_256 [of c] by simp

section \<open>The round trip\<close>

lemma of_char_b64_char:
  "(of_char (b64_char n) :: nat) = (if n < 26 then n + 65 else if n < 52 then n + 71
                                    else if n < 62 then n - 4 else if n = 62 then 43 else 47)"
  by (simp add: b64_char_def)

lemma b64_value_b64_char [simp]: "n < 64 \<Longrightarrow> b64_value (b64_char n) = Some n"
  by (auto simp: b64_value_def of_char_b64_char Let_def)

lemma b64_char_not_pad [simp]: "b64_char n \<noteq> CHR ''=''"
proof
  assume "b64_char n = CHR ''=''"
  then have "(of_char (b64_char n) :: nat) = 61" by simp
  then show False by (simp add: of_char_b64_char split: if_splits)
qed

lemma b64_char_not_ws [simp]: "\<not> ascii_whitespace (b64_char n)"
  unfolding ascii_whitespace_def of_char_b64_char by auto

lemma sextet_bounds:
  fixes a b c :: nat
  assumes "a < 256" "b < 256" "c < 256"
  shows "a div 4 < 64" "a mod 4 * 16 + b div 16 < 64" "b mod 16 * 4 + c div 64 < 64"
    "c mod 64 < 64" "a mod 4 * 16 < 64" "b mod 16 * 4 < 64"
proof -
  have "a mod 4 < 4" "b mod 16 < 16" "b div 16 < 16" "c div 64 < 4" "a div 4 < 64"
    using assms by (simp_all add: div_less_iff_less_mult)
  then show "a div 4 < 64" "a mod 4 * 16 + b div 16 < 64" "b mod 16 * 4 + c div 64 < 64"
    "c mod 64 < 64" "a mod 4 * 16 < 64" "b mod 16 * 4 < 64" by linarith+
qed

lemma sextets_bound: "\<forall>v \<in> set (sextets s). v < 64"
proof (induction s rule: sextets.induct)
  case (1 x y z r)
  note b = sextet_bounds [of "of_char x" "of_char y" "of_char z", OF nat_of_char_less_256 nat_of_char_less_256 nat_of_char_less_256]
  with "1" show ?case by (simp add: Let_def)
next
  case (2 x y)
  note b = sextet_bounds [of "of_char x" "of_char y" "of_char x", OF nat_of_char_less_256 nat_of_char_less_256 nat_of_char_less_256]
  then show ?case by (simp add: Let_def)
next
  case (3 x)
  note b = sextet_bounds [of "of_char x" "of_char x" "of_char x", OF nat_of_char_less_256 nat_of_char_less_256 nat_of_char_less_256]
  then show ?case by (simp add: Let_def)
qed simp

lemma length_sextets:
  "length (sextets s) = 4 * (length s div 3) + (if length s mod 3 = 0 then 0 else length s mod 3 + 1)"
proof (induction s rule: sextets.induct)
  case (1 x y z r)
  have "Suc (Suc (Suc n)) div 3 = Suc (n div 3)" "Suc (Suc (Suc n)) mod 3 = n mod 3" for n :: nat
    by simp_all
  with "1" show ?case by (simp add: Let_def)
qed (simp_all add: Let_def)

lemma decode_group3:
  assumes "(b::nat) < 2^8" "c < 2^8"
  shows "decode_sextets ([a div 4, a mod 4 * 16 + b div 16, b mod 16 * 4 + c div 64, c mod 64] @ r)
         = [char_of a, char_of b, char_of c] @ decode_sextets r"
proof -
  have "decode_sextets ([a div 4, a mod 4 * 16 + b div 16, b mod 16 * 4 + c div 64, c mod 64] @ r)
        = (let n = a div 4 * 2^18 + (a mod 4 * 16 + b div 16) * 2^12 + (b mod 16 * 4 + c div 64) * 2^6 + c mod 64
           in [char_of (n div 2^16), char_of (n div 2^8 mod 2^8), char_of (n mod 2^8)]) @ decode_sextets r"
    by (simp only: append_Cons append_Nil decode_sextets.simps(1))
  also have "\<dots> = [char_of a, char_of b, char_of c] @ decode_sextets r"
    by (simp only: Let_def pack3 unpack3 [OF assms])
  finally show ?thesis .
qed

lemma decode_group2:
  assumes "(b::nat) < 2^8"
  shows "decode_sextets [a div 4, a mod 4 * 16 + b div 16, b mod 16 * 4] = [char_of a, char_of b]"
proof -
  have "decode_sextets [a div 4, a mod 4 * 16 + b div 16, b mod 16 * 4]
        = (let n = (a div 4 * 2^12 + (a mod 4 * 16 + b div 16) * 2^6 + b mod 16 * 4) div 4
           in [char_of (n div 2^8), char_of (n mod 2^8)])"
    by (simp only: decode_sextets.simps(2))
  also have "\<dots> = [char_of a, char_of b]"
    using divmod_pack [OF assms, of a] by (simp only: Let_def regroup2 div_mult_mod_eq) simp
  finally show ?thesis .
qed

lemma decode_group1: "decode_sextets [(a::nat) div 4, a mod 4 * 16] = [char_of a]"
proof -
  have "decode_sextets [a div 4, a mod 4 * 16] = [char_of ((a div 4 * 2^6 + a mod 4 * 16) div 16)]"
    by (simp only: decode_sextets.simps(3))
  also have "\<dots> = [char_of a]"
    by (simp only: regroup1 div_mult_mod_eq) simp
  finally show ?thesis .
qed

lemma decode_sextets_sextets [simp]: "decode_sextets (sextets s) = s"
proof (induction s rule: sextets.induct)
  case (1 x y z r)
  then show ?case
    by (simp only: sextets.simps Let_def decode_group3 [OF of_char_lt of_char_lt] char_of_char)
      simp
next
  case (2 x y)
  then show ?case
    by (simp only: sextets.simps Let_def decode_group2 [OF of_char_lt] char_of_char)
next
  case (3 x)
  then show ?case
    by (simp only: sextets.simps Let_def decode_group1 char_of_char)
qed simp

lemma strip_padding_pad:
  assumes "CHR ''='' \<notin> set e" and "k \<le> 2" and "(length e + k) mod 4 = 0"
  shows "strip_padding (e @ replicate k (CHR ''='')) = e"
proof -
  consider "k = 0" | "k = 1" | "k = 2" using assms(2) by linarith
  then show ?thesis
  proof cases
    case 1
    have "drop (length e - 2) e \<noteq> ''==''" "drop (length e - 1) e \<noteq> ''=''"
      using assms(1) by (metis in_set_dropD list.set_intros(1))+
    with 1 assms(3) show ?thesis by (simp add: strip_padding_def)
  next
    case 2
    with assms(3) have "e \<noteq> []" by auto
    then obtain f c where e: "e = f @ [c]" by (metis rev_exhaust)
    with assms(1) have "c \<noteq> CHR ''=''" by auto
    with 2 assms(3) e show ?thesis by (simp add: strip_padding_def)
  next
    case 3
    with assms(3) show ?thesis by (simp add: strip_padding_def numeral_2_eq_2)
  qed
qed

lemma those_map_Some: "those (map Some xs) = Some xs"
  by (induction xs) auto

lemma map_b64_value_b64_char:
  "\<forall>v \<in> set vs. v < 64 \<Longrightarrow> map b64_value (map b64_char vs) = map Some vs"
  by (induction vs) auto

lemma pad_not_ws [simp]: "\<not> ascii_whitespace (CHR ''='')"
  by (simp add: ascii_whitespace_def)

lemma btoa_no_ws: "filter (\<lambda>c. \<not> ascii_whitespace c) (btoa s) = btoa s"
  by (simp add: btoa_def filter_id_conv)

lemma btoa_lengths:
  "(length (sextets s) + (3 - length s mod 3) mod 3) mod 4 = 0"
  "length (sextets s) mod 4 \<noteq> 1"
proof -
  have "length s mod 3 = 0 \<or> length s mod 3 = 1 \<or> length s mod 3 = 2" by arith
  then show "(length (sextets s) + (3 - length s mod 3) mod 3) mod 4 = 0"
    "length (sextets s) mod 4 \<noteq> 1"
    by (auto simp: length_sextets)
qed

lemma strip_padding_btoa: "strip_padding (btoa s) = map b64_char (sextets s)"
  unfolding btoa_def
proof (rule strip_padding_pad)
  show "CHR ''='' \<notin> set (map b64_char (sextets s))" using b64_char_not_pad by (metis imageE set_map)
  show "(3 - length s mod 3) mod 3 \<le> 2" by simp
  show "(length (map b64_char (sextets s)) + (3 - length s mod 3) mod 3) mod 4 = 0"
    using btoa_lengths(1) by simp
qed

lemma forgiving_base64_decode_btoa: "forgiving_base64_decode (btoa s) = Some s"
proof -
  have "those (map b64_value (map b64_char (sextets s))) = Some (sextets s)"
    by (simp only: map_b64_value_b64_char [OF sextets_bound] those_map_Some)
  moreover have "length (map b64_char (sextets s)) mod 4 \<noteq> 1"
    using btoa_lengths(2) by simp
  ultimately show ?thesis
    by (simp add: forgiving_base64_decode_def btoa_no_ws strip_padding_btoa)
qed

text \<open>Round trip: \<open>atob\<close> decodes every base64 encoding back to the bytes it encodes.\<close>

theorem atob_btoa: "atob (btoa s) = Inr s"
  by (simp add: atob_def forgiving_base64_decode_btoa)

text \<open>ASCII whitespace anywhere in the input is ignored.\<close>

lemma atob_filter_ws: "atob (filter (\<lambda>c. \<not> ascii_whitespace c) s) = atob s"
  by (simp add: atob_def forgiving_base64_decode_def)

section \<open>Errors\<close>

lemma those_None: "None \<in> set xs \<Longrightarrow> those xs = None"
  by (induction xs) (auto split: option.splits)

lemma strip_padding_keeps: "c \<in> set s \<Longrightarrow> c \<noteq> CHR ''='' \<Longrightarrow> c \<in> set (strip_padding s)"
proof -
  assume c: "c \<in> set s" "c \<noteq> CHR ''=''"
  have keep: "c \<in> set (take k s)" if "set (drop k s) \<subseteq> {CHR ''=''}" for k
    using c that by (metis append_take_drop_id Un_iff set_append singletonD subsetD)
  show ?thesis
    unfolding strip_padding_def
    using keep [of "length s - 2"] keep [of "length s - 1"] c by auto
qed

text \<open>
  \<open>InvalidCharacterError\<close> when the text without whitespace has length \<open>4k + 1\<close>,
  and when it holds a character that is neither whitespace, \<open>=\<close>, nor in the alphabet.
\<close>

lemma atob_bad_length:
  "length (filter (\<lambda>c. \<not> ascii_whitespace c) s) mod 4 = 1 \<Longrightarrow> atob s = Inl InvalidCharacterError"
  by (simp add: atob_def forgiving_base64_decode_def strip_padding_def)

text \<open>A character outside the alphabet that is neither whitespace nor padding makes
  \<open>atob\<close> throw \<open>InvalidCharacterError\<close>, wherever it stands.\<close>

theorem atob_bad_char:
  assumes "c \<in> set s" "\<not> ascii_whitespace c" "c \<noteq> CHR ''=''" "b64_value c = None"
  shows "atob s = Inl InvalidCharacterError"
proof -
  let ?d = "strip_padding (filter (\<lambda>c. \<not> ascii_whitespace c) s)"
  have "c \<in> set ?d" using assms(1-3) by (intro strip_padding_keeps) auto
  then have "None \<in> set (map b64_value ?d)" using assms(4) by force
  then have "those (map b64_value ?d) = None" by (rule those_None)
  then show ?thesis by (simp add: atob_def forgiving_base64_decode_def Let_def)
qed

theorem atob_bad_char_witness: "atob ''eyJu!W1lIjoiWCJ9'' = Inl InvalidCharacterError"
proof -
  have "CHR ''!'' \<in> set ''eyJu!W1lIjoiWCJ9''" "\<not> ascii_whitespace (CHR ''!'')"
    "CHR ''!'' \<noteq> CHR ''=''" "b64_value (CHR ''!'') = None"
    by (simp_all add: ascii_whitespace_def b64_value_def)
  then show ?thesis by (rule atob_bad_char)
qed

end
