(* ===== verification/Json.thy ===== *)
theory Json
  imports Prelude
begin

text \<open>
  \<open>JSON.parse\<close>, which line 61 of \<open>src/my-app/pages/index.js\<close> applies to the
  decoded token metadata, and the property reads \<open>latestNFTMinted.name\<close> and
  \<open>latestNFTMinted.image\<close> of lines 153--154. The builtin is not part of the
  repository; it is modelled from the JSON grammar of ECMA-404 as ECMAScript's
  \<open>JSON.parse\<close> applies it: whitespace is tab, line feed, carriage return and space;
  strings admit the escapes \<open>\" \\ \/ \b \f \n \r \t \uXXXX\<close> and no raw control
  character; numbers are \<open>-? (0 | [1-9][0-9]* ) (. [0-9]+)? ([eE] [+-]? [0-9]+)?\<close>;
  the whole text is one value between optional whitespace; any other text throws
  \<open>SyntaxError\<close>.

  The parser is a pushdown machine: \<open>parse_value\<close> reads a value, pushing a frame
  for each open array or object, and \<open>close_value\<close> hands a finished value to the
  frame below it. Every call consumes input, so both are total functions (termination
  on the length of the input), and no fuel is needed.

  A JSON number denotes a double in JavaScript. The model keeps the exact decimal
  value \<open>m * 10 ^ e\<close> of the literal, normalised so that equal values are equal
  terms; rounding to binary64 (and overflow to \<open>Infinity\<close>) is not modelled, and
  nothing of the page depends on it. Objects keep their members in text order,
  duplicates included; a read returns the last occurrence of the key, as the
  property created last by \<open>JSON.parse\<close> overwrites the earlier ones.
\<close>

section \<open>Values\<close>

datatype jsval =
    JNull
  | JBool bool
  | JNum int int
  | JStr jstr
  | JArr "jsval list"
  | JObj "(jstr \<times> jsval) list"

section \<open>Lexical helpers\<close>

definition json_ws :: "char \<Rightarrow> bool" where
  "json_ws c \<longleftrightarrow> (of_char c :: nat) \<in> {9, 10, 13, 32}"

definition skip_ws :: "string \<Rightarrow> string" where
  "skip_ws s = dropWhile json_ws s"

definition hex_val :: "char \<Rightarrow> nat option" where
  "hex_val c = (let n = (of_char c :: nat) in
     if 48 \<le> n \<and> n \<le> 57 then Some (n - 48)
     else if 97 \<le> n \<and> n \<le> 102 then Some (n - 87)
     else if 65 \<le> n \<and> n \<le> 70 then Some (n - 55)
     else None)"

definition hex4 :: "char \<Rightarrow> char \<Rightarrow> char \<Rightarrow> char \<Rightarrow> nat option" where
  "hex4 a b c d = (case (hex_val a, hex_val b, hex_val c, hex_val d) of
     (Some w, Some x, Some y, Some z) \<Rightarrow> Some (((w * 16 + x) * 16 + y) * 16 + z)
   | _ \<Rightarrow> None)"

text \<open>The code unit of a one-character escape \<open>\e\<close>.\<close>

definition escape_unit :: "char \<Rightarrow> code_unit option" where
  "escape_unit e = (let n = (of_char e :: nat) in
     if n = 34 then Some 34
     else if n = 92 then Some 92
     else if n = 47 then Some 47
     else if e = CHR ''b'' then Some 8
     else if e = CHR ''f'' then Some 12
     else if e = CHR ''n'' then Some 10
     else if e = CHR ''r'' then Some 13
     else if e = CHR ''t'' then Some 9
     else None)"

text \<open>The body of a string literal, after its opening quote: the code units and the
  text after the closing quote.\<close>

fun parse_str :: "jstr \<Rightarrow> string \<Rightarrow> (jstr \<times> string) option" where
  "parse_str acc [] = None"
| "parse_str acc (c # cs) =
     (if c = CHR 0x22 then Some (acc, cs)
      else if c = CHR 0x5C then
        (case cs of
           [] \<Rightarrow> None
         | e # cs' \<Rightarrow>
             if e = CHR ''u'' then
               (case cs' of
                  h1 # h2 # h3 # h4 # r \<Rightarrow>
                    (case hex4 h1 h2 h3 h4 of
                       None \<Rightarrow> None
                     | Some n \<Rightarrow> parse_str (acc @ [of_nat n]) r)
                | _ \<Rightarrow> None)
             else
               (case escape_unit e of
                  None \<Rightarrow> None
                | Some u \<Rightarrow> parse_str (acc @ [u]) cs'))
      else if (of_char c :: nat) < 32 then None
      else parse_str (acc @ [code_unit_of c]) cs)"

text \<open>A member name and the colon after it, after the name's opening quote.\<close>

definition parse_key :: "string \<Rightarrow> (jstr \<times> string) option" where
  "parse_key s = (case parse_str [] s of
     None \<Rightarrow> None
   | Some (k, r) \<Rightarrow> (case skip_ws r of
       c # r' \<Rightarrow> if c = CHR '':'' then Some (k, r') else None
     | [] \<Rightarrow> None))"

section \<open>Numbers\<close>

text \<open>\<open>m * 10 ^ e\<close> with the trailing zeros of \<open>m\<close> moved into \<open>e\<close>; zero is \<open>(0, 0)\<close>.\<close>

function norm_dec :: "nat \<Rightarrow> int \<Rightarrow> nat \<times> int" where
  "norm_dec n e =
     (if n = 0 then (0, 0) else if n mod 10 = 0 then norm_dec (n div 10) (e + 1) else (n, e))"
  by pat_completeness auto
termination
  by (relation "measure fst") auto

declare norm_dec.simps [simp del]

definition mk_num :: "bool \<Rightarrow> nat \<Rightarrow> int \<Rightarrow> jsval" where
  "mk_num neg n e = (case norm_dec n e of (m, k) \<Rightarrow> JNum (if neg then - int m else int m) k)"

text \<open>\<open>-?\<close>\<close>

definition parse_sign :: "string \<Rightarrow> bool \<times> string" where
  "parse_sign s = (case s of c # r \<Rightarrow> if c = CHR ''-'' then (True, r) else (False, s) | [] \<Rightarrow> (False, s))"

text \<open>\<open>0 | [1-9][0-9]*\<close>\<close>

definition parse_int_digits :: "string \<Rightarrow> (string \<times> string) option" where
  "parse_int_digits s = (case s of
     c # r \<Rightarrow> if c = CHR ''0'' then Some ([c], r)
              else if is_digit c then Some (c # takeWhile is_digit r, dropWhile is_digit r)
              else None
   | [] \<Rightarrow> None)"

text \<open>\<open>(. [0-9]+)?\<close>\<close>

definition parse_frac :: "string \<Rightarrow> (string \<times> string) option" where
  "parse_frac s = (case s of
     c # r \<Rightarrow> if c = CHR ''.'' then
                (if takeWhile is_digit r = [] then None
                 else Some (takeWhile is_digit r, dropWhile is_digit r))
              else Some ([], s)
   | [] \<Rightarrow> Some ([], s))"

text \<open>\<open>([eE] [+-]? [0-9]+)?\<close>\<close>

definition exp_sign :: "string \<Rightarrow> bool \<times> string" where
  "exp_sign r = (case r of
     d # r' \<Rightarrow> if d = CHR ''-'' then (True, r') else if d = CHR ''+'' then (False, r') else (False, r)
   | [] \<Rightarrow> (False, r))"

definition parse_exp :: "string \<Rightarrow> (int \<times> string) option" where
  "parse_exp s = (case s of
     c # r \<Rightarrow> if c = CHR ''e'' \<or> c = CHR ''E'' then
                (case exp_sign r of (neg, r') \<Rightarrow>
                   if takeWhile is_digit r' = [] then None
                   else Some (if neg then - int (nat_of_digits (takeWhile is_digit r'))
                              else int (nat_of_digits (takeWhile is_digit r')),
                              dropWhile is_digit r'))
              else Some (0, s)
   | [] \<Rightarrow> Some (0, s))"

definition parse_number :: "string \<Rightarrow> (jsval \<times> string) option" where
  "parse_number s = (case parse_sign s of (neg, s1) \<Rightarrow>
     (case parse_int_digits s1 of
        None \<Rightarrow> None
      | Some (ip, s2) \<Rightarrow>
          (case parse_frac s2 of
             None \<Rightarrow> None
           | Some (fp, s3) \<Rightarrow>
               (case parse_exp s3 of
                  None \<Rightarrow> None
                | Some (e, s4) \<Rightarrow>
                    Some (mk_num neg (nat_of_digits (ip @ fp)) (e - int (length fp)), s4)))))"

section \<open>Input shrinks\<close>

lemma skip_ws_length [simp]: "length (skip_ws s) \<le> length s"
  by (simp add: skip_ws_def length_dropWhile_le)

lemma skip_ws_Cons_length: "skip_ws s = c # r \<Longrightarrow> length r < length s"
  using skip_ws_length [of s] by simp

lemma parse_str_length: "parse_str acc s = Some (u, r) \<Longrightarrow> length r < length s"
proof (induction acc s rule: parse_str.induct)
  case (2 acc c cs)
  then show ?case
    by (auto split: if_splits list.splits option.splits) (meson less_SucI less_trans_Suc)+
qed simp

lemma parse_key_length: "parse_key s = Some (k, r) \<Longrightarrow> length r < length s"
proof -
  assume p: "parse_key s = Some (k, r)"
  then obtain r0 c where s0: "parse_str [] s = Some (k, r0)" and w: "skip_ws r0 = c # r"
    by (auto simp: parse_key_def split: option.splits list.splits if_splits)
  from s0 have "length r0 < length s" by (rule parse_str_length)
  moreover from w have "length r < length r0" by (rule skip_ws_Cons_length)
  ultimately show ?thesis by simp
qed

lemma parse_sign_length: "parse_sign s = (neg, s1) \<Longrightarrow> length s1 \<le> length s"
  by (auto simp: parse_sign_def split: list.splits if_splits)

lemma parse_int_digits_length: "parse_int_digits s = Some (ip, s2) \<Longrightarrow> length s2 < length s"
  by (auto simp: parse_int_digits_def less_Suc_eq_le length_dropWhile_le split: list.splits if_splits)

lemma parse_frac_length: "parse_frac s = Some (fp, s3) \<Longrightarrow> length s3 \<le> length s"
  by (auto simp: parse_frac_def length_dropWhile_le le_SucI split: list.splits if_splits)

lemma exp_sign_length: "exp_sign r = (neg, r') \<Longrightarrow> length r' \<le> length r"
  by (auto simp: exp_sign_def split: list.splits if_splits)

lemma parse_exp_length: "parse_exp s = Some (e, s4) \<Longrightarrow> length s4 \<le> length s"
proof (cases s)
  case Nil
  then show "parse_exp s = Some (e, s4) \<Longrightarrow> length s4 \<le> length s" by (simp add: parse_exp_def)
next
  case (Cons c r)
  assume x: "parse_exp s = Some (e, s4)"
  obtain neg r' where sg: "exp_sign r = (neg, r')" by (cases "exp_sign r")
  show ?thesis
  proof (cases "c = CHR ''e'' \<or> c = CHR ''E''")
    case False
    with x Cons show ?thesis by (simp add: parse_exp_def)
  next
    case True
    with x Cons sg have "s4 = dropWhile is_digit r'"
      by (simp add: parse_exp_def split: if_splits)
    moreover have "length (dropWhile is_digit r') \<le> length r'" by (rule length_dropWhile_le)
    ultimately show ?thesis using exp_sign_length [OF sg] Cons by simp
  qed
qed

lemma parse_number_length: "parse_number s = Some (v, r) \<Longrightarrow> length r < length s"
proof -
  assume p: "parse_number s = Some (v, r)"
  obtain neg s1 where sg: "parse_sign s = (neg, s1)" by (cases "parse_sign s")
  from p sg obtain ip s2 where i: "parse_int_digits s1 = Some (ip, s2)"
    by (auto simp: parse_number_def split: option.splits)
  from p sg i obtain fp s3 where f: "parse_frac s2 = Some (fp, s3)"
    by (auto simp: parse_number_def split: option.splits)
  from p sg i f obtain e where x: "parse_exp s3 = Some (e, r)"
    by (auto simp: parse_number_def split: option.splits)
  from parse_sign_length [OF sg] parse_int_digits_length [OF i] parse_frac_length [OF f]
    parse_exp_length [OF x]
  show ?thesis by linarith
qed

section \<open>The parser\<close>

text \<open>An array or object whose elements are being read: the members read so far and,
  for an object, the name of the member whose value is being read.\<close>

datatype frame = FArr "jsval list" | FObj "(jstr \<times> jsval) list" jstr

function parse_value :: "frame list \<Rightarrow> string \<Rightarrow> jsval js_result"
  and close_value :: "frame list \<Rightarrow> jsval \<Rightarrow> string \<Rightarrow> jsval js_result" where
  "parse_value st s = (case skip_ws s of
     [] \<Rightarrow> Inl SyntaxError
   | c # r \<Rightarrow>
       if c = CHR ''{'' then
         (case skip_ws r of
            [] \<Rightarrow> Inl SyntaxError
          | d # r' \<Rightarrow>
              if d = CHR ''}'' then close_value st (JObj []) r'
              else if d = CHR 0x22 then
                (case parse_key r' of
                   None \<Rightarrow> Inl SyntaxError
                 | Some (k, r'') \<Rightarrow> parse_value (FObj [] k # st) r'')
              else Inl SyntaxError)
       else if c = CHR ''['' then
         (case skip_ws r of
            [] \<Rightarrow> Inl SyntaxError
          | d # r' \<Rightarrow> if d = CHR '']'' then close_value st (JArr []) r'
                      else parse_value (FArr [] # st) r)
       else if c = CHR 0x22 then
         (case parse_str [] r of
            None \<Rightarrow> Inl SyntaxError
          | Some (u, r') \<Rightarrow> close_value st (JStr u) r')
       else if c = CHR ''-'' \<or> is_digit c then
         (case parse_number (c # r) of
            None \<Rightarrow> Inl SyntaxError
          | Some (v, r') \<Rightarrow> close_value st v r')
       else if c = CHR ''t'' \<and> take 3 r = ''rue'' then close_value st (JBool True) (drop 3 r)
       else if c = CHR ''f'' \<and> take 4 r = ''alse'' then close_value st (JBool False) (drop 4 r)
       else if c = CHR ''n'' \<and> take 3 r = ''ull'' then close_value st JNull (drop 3 r)
       else Inl SyntaxError)"
| "close_value [] v s = (if skip_ws s = [] then Inr v else Inl SyntaxError)"
| "close_value (FArr acc # st) v s = (case skip_ws s of
     [] \<Rightarrow> Inl SyntaxError
   | c # r \<Rightarrow>
       if c = CHR '','' then parse_value (FArr (acc @ [v]) # st) r
       else if c = CHR '']'' then close_value st (JArr (acc @ [v])) r
       else Inl SyntaxError)"
| "close_value (FObj acc k # st) v s = (case skip_ws s of
     [] \<Rightarrow> Inl SyntaxError
   | c # r \<Rightarrow>
       if c = CHR '','' then
         (case skip_ws r of
            [] \<Rightarrow> Inl SyntaxError
          | d # r' \<Rightarrow>
              if d = CHR 0x22 then
                (case parse_key r' of
                   None \<Rightarrow> Inl SyntaxError
                 | Some (k', r'') \<Rightarrow> parse_value (FObj (acc @ [(k, v)]) k' # st) r'')
              else Inl SyntaxError)
       else if c = CHR ''}'' then close_value st (JObj (acc @ [(k, v)])) r
       else Inl SyntaxError)"
  by pat_completeness auto
termination
proof (relation "measure (\<lambda>x. case x of Inl (st, s) \<Rightarrow> length s | Inr (st, v, s) \<Rightarrow> length s)")
  show "wf (measure (\<lambda>x. case x of Inl (st, s) \<Rightarrow> length s | Inr (st, v, s) \<Rightarrow> length s))"
    by simp
qed (auto dest!: skip_ws_Cons_length parse_key_length parse_str_length parse_number_length)

text \<open>\<open>JSON.parse(text)\<close> without a reviver.\<close>

definition json_parse :: "string \<Rightarrow> jsval js_result" where
  "json_parse s = parse_value [] s"

section \<open>Property reads\<close>

text \<open>
  \<open>v.key\<close> on a parsed value, for a key that \<open>Object.prototype\<close>,
  \<open>Array.prototype\<close> and \<open>String.prototype\<close> do not define (\<open>name\<close> and
  \<open>image\<close> are such keys): \<open>TypeError\<close> on \<open>null\<close>; on an object the value of the last
  member with that name, \<open>undefined\<close> (\<^const>\<open>None\<close>) when there is none; \<open>undefined\<close>
  on every other value.
\<close>

fun get_field :: "jsval \<Rightarrow> jstr \<Rightarrow> jsval option js_result" where
  "get_field JNull k = Inl (TypeError ''Cannot read properties of null'')"
| "get_field (JObj kvs) k = Inr (map_of (rev kvs) k)"
| "get_field _ k = Inr None"

lemmas json_eval [js_eval] = json_parse_def skip_ws_def json_ws_def hex4_def hex_val_def escape_unit_def
  parse_key_def parse_number_def parse_sign_def parse_int_digits_def parse_frac_def parse_exp_def
  exp_sign_def mk_num_def

text \<open>Only \<open>null\<close> makes a property read throw.\<close>

lemma get_field_Inr: "v \<noteq> JNull \<Longrightarrow> \<exists>r. get_field v k = Inr r"
  by (cases v) auto


end
