(* ===== verification/Ether.thy ===== *)
theory Ether
  imports Prelude
begin

text \<open>
  \<open>ethers.utils.parseEther\<close>, which \<open>mintToken\<close> (line 74 of
  \<open>src/my-app/pages/index.js\<close>) applies to the \<open>value\<close> of the pressed button to
  get the payment in wei. The library is not part of the repository; the model follows
  ethers v5's \<open>parseFixed\<close> (\<open>parseEther(s) = parseUnits(s, 18) = parseFixed(s, 18)\<close>):
  the text must match \<open>/^-?[0-9.]+$/\<close>; a leading \<open>-\<close> is split off; a bare \<open>.\<close>
  is a missing value; the text is split at \<open>.\<close> and more than two parts are too many
  decimal points; an empty whole or fractional part is \<open>0\<close>; trailing zeros of the
  fraction are dropped and a fraction longer than the decimals is a numeric fault;
  otherwise the fraction is padded with zeros to the decimals and the result is
  \<open>whole * 10 ^ decimals + fraction\<close>, negated for a leading \<open>-\<close>. The result is an
  arbitrary-precision integer (ethers' \<open>BigNumber\<close>), so \<^typ>\<open>int\<close>.
\<close>

section \<open>Definitions\<close>

text \<open>\<open>/^-?[0-9.]+$/\<close>\<close>

definition valid_decimal :: "string \<Rightarrow> bool" where
  "valid_decimal s \<longleftrightarrow>
     (let t = (case s of c # r \<Rightarrow> if c = CHR ''-'' then r else s | [] \<Rightarrow> s)
      in t \<noteq> [] \<and> (\<forall>c \<in> set t. is_digit c \<or> c = CHR ''.''))"

text \<open>\<open>String.prototype.split\<close> with a one-character separator.\<close>

fun split_on :: "char \<Rightarrow> string \<Rightarrow> string list" where
  "split_on d [] = [[]]"
| "split_on d (c # cs) =
     (if c = d then [] # split_on d cs
      else (case split_on d cs of [] \<Rightarrow> [[c]] | w # ws \<Rightarrow> (c # w) # ws))"

definition trim_trailing_zeros :: "string \<Rightarrow> string" where
  "trim_trailing_zeros f = rev (dropWhile (\<lambda>c. c = CHR ''0'') (rev f))"

definition parse_fixed :: "string \<Rightarrow> nat \<Rightarrow> int js_result" where
  "parse_fixed value decimals =
     (if \<not> valid_decimal value then Inl (InvalidArgument ''invalid decimal value'')
      else
        let negative = (take 1 value = ''-'');
            v = (if negative then drop 1 value else value)
        in if v = ''.'' then Inl (InvalidArgument ''missing value'')
        else
          let comps = split_on (CHR ''.'') v
          in if 2 < length comps then Inl (InvalidArgument ''too many decimal points'')
          else
            let whole = (if hd comps = [] then ''0'' else hd comps);
                fraction = trim_trailing_zeros
                  (case comps of [_, f] \<Rightarrow> if f = [] then ''0'' else f | _ \<Rightarrow> ''0'')
            in if decimals < length fraction
               then Inl (NumericFault ''fractional component exceeds decimals'')
            else
              let fraction' = (if fraction = [] then ''0'' else fraction);
                  padded = fraction' @ replicate (decimals - length fraction') (CHR ''0'');
                  wei = int (nat_of_digits whole) * 10 ^ decimals + int (nat_of_digits padded)
              in Inr (if negative then - wei else wei))"

definition parse_ether :: "string \<Rightarrow> int js_result" where
  "parse_ether s = parse_fixed s 18"

lemmas ether_eval [js_eval] = parse_ether_def parse_fixed_def valid_decimal_def trim_trailing_zeros_def
  nat_of_digits_Cons digit_val_def is_digit_def

section \<open>Lemmas\<close>

lemma digit_not_dot [simp]: "is_digit c \<Longrightarrow> c \<noteq> CHR ''.''"
  and digit_not_minus [simp]: "is_digit c \<Longrightarrow> c \<noteq> CHR ''-''"
  by (auto simp: is_digit_def)

lemma dot_not_digit [simp]: "\<not> is_digit (CHR ''.'')"
  and minus_not_digit [simp]: "\<not> is_digit (CHR ''-'')"
  by (simp_all add: is_digit_def)

lemma split_on_no_sep: "d \<notin> set w \<Longrightarrow> split_on d w = [w]"
  by (induction w) auto

lemma split_on_sep: "d \<notin> set w \<Longrightarrow> split_on d (w @ d # f) = w # split_on d f"
  by (induction w) auto

lemma takeWhile_eq_replicate:
  "takeWhile (\<lambda>c. c = x) xs = replicate (length (takeWhile (\<lambda>c. c = x) xs)) x"
  by (induction xs) auto

lemma trim_trailing_zeros_split:
  "f = trim_trailing_zeros f @ replicate (length f - length (trim_trailing_zeros f)) (CHR ''0'')"
proof -
  let ?P = "\<lambda>c. c = CHR ''0''"
  let ?t = "takeWhile ?P (rev f)" and ?d = "dropWhile ?P (rev f)"
  have "f = rev (?t @ ?d)" by (simp only: takeWhile_dropWhile_id rev_rev_ident)
  also have "\<dots> = rev ?d @ rev ?t" by (rule rev_append)
  also have "rev ?t = replicate (length ?t) (CHR ''0'')"
    by (subst takeWhile_eq_replicate) simp
  finally have f: "f = rev ?d @ replicate (length ?t) (CHR ''0'')" .
  have "length (rev f) = length ?t + length ?d"
    by (metis length_append takeWhile_dropWhile_id)
  then have "length f = length ?t + length ?d" by (simp only: length_rev)
  then have "length ?t = length f - length (rev ?d)" by simp
  with f show ?thesis by (simp add: trim_trailing_zeros_def)
qed

lemma length_trim_trailing_zeros: "length (trim_trailing_zeros f) \<le> length f"
  using length_dropWhile_le [of _ "rev f"] by (simp add: trim_trailing_zeros_def)

lemma nat_of_digits_trim:
  "nat_of_digits f = nat_of_digits (trim_trailing_zeros f) * 10 ^ (length f - length (trim_trailing_zeros f))"
proof -
  have "nat_of_digits f = nat_of_digits (trim_trailing_zeros f
          @ replicate (length f - length (trim_trailing_zeros f)) (CHR ''0''))"
    using trim_trailing_zeros_split [of f] by (rule arg_cong)
  then show ?thesis by (simp only: nat_of_digits_pad)
qed

text \<open>The fractional part of \<open>parseFixed\<close> once it has passed the length check.\<close>

lemma fraction_value:
  assumes "length f \<le> d"
  defines "fr \<equiv> trim_trailing_zeros (if f = [] then ''0'' else f)"
  defines "fr' \<equiv> if fr = [] then ''0'' else fr"
  shows "length fr \<le> d"
    and "nat_of_digits (fr' @ replicate (d - length fr') (CHR ''0'')) = nat_of_digits f * 10 ^ (d - length f)"
proof -
  show "length fr \<le> d"
  proof (cases "f = []")
    case True
    then show ?thesis by (simp add: fr_def trim_trailing_zeros_def)
  next
    case False
    then show ?thesis using assms(1) length_trim_trailing_zeros [of f] by (simp add: fr_def)
  qed
  have nf: "nat_of_digits f = nat_of_digits fr * 10 ^ (length f - length fr)"
  proof (cases "f = []")
    case True
    then show ?thesis by (simp add: fr_def trim_trailing_zeros_def)
  next
    case False
    then show ?thesis by (simp add: fr_def nat_of_digits_trim [of f])
  qed
  have lf: "length fr \<le> length f \<or> f = []"
    using length_trim_trailing_zeros [of f] by (auto simp: fr_def)
  show "nat_of_digits (fr' @ replicate (d - length fr') (CHR ''0'')) = nat_of_digits f * 10 ^ (d - length f)"
  proof (cases "fr = []")
    case True
    with nf show ?thesis by (simp add: fr'_def nat_of_digits_pad nat_of_digits_Cons digit_val_def)
  next
    case False
    then have "f \<noteq> []" by (auto simp: fr_def trim_trailing_zeros_def)
    with lf have "length fr \<le> length f" by simp
    with assms(1) have "d - length fr = (length f - length fr) + (d - length f)" by simp
    with nf False show ?thesis by (simp add: fr'_def nat_of_digits_pad power_add)
  qed
qed

lemma valid_decimal_digits:
  assumes "\<forall>c \<in> set w. is_digit c" "\<forall>c \<in> set f. is_digit c"
  shows "valid_decimal (w @ CHR ''.'' # f)"
proof (cases w)
  case Nil
  with assms show ?thesis by (auto simp: valid_decimal_def)
next
  case (Cons c w')
  with assms have "c \<noteq> CHR ''-''" by simp
  with Cons assms show ?thesis by (auto simp: valid_decimal_def)
qed

lemma split_on_decimal:
  assumes "\<forall>c \<in> set w. is_digit c" "\<forall>c \<in> set f. is_digit c"
  shows "split_on (CHR ''.'') (w @ CHR ''.'' # f) = [w, f]"
proof -
  have "CHR ''.'' \<notin> set w" "CHR ''.'' \<notin> set f" using assms dot_not_digit by blast+
  then show ?thesis by (simp add: split_on_sep split_on_no_sep)
qed

lemma not_negative_decimal:
  assumes "\<forall>c \<in> set w. is_digit c"
  shows "take 1 (w @ CHR ''.'' # f) \<noteq> ''-''"
  using assms by (cases w) auto

text \<open>On a decimal text \<open>w.f\<close> of digits with at most 18 fractional digits,
  \<open>parseEther\<close> returns \<open>w * 10^18 + f * 10^(18 - |f|)\<close> wei.\<close>

theorem parse_ether_decimal:
  assumes w: "\<forall>c \<in> set w. is_digit c" and f: "\<forall>c \<in> set f. is_digit c"
    and ne: "w \<noteq> [] \<or> f \<noteq> []" and len: "length f \<le> 18"
  shows "parse_ether (w @ CHR ''.'' # f)
         = Inr (int (nat_of_digits w) * 10 ^ 18 + int (nat_of_digits f) * 10 ^ (18 - length f))"
proof -
  have dot: "w @ CHR ''.'' # f \<noteq> ''.''" using ne by (cases w) auto
  have whole: "nat_of_digits (if w = [] then ''0'' else w) = nat_of_digits w"
    by simp
  note fr = fraction_value [OF len]
  show ?thesis
    unfolding parse_ether_def parse_fixed_def
    using valid_decimal_digits [OF w f] not_negative_decimal [OF w, of f] dot split_on_decimal [OF w f]
      whole fr
    by (simp add: Let_def del: One_nat_def)
qed

theorem parse_ether_decimal_witness:
  "parse_ether ''12.5'' = Inr (12 * 10 ^ 18 + 5 * 10 ^ 17)"
proof -
  have "\<forall>c \<in> set ''12''. is_digit c" "\<forall>c \<in> set ''5''. is_digit c"
    "''12'' \<noteq> [] \<or> ''5'' \<noteq> []" "length ''5'' \<le> 18"
    by (simp_all add: is_digit_def)
  from parse_ether_decimal [OF this] show ?thesis
    by (simp add: nat_of_digits_Cons digit_val_def)
qed

text \<open>A fraction with more than 18 significant digits is a numeric fault.\<close>

lemma parse_ether_too_precise:
  assumes "\<forall>c \<in> set a. is_digit c" "\<forall>c \<in> set f. is_digit c" "18 < length (trim_trailing_zeros f)"
  shows "parse_ether (a @ CHR ''.'' # f) = Inl (NumericFault ''fractional component exceeds decimals'')"
proof -
  have ne: "f \<noteq> []" using assms(3) by (auto simp: trim_trailing_zeros_def)
  have dot: "a @ CHR ''.'' # f \<noteq> ''.''" using ne by (cases a) auto
  show ?thesis
    unfolding parse_ether_def parse_fixed_def
    using valid_decimal_digits [OF assms(1,2)] not_negative_decimal [OF assms(1), of f] dot
      split_on_decimal [OF assms(1,2)] ne assms(3)
    by (simp add: Let_def del: One_nat_def)
qed

end
