(* ===== verification/Page.thy ===== *)
theory Page
  imports JsString Base64 Json Ether
begin

text \<open>
  The component \<open>Home\<close> of \<open>src/my-app/pages/index.js\<close> and the hooks it reads.
  Its four \<open>useState\<close> cells (lines 15--18) are the record \<open>page_state\<close>; the values the
  wallet library's hooks hand it (\<open>useAccount\<close>, the two \<open>useContractRead\<close>s and
  \<open>useContractWrite\<close>, lines 13--48) are the other fields of \<open>world\<close>, together with
  the suspended invocations of the async handler \<open>mintToken\<close> (a multiset of
  continuations, one per pending \<open>await\<close>) and the console log. The \<open>tokenURI\<close>
  read is keyed by its argument, the total supply, and keeps one cached result per
  argument; each pending call of \<open>mintToken\<close> keeps the \<open>mintData\<close> it closed over.

  Each thing that can happen to the page is an \<open>event\<close>: the wallet or the chain
  delivering a new value to a hook, the user pressing a rendered button, or a promise
  of a pending \<open>mintToken\<close> settling. \<open>step\<close> applies one event, running the
  \<open>useEffect\<close> bodies whose dependencies it changed, and answers \<open>None\<close> when the
  event cannot happen in that state (a button that is not rendered or is disabled, a
  promise that is not pending). \<open>render\<close> is the JSX of lines 86--180, with the
  \<open>TypeError\<close>s that reading a property of \<open>null\<close> or \<open>undefined\<close> throws there.
\<close>

section \<open>Configuration\<close>

definition CONTRACT_ADDRESS :: string where
  "CONTRACT_ADDRESS = ''0x8ee52230e9bbb004edae82a0379ea1ba0e1d54f4''"

datatype tier = Tier0 | Tier1 | Tier2

text \<open>The three cards: label, image and the \<open>value\<close> attribute of the Mint button.\<close>

definition tier_label :: "tier \<Rightarrow> string" where
  "tier_label t = (case t of Tier0 \<Rightarrow> ''Tier 0'' | Tier1 \<Rightarrow> ''Tier 1'' | Tier2 \<Rightarrow> ''Tier 2'')"

definition tier_image :: "tier \<Rightarrow> string" where
  "tier_image t = (case t of
     Tier0 \<Rightarrow> ''/nfts/0_basic.svg'' | Tier1 \<Rightarrow> ''/nfts/1_medium.svg'' | Tier2 \<Rightarrow> ''/nfts/2_premium.svg'')"

definition tier_value :: "tier \<Rightarrow> string" where
  "tier_value t = (case t of Tier0 \<Rightarrow> ''0.01'' | Tier1 \<Rightarrow> ''0.02'' | Tier2 \<Rightarrow> ''0.05'')"

definition tiers :: "tier list" where
  "tiers = [Tier0, Tier1, Tier2]"

section \<open>State\<close>

record page_state =
  isUserConnected :: bool
  latestNFTMinted :: jsval
  modalShow :: bool
  isMinting :: bool

text \<open>\<open>useState(false)\<close>, \<open>useState(0)\<close>, \<open>useState(false)\<close>, \<open>useState(false)\<close>.\<close>

definition page_init :: page_state where
  "page_init = \<lparr>isUserConnected = False, latestNFTMinted = JNum 0 0, modalShow = False, isMinting = False\<rparr>"

type_synonym txhash = string

text \<open>Where a pending call of \<open>mintToken\<close> is suspended: at \<open>await mint(...)\<close>
  (line 72) or at \<open>await mintTxn.wait()\<close> (line 77) for the transaction with that hash.\<close>

datatype mint_stage = AwaitWrite | AwaitWait txhash

record world =
  ui :: page_state
  isConnected :: bool
  tokenData :: "nat option"
  tokenURI :: "string option"
  mintData :: "txhash option"
  isMintLoading :: bool
  pending :: "mint_stage multiset"
  refetches :: nat
  payments :: "int list"
  console :: "string list"
  uri_cache :: "nat \<Rightarrow> string option"
  write_closure :: "txhash option"
  wait_closure :: "txhash \<Rightarrow> txhash option"

text \<open>
  \<open>tokenData\<close> is the latest total supply (\<open>undefined\<close> before the first read),
  \<open>tokenURI\<close> the latest result of \<open>tokenURI(tokenData)\<close>; \<open>mintData\<close> and
  \<open>isMintLoading\<close> are the \<open>data\<close> and \<open>isLoading\<close> of the write hook, which belong to
  the latest submitted write (a new submission clears \<open>data\<close>); \<open>refetches\<close> counts
  the calls of \<open>refetchTokenData()\<close>; \<open>payments\<close> lists the \<open>value\<close> of every
  submitted write, in order.
  \<open>uri_cache\<close> is the read hook's cache of \<open>tokenURI(n)\<close> per argument \<open>n\<close>
  (the hook is keyed by its \<open>args\<close>: when \<open>tokenData\<close> changes, its \<open>data\<close> is the
  cached result for the new argument, \<open>undefined\<close> when there is none).
  \<open>write_closure\<close> is the \<open>mintData\<close> that the running \<open>mintToken\<close> closed over
  (the value of the render in which its button was pressed), and
  \<open>wait_closure h\<close> the same value for the call awaiting transaction \<open>h\<close>.
\<close>

definition world0 :: "bool \<Rightarrow> world" where
  "world0 b = \<lparr>ui = page_init, isConnected = b, tokenData = None, tokenURI = None,
     mintData = None, isMintLoading = False, pending = {#}, refetches = 0, payments = [], console = [],
     uri_cache = (\<lambda>n. None), write_closure = None, wait_closure = (\<lambda>h. None)\<rparr>"

section \<open>Effects\<close>

text \<open>Lines 50--56: \<open>setIsUserConnected(isConnected)\<close>.\<close>

definition connection_effect :: "world \<Rightarrow> world" where
  "connection_effect w = w\<lparr>ui := (ui w)\<lparr>isUserConnected := isConnected w\<rparr>\<rparr>"

text \<open>Line 61: the payload after the first comma, base64-decoded, parsed as JSON.\<close>

definition decode_token_uri :: "string \<Rightarrow> jsval js_result" where
  "decode_token_uri u =
     (case atob (js_substring u (js_indexOf u (CHR '','') + 1)) of
        Inl e \<Rightarrow> Inl e
      | Inr text \<Rightarrow> json_parse text)"

text \<open>Lines 58--66: a truthy token URI is decoded into \<open>latestNFTMinted\<close>; an exception
  is caught and logged and the state is left as it was.\<close>

definition token_uri_effect :: "world \<Rightarrow> world" where
  "token_uri_effect w =
     (case tokenURI w of
        None \<Rightarrow> w
      | Some u \<Rightarrow>
          if js_truthy_str (Some u) then
            (case decode_token_uri u of
               Inl e \<Rightarrow> w\<lparr>console := console w @ [''Error fetching token URI'']\<rparr>
             | Inr v \<Rightarrow> w\<lparr>ui := (ui w)\<lparr>latestNFTMinted := v\<rparr>\<rparr>)
          else w)"

text \<open>The mount: both effects run once with the initial hook values.\<close>

definition world_init :: "bool \<Rightarrow> world" where
  "world_init b = token_uri_effect (connection_effect (world0 b))"

section \<open>Hook updates\<close>

text \<open>A new value of a hook, followed by the effects whose dependency list changed.\<close>

definition account_changed :: "bool \<Rightarrow> world \<Rightarrow> world" where
  "account_changed b w =
     (if isConnected w = b then w else connection_effect (w\<lparr>isConnected := b\<rparr>))"

text \<open>Lines 30--38: a new total supply. The \<open>tokenURI\<close> hook's argument changes with
  it, so its data becomes the cached result for the new argument; the effect of lines
  58--66 runs because \<open>tokenData\<close> is in its dependency list.\<close>

definition supply_read :: "nat \<Rightarrow> world \<Rightarrow> world" where
  "supply_read n w =
     (if tokenData w = Some n then w
      else token_uri_effect (w\<lparr>tokenData := Some n, tokenURI := uri_cache w n\<rparr>))"

text \<open>Lines 40--48: a result of \<open>tokenURI(n)\<close> (a fetch, a refetch or a watched
  block). It is cached under \<open>n\<close>; it is the hook's data only when \<open>n\<close> is the
  current argument, and the effect runs only when that data changed.\<close>

definition uri_read :: "nat \<Rightarrow> string option \<Rightarrow> world \<Rightarrow> world" where
  "uri_read n u w =
     (let w1 = w\<lparr>uri_cache := (uri_cache w)(n := u)\<rparr> in
      if tokenData w = Some n \<and> tokenURI w \<noteq> u then token_uri_effect (w1\<lparr>tokenURI := u\<rparr>) else w1)"

section \<open>mintToken\<close>

text \<open>
  Lines 68--76 up to the first \<open>await\<close>: the modal opens in its minting state, the
  price is converted (an exception here is caught and logged, and no write is made),
  and the write is submitted, which starts a new mutation of the write hook.
\<close>

definition mint_start :: "string \<Rightarrow> world \<Rightarrow> world" where
  "mint_start value w =
     (let w1 = w\<lparr>ui := (ui w)\<lparr>isMinting := True, modalShow := True\<rparr>\<rparr> in
      case parse_ether value of
        Inl e \<Rightarrow> w1\<lparr>console := console w1 @ [''Error minting NFT'']\<rparr>
      | Inr wei \<Rightarrow> w1\<lparr>isMintLoading := True, mintData := None, write_closure := mintData w,
                      pending := add_mset AwaitWrite (pending w1),
                      payments := payments w1 @ [wei]\<rparr>)"

text \<open>\<open>await mint(...)\<close> resolves with the transaction: the hook records it and the
  call goes on to \<open>await mintTxn.wait()\<close> (line 77).\<close>

definition mint_write_resolved :: "txhash \<Rightarrow> world \<Rightarrow> world" where
  "mint_write_resolved h w =
     w\<lparr>isMintLoading := False, mintData := Some h, wait_closure := (wait_closure w)(h := write_closure w),
       pending := add_mset (AwaitWait h) (pending w - {#AwaitWrite#})\<rparr>"

text \<open>\<open>await mint(...)\<close> rejects (the user declines, the RPC fails): caught at line 81.\<close>

definition mint_write_rejected :: "world \<Rightarrow> world" where
  "mint_write_rejected w =
     w\<lparr>isMintLoading := False, mintData := None, pending := pending w - {#AwaitWrite#},
       console := console w @ [''Error minting NFT'']\<rparr>"

text \<open>Line 78: the second argument of \<open>console.log\<close>, the transaction object or
  \<open>undefined\<close>, written by its hash.\<close>

definition log_value :: "txhash option \<Rightarrow> string" where
  "log_value d = (case d of None \<Rightarrow> ''undefined'' | Some h \<Rightarrow> h)"

text \<open>Lines 77--80 after the confirmation: log \<open>mintData\<close> as the call closed over it,
  \<open>refetchTokenData()\<close> (not awaited), \<open>setIsMinting(false)\<close>.\<close>

definition mint_confirmed :: "txhash \<Rightarrow> world \<Rightarrow> world" where
  "mint_confirmed h w =
     w\<lparr>pending := pending w - {#AwaitWait h#},
       console := console w @ [''This is the mint data '' @ log_value (wait_closure w h)],
       refetches := Suc (refetches w),
       ui := (ui w)\<lparr>isMinting := False\<rparr>\<rparr>"

text \<open>\<open>await mintTxn.wait()\<close> rejects (the transaction reverts): caught at line 81.\<close>

definition mint_wait_failed :: "txhash \<Rightarrow> world \<Rightarrow> world" where
  "mint_wait_failed h w =
     w\<lparr>pending := pending w - {#AwaitWait h#}, console := console w @ [''Error minting NFT'']\<rparr>"

text \<open>Line 167: the Close button.\<close>

definition close_modal :: "world \<Rightarrow> world" where
  "close_modal w = w\<lparr>ui := (ui w)\<lparr>modalShow := False\<rparr>\<rparr>"

section \<open>Rendering\<close>

datatype card = Card (card_label: string) (card_image: string) (card_value: string) (card_disabled: bool)

text \<open>The success modal shows the name and the image of the latest metadata
  (\<open>undefined\<close> is \<^const>\<open>None\<close>) and the two links.\<close>

datatype modal = ModalMinting | ModalSuccess "jsval option" "jsval option" string string

datatype view = PleaseConnect | MintPage "card list" "modal option"

text \<open>Lines 100--141: one card per tier, its button disabled while the write hook is loading.\<close>

definition render_card :: "world \<Rightarrow> tier \<Rightarrow> card" where
  "render_card w t = Card (tier_label t) (tier_image t) (tier_value t) (isMintLoading w)"

text \<open>\<open>${tokenData}\<close>: the decimal total supply, \<open>undefined\<close> before the first read.\<close>

definition opensea_url :: "nat option \<Rightarrow> string" where
  "opensea_url n = ''https://testnets.opensea.io/assets/mumbai/'' @ CONTRACT_ADDRESS @ ''/''
     @ (case n of None \<Rightarrow> ''undefined'' | Some k \<Rightarrow> dec_digits k)"

definition polygonscan_url :: "txhash \<Rightarrow> string" where
  "polygonscan_url h = ''https://mumbai.polygonscan.com/tx/'' @ h"

text \<open>Lines 143--172, evaluated in order: \<open>latestNFTMinted.name\<close>,
  \<open>latestNFTMinted.image\<close>, the OpenSea link, \<open>mintData.hash\<close>.\<close>

text \<open>Line 153 renders \<open>latestNFTMinted.name\<close> as a child of \<open>h3\<close>. React renders a
  string or a number as text, and \<open>true\<close>, \<open>false\<close>, \<open>null\<close> and
  \<open>undefined\<close> as nothing; it renders an array element by element; for any other
  object it throws \<open>Error: Objects are not valid as a React child\<close>. The check runs
  when React reconciles the element tree that the component returned, after every
  property read of the JSX.\<close>

fun react_child :: "jsval \<Rightarrow> bool" where
  "react_child (JObj ms) = False"
| "react_child (JArr vs) = list_all react_child vs"
| "react_child JNull = True"
| "react_child (JBool b) = True"
| "react_child (JNum m e) = True"
| "react_child (JStr s) = True"

definition react_child_opt :: "jsval option \<Rightarrow> bool" where
  "react_child_opt v = (case v of None \<Rightarrow> True | Some x \<Rightarrow> react_child x)"

definition invalid_child :: js_error where
  "invalid_child = Error ''Objects are not valid as a React child''"

definition render_modal :: "world \<Rightarrow> modal js_result" where
  "render_modal w =
     (if isMinting (ui w) then Inr ModalMinting
      else
        (case get_field (latestNFTMinted (ui w)) (utf16 ''name'') of
           Inl e \<Rightarrow> Inl e
         | Inr nm \<Rightarrow>
             (case get_field (latestNFTMinted (ui w)) (utf16 ''image'') of
                Inl e \<Rightarrow> Inl e
              | Inr im \<Rightarrow>
                  (case mintData w of
                     None \<Rightarrow> Inl (TypeError ''Cannot read properties of undefined (reading hash)'')
                   | Some h \<Rightarrow>
                       if react_child_opt nm
                       then Inr (ModalSuccess nm im (opensea_url (tokenData w)) (polygonscan_url h))
                       else Inl invalid_child))))"

text \<open>Lines 86--180.\<close>

definition render :: "world \<Rightarrow> view js_result" where
  "render w =
     (if isUserConnected (ui w) then
        (if modalShow (ui w) then
           (case render_modal w of
              Inl e \<Rightarrow> Inl e
            | Inr m \<Rightarrow> Inr (MintPage (map (render_card w) tiers) (Some m)))
         else Inr (MintPage (map (render_card w) tiers) None))
      else Inr PleaseConnect)"

section \<open>Events\<close>

datatype event =
    AccountChanged bool
  | SupplyRead nat
  | UriRead nat "string option"
  | ClickMint tier
  | WriteResolved txhash
  | WriteRejected string
  | WaitResolved txhash
  | WaitRejected txhash string
  | CloseModal

text \<open>A Mint button can be pressed when the page rendered it and it is not disabled; the
  Close button when the page rendered the success modal.\<close>

definition mint_enabled :: "world \<Rightarrow> bool" where
  "mint_enabled w = (case render w of Inr (MintPage cs m) \<Rightarrow> \<not> isMintLoading w | _ \<Rightarrow> False)"

definition close_enabled :: "world \<Rightarrow> bool" where
  "close_enabled w = (case render w of Inr (MintPage cs (Some (ModalSuccess nm im l1 l2))) \<Rightarrow> True | _ \<Rightarrow> False)"

fun step :: "world \<Rightarrow> event \<Rightarrow> world option" where
  "step w (AccountChanged b) = Some (account_changed b w)"
| "step w (SupplyRead n) = Some (supply_read n w)"
| "step w (UriRead n u) = Some (uri_read n u w)"
| "step w (ClickMint t) = (if mint_enabled w then Some (mint_start (tier_value t) w) else None)"
| "step w (WriteResolved h) = (if AwaitWrite \<in># pending w then Some (mint_write_resolved h w) else None)"
| "step w (WriteRejected msg) = (if AwaitWrite \<in># pending w then Some (mint_write_rejected w) else None)"
| "step w (WaitResolved h) = (if AwaitWait h \<in># pending w then Some (mint_confirmed h w) else None)"
| "step w (WaitRejected h msg) = (if AwaitWait h \<in># pending w then Some (mint_wait_failed h w) else None)"
| "step w CloseModal = (if close_enabled w then Some (close_modal w) else None)"

fun run :: "world \<Rightarrow> event list \<Rightarrow> world option" where
  "run w [] = Some w"
| "run w (e # es) = (case step w e of None \<Rightarrow> None | Some w' \<Rightarrow> run w' es)"

inductive reach :: "world \<Rightarrow> bool" where
  init: "reach (world_init b)"
| step: "reach w \<Longrightarrow> step w e = Some w' \<Longrightarrow> reach w'"

section \<open>Basic facts\<close>

lemmas page_state_defs = world_init_def world0_def page_init_def connection_effect_def
  account_changed_def supply_read_def uri_read_def Let_def mint_start_def mint_write_resolved_def
  mint_write_rejected_def mint_confirmed_def mint_wait_failed_def close_modal_def

lemmas page_view_defs = mint_enabled_def close_enabled_def render_def render_modal_def react_child_opt_def render_card_def
  tiers_def tier_value_def tier_label_def tier_image_def

lemma run_Cons_Some: "step w e = Some w' \<Longrightarrow> run w (e # es) = run w' es"
  by simp

lemma run_append: "run w (xs @ ys) = (case run w xs of None \<Rightarrow> None | Some w' \<Rightarrow> run w' ys)"
  by (induction xs arbitrary: w) (auto split: option.splits)

lemma reach_run: "reach w \<Longrightarrow> run w es = Some w' \<Longrightarrow> reach w'"
proof (induction es arbitrary: w)
  case Nil
  then show ?case by simp
next
  case (Cons e es)
  then obtain w1 where s: "step w e = Some w1" and r: "run w1 es = Some w'"
    by (auto split: option.splits)
  from Cons.prems(1) s have "reach w1" by (rule reach.step)
  from this r show ?case by (rule Cons.IH)
qed

lemma close_enabled_D:
  "close_enabled w \<Longrightarrow> isUserConnected (ui w) \<and> modalShow (ui w) \<and> \<not> isMinting (ui w)"
  by (auto simp: close_enabled_def render_def render_modal_def
           split: if_splits sum.splits option.splits modal.splits view.splits)

lemma mint_enabled_D: "mint_enabled w \<Longrightarrow> isUserConnected (ui w) \<and> \<not> isMintLoading w"
  by (auto simp: mint_enabled_def render_def split: if_splits sum.splits view.splits)

text \<open>The decoding effect always leaves the metadata in agreement with the current URI.\<close>

definition uri_inv :: "world \<Rightarrow> bool" where
  "uri_inv w \<longleftrightarrow> (\<forall>u v. tokenURI w = Some u \<longrightarrow> u \<noteq> [] \<longrightarrow> decode_token_uri u = Inr v
                     \<longrightarrow> latestNFTMinted (ui w) = v)"

lemma token_uri_effect_uri_inv: "uri_inv (token_uri_effect w)"
  by (auto simp: uri_inv_def token_uri_effect_def split: option.splits sum.splits)

lemma token_uri_effect_fields [simp]:
  "isMinting (ui (token_uri_effect w)) = isMinting (ui w)"
  "modalShow (ui (token_uri_effect w)) = modalShow (ui w)"
  "isUserConnected (ui (token_uri_effect w)) = isUserConnected (ui w)"
  "isConnected (token_uri_effect w) = isConnected w"
  "isMintLoading (token_uri_effect w) = isMintLoading w"
  "pending (token_uri_effect w) = pending w"
  "mintData (token_uri_effect w) = mintData w"
  "tokenData (token_uri_effect w) = tokenData w"
  "tokenURI (token_uri_effect w) = tokenURI w"
  "refetches (token_uri_effect w) = refetches w"
  "payments (token_uri_effect w) = payments w"
  "uri_cache (token_uri_effect w) = uri_cache w"
  "write_closure (token_uri_effect w) = write_closure w"
  "wait_closure (token_uri_effect w) = wait_closure w"
  by (auto simp: token_uri_effect_def split: option.splits sum.splits)

section \<open>The page invariant\<close>

text \<open>The URI the effect sees is the read hook's data for its current argument.\<close>

definition key_inv :: "world \<Rightarrow> bool" where
  "key_inv w \<longleftrightarrow> tokenURI w = (case tokenData w of None \<Rightarrow> None | Some n \<Rightarrow> uri_cache w n)"

definition page_inv :: "world \<Rightarrow> bool" where
  "page_inv w \<longleftrightarrow>
     (isMinting (ui w) \<longrightarrow> modalShow (ui w))
     \<and> (isMintLoading w \<longleftrightarrow> AwaitWrite \<in># pending w)
     \<and> count (pending w) AwaitWrite \<le> 1
     \<and> isUserConnected (ui w) = isConnected w
     \<and> uri_inv w
     \<and> key_inv w"

lemma page_inv_init: "page_inv (world_init b)"
  using token_uri_effect_uri_inv [of "connection_effect (world0 b)"]
  by (simp add: page_inv_def key_inv_def world_init_def world0_def page_init_def connection_effect_def)

lemma uri_inv_frame:
  "uri_inv w \<Longrightarrow> tokenURI w' = tokenURI w \<Longrightarrow> latestNFTMinted (ui w') = latestNFTMinted (ui w) \<Longrightarrow> uri_inv w'"
  by (simp add: uri_inv_def)

lemma key_inv_frame:
  "key_inv w \<Longrightarrow> tokenURI w' = tokenURI w \<Longrightarrow> tokenData w' = tokenData w \<Longrightarrow> uri_cache w' = uri_cache w
   \<Longrightarrow> key_inv w'"
  by (simp add: key_inv_def split: option.splits)

lemma count_single:
  assumes "x \<in># M" "count M x \<le> 1"
  shows "count M x = 1"
proof -
  have "0 < count M x" using assms(1) by (simp add: count_greater_zero_iff)
  with assms(2) show ?thesis by linarith
qed

lemma count_remove_other: "x \<noteq> y \<Longrightarrow> count (M - {#y#}) x = count M x"
  by simp

lemma step_page_inv: "page_inv w \<Longrightarrow> step w e = Some w' \<Longrightarrow> page_inv w'"
proof (cases e)
  case (AccountChanged b)
  assume "page_inv w" "step w e = Some w'"
  with AccountChanged show ?thesis
    by (auto simp: page_inv_def account_changed_def connection_effect_def intro: uri_inv_frame key_inv_frame
             split: if_splits)
next
  case (SupplyRead n)
  assume "page_inv w" "step w e = Some w'"
  with SupplyRead show ?thesis
    by (auto simp: page_inv_def key_inv_def supply_read_def token_uri_effect_uri_inv split: if_splits)
next
  case (UriRead n u)
  assume "page_inv w" "step w e = Some w'"
  with UriRead show ?thesis
    by (auto simp: page_inv_def key_inv_def uri_read_def Let_def token_uri_effect_uri_inv
        intro: uri_inv_frame split: if_splits option.splits)
next
  case (ClickMint t)
  assume inv: "page_inv w" and s: "step w e = Some w'"
  with ClickMint have en: "mint_enabled w" and w': "w' = mint_start (tier_value t) w"
    by (auto split: if_splits)
  from en inv have "AwaitWrite \<notin># pending w" by (auto simp: page_inv_def dest: mint_enabled_D)
  with inv w' show ?thesis
    by (auto simp: page_inv_def mint_start_def Let_def not_in_iff intro: uri_inv_frame key_inv_frame split: sum.splits)
next
  case (WriteResolved h)
  assume inv: "page_inv w" and s: "step w e = Some w'"
  with WriteResolved have p: "AwaitWrite \<in># pending w" and w': "w' = mint_write_resolved h w"
    by (auto split: if_splits)
  from p inv have "count (pending w) AwaitWrite = 1" by (simp add: page_inv_def count_single)
  with inv w' show ?thesis
    by (auto simp: page_inv_def mint_write_resolved_def in_diff_count intro: uri_inv_frame key_inv_frame)
next
  case (WriteRejected msg)
  assume inv: "page_inv w" and s: "step w e = Some w'"
  with WriteRejected have p: "AwaitWrite \<in># pending w" and w': "w' = mint_write_rejected w"
    by (auto split: if_splits)
  from p inv have "count (pending w) AwaitWrite = 1" by (simp add: page_inv_def count_single)
  with inv w' show ?thesis
    by (auto simp: page_inv_def mint_write_rejected_def in_diff_count intro: uri_inv_frame key_inv_frame)
next
  case (WaitResolved h)
  assume inv: "page_inv w" and s: "step w e = Some w'"
  with WaitResolved have w': "w' = mint_confirmed h w" by (auto split: if_splits)
  with inv show ?thesis
    by (auto simp: page_inv_def mint_confirmed_def in_diff_count intro: uri_inv_frame key_inv_frame)
next
  case (WaitRejected h msg)
  assume inv: "page_inv w" and s: "step w e = Some w'"
  with WaitRejected have w': "w' = mint_wait_failed h w" by (auto split: if_splits)
  with inv show ?thesis
    by (auto simp: page_inv_def mint_wait_failed_def in_diff_count intro: uri_inv_frame key_inv_frame)
next
  case CloseModal
  assume inv: "page_inv w" and s: "step w e = Some w'"
  with CloseModal have en: "close_enabled w" and w': "w' = close_modal w"
    by (auto split: if_splits)
  from en have "\<not> isMinting (ui w)" by (simp add: close_enabled_D)
  with inv w' show ?thesis
    by (auto simp: page_inv_def close_modal_def intro: uri_inv_frame key_inv_frame)
qed

lemma reach_page_inv: "reach w \<Longrightarrow> page_inv w"
proof (induction rule: reach.induct)
  case (init b)
  show ?case by (rule page_inv_init)
next
  case (step w e w')
  then show ?case by (blast intro: step_page_inv)
qed

section \<open>Properties of single events\<close>

lemma tier_payment:
  "parse_ether (tier_value t) = Inr (case t of Tier0 \<Rightarrow> 10 ^ 16 | Tier1 \<Rightarrow> 2 * 10 ^ 16 | Tier2 \<Rightarrow> 5 * 10 ^ 16)"
  by (cases t) (simp_all add: tier_value_def js_eval)

definition is_click :: "event \<Rightarrow> bool" where
  "is_click e = (case e of ClickMint t \<Rightarrow> True | _ \<Rightarrow> False)"

definition is_confirmation :: "event \<Rightarrow> bool" where
  "is_confirmation e = (case e of WaitResolved h \<Rightarrow> True | _ \<Rightarrow> False)"

lemma step_ClickMint: "step w (ClickMint t) = Some w' \<longleftrightarrow> mint_enabled w \<and> w' = mint_start (tier_value t) w"
  by auto

text \<open>C1: pressing the button of a tier opens the modal in its minting state and submits one
  write whose payment is the tier's price in wei: 10^16, 2 * 10^16 or 5 * 10^16.\<close>

theorem mint_click_payment:
  assumes "step w (ClickMint t) = Some w'"
  shows "payments w' = payments w @ [case t of Tier0 \<Rightarrow> 10 ^ 16 | Tier1 \<Rightarrow> 2 * 10 ^ 16 | Tier2 \<Rightarrow> 5 * 10 ^ 16]
    \<and> pending w' = add_mset AwaitWrite (pending w)
    \<and> isMinting (ui w') \<and> modalShow (ui w') \<and> isMintLoading w' \<and> mintData w' = None"
  using assms tier_payment [of t] by (auto simp: mint_start_def Let_def split: if_splits)

text \<open>C5: the modal leaves its minting state only when a pending transaction is confirmed,
  and exactly that event calls \<open>refetchTokenData()\<close>, once.\<close>

theorem minting_ends_only_on_confirmation:
  assumes "step w e = Some w'"
  shows "refetches w' = (if is_confirmation e then Suc (refetches w) else refetches w)
    \<and> (isMinting (ui w) \<and> \<not> isMinting (ui w') \<longrightarrow> is_confirmation e)"
  using assms
  by (cases e) (auto simp: is_confirmation_def page_state_defs Let_def split: if_splits sum.splits)

section \<open>Invariants of the reachable states\<close>

text \<open>C2: in every reachable state the minting modal is open while a mint is in progress,
  the write hook is loading exactly while a call waits for its write (at most one
  does), and the connection flag of the page mirrors the wallet's.\<close>

theorem reachable_page_invariant:
  assumes "reach w"
  shows "(isMinting (ui w) \<longrightarrow> modalShow (ui w))
    \<and> (isMintLoading w \<longleftrightarrow> AwaitWrite \<in># pending w)
    \<and> count (pending w) AwaitWrite \<le> 1
    \<and> isUserConnected (ui w) = isConnected w"
  using reach_page_inv [OF assms] by (simp add: page_inv_def)

text \<open>C9: in every reachable state whose token URI is truthy and decodes, the metadata the
  page holds is the decoding of that URI.\<close>

theorem reachable_metadata_matches_uri:
  assumes "reach w" and "tokenURI w = Some u" and "u \<noteq> []" and "decode_token_uri u = Inr v"
  shows "latestNFTMinted (ui w) = v"
  using reach_page_inv [OF assms(1)] assms(2-4) by (simp add: page_inv_def uri_inv_def)

section \<open>Rendering\<close>

lemma get_field_error: "get_field v k = Inl e \<Longrightarrow> e = TypeError ''Cannot read properties of null''"
  by (cases v) auto

lemma render_card_frame:
  "isMintLoading w' = isMintLoading w \<Longrightarrow> render_card w' = render_card w"
  by (simp add: render_card_def fun_eq_iff)

text \<open>C7: without a connected wallet the page shows only the prompt to connect; with one,
  and no modal, it shows the three tier cards with their prices, each Mint button
  disabled exactly while a write is loading.\<close>

theorem render_connection:
  "(\<not> isUserConnected (ui w) \<longrightarrow> render w = Inr PleaseConnect)
   \<and> (isUserConnected (ui w) \<and> \<not> modalShow (ui w) \<longrightarrow>
        render w = Inr (MintPage
          [Card ''Tier 0'' ''/nfts/0_basic.svg'' ''0.01'' (isMintLoading w),
           Card ''Tier 1'' ''/nfts/1_medium.svg'' ''0.02'' (isMintLoading w),
           Card ''Tier 2'' ''/nfts/2_premium.svg'' ''0.05'' (isMintLoading w)] None))"
  by (simp add: render_def tiers_def render_card_def tier_label_def tier_image_def tier_value_def)

text \<open>C8: the Close button returns the page to the connected, idle view, with the cards as
  they were.\<close>

theorem close_modal_returns_idle:
  assumes "step w CloseModal = Some w'"
  shows "render w' = Inr (MintPage (map (render_card w) tiers) None) \<and> isMintLoading w' = isMintLoading w"
proof -
  from assms have en: "close_enabled w" and w': "w' = close_modal w" by (auto split: if_splits)
  from en have "isUserConnected (ui w)" by (simp add: close_enabled_D)
  moreover have "render_card w' = render_card w" using w' by (intro render_card_frame) (simp add: close_modal_def)
  ultimately show ?thesis using w' by (simp add: render_def close_modal_def)
qed

text \<open>C16: a token whose metadata is the JSON text \<open>null\<close> makes the success modal throw.\<close>

theorem null_metadata_crashes_modal:
  assumes "isUserConnected (ui w)" and "modalShow (ui w)" and "\<not> isMinting (ui w)"
    and "latestNFTMinted (ui w) = JNull"
  shows "render w = Inl (TypeError ''Cannot read properties of null'')"
  using assms by (simp add: render_def render_modal_def)

text \<open>C17: a token whose metadata has a \<open>name\<close> that is an object (or an array holding
  one) makes the success modal throw React's invalid-child error, once the transaction
  hash is there to be read.\<close>

theorem object_name_crashes_modal:
  assumes "isUserConnected (ui w)" and "modalShow (ui w)" and "\<not> isMinting (ui w)" and "mintData w = Some h"
    and "get_field (latestNFTMinted (ui w)) (utf16 ''name'') = Inr (Some v)" and "\<not> react_child v"
  shows "render w = Inl invalid_child"
proof -
  have "latestNFTMinted (ui w) \<noteq> JNull" using assms(5) by auto
  then obtain im where "get_field (latestNFTMinted (ui w)) (utf16 ''image'') = Inr im"
    using get_field_Inr by blast
  with assms show ?thesis by (simp add: render_def render_modal_def react_child_opt_def)
qed

section \<open>Errors of the token URI\<close>

text \<open>C10: a new token URI that does not decode leaves the metadata as it was and logs the
  error; nothing else changes.\<close>

theorem uri_decode_error_keeps_metadata:
  assumes "tokenData w = Some n" and "tokenURI w \<noteq> Some u" and "u \<noteq> []" and "decode_token_uri u = Inl e"
  shows "step w (UriRead n (Some u)) = Some (w\<lparr>uri_cache := (uri_cache w)(n := Some u), tokenURI := Some u,
    console := console w @ [''Error fetching token URI'']\<rparr>)"
  using assms by (simp add: uri_read_def Let_def token_uri_effect_def Let_def)

section \<open>One mint at a time\<close>

text \<open>The runs in which the user presses a Mint button only when no earlier call of
  \<open>mintToken\<close> is still pending.\<close>

inductive reach_seq :: "world \<Rightarrow> bool" where
  init: "reach_seq (world_init b)"
| step: "reach_seq w \<Longrightarrow> step w e = Some w' \<Longrightarrow> (is_click e \<longrightarrow> pending w = {#}) \<Longrightarrow> reach_seq w'"

lemma reach_seq_reach: "reach_seq w \<Longrightarrow> reach w"
  by (induction rule: reach_seq.induct) (auto intro: reach.intros)

definition seq_inv :: "world \<Rightarrow> bool" where
  "seq_inv w \<longleftrightarrow>
     size (pending w) \<le> 1
     \<and> (pending w \<noteq> {#} \<longrightarrow> isMinting (ui w))
     \<and> (\<forall>h. AwaitWait h \<in># pending w \<longrightarrow> mintData w = Some h)
     \<and> (modalShow (ui w) \<and> \<not> isMinting (ui w) \<longrightarrow> mintData w \<noteq> None)"

lemma single_mset: "x \<in># M \<Longrightarrow> size M \<le> 1 \<Longrightarrow> M = {#x#}"
proof -
  assume x: "x \<in># M" and s: "size M \<le> 1"
  from x obtain N where M: "M = add_mset x N" by (metis multi_member_split)
  with s have "N = {#}" by simp
  with M show ?thesis by simp
qed

lemma seq_inv_init: "seq_inv (world_init b)"
  by (simp add: seq_inv_def world_init_def world0_def page_init_def connection_effect_def)

lemma step_seq_inv:
  assumes inv: "page_inv w" "seq_inv w" and s: "step w e = Some w'" and c: "is_click e \<longrightarrow> pending w = {#}"
  shows "seq_inv w'"
proof (cases e)
  case (AccountChanged b)
  with inv s show ?thesis
    by (auto simp: seq_inv_def account_changed_def connection_effect_def split: if_splits)
next
  case (SupplyRead n)
  with inv s show ?thesis by (auto simp: seq_inv_def supply_read_def split: if_splits)
next
  case (UriRead n u)
  with inv s show ?thesis by (auto simp: seq_inv_def uri_read_def Let_def split: if_splits)
next
  case (ClickMint t)
  with c have "pending w = {#}" by (simp add: is_click_def)
  with ClickMint s show ?thesis
    by (auto simp: seq_inv_def mint_start_def Let_def split: if_splits sum.splits)
next
  case (WriteResolved h)
  with s have p: "AwaitWrite \<in># pending w" and w': "w' = mint_write_resolved h w"
    by (auto split: if_splits)
  with inv have "pending w = {#AwaitWrite#}" by (auto simp: seq_inv_def intro: single_mset)
  with inv w' show ?thesis by (auto simp: seq_inv_def mint_write_resolved_def)
next
  case (WriteRejected msg)
  with s have p: "AwaitWrite \<in># pending w" and w': "w' = mint_write_rejected w"
    by (auto split: if_splits)
  with inv have "pending w = {#AwaitWrite#}" by (auto simp: seq_inv_def intro: single_mset)
  with inv w' show ?thesis by (auto simp: seq_inv_def mint_write_rejected_def)
next
  case (WaitResolved h)
  with s have p: "AwaitWait h \<in># pending w" and w': "w' = mint_confirmed h w"
    by (auto split: if_splits)
  with inv have "pending w = {#AwaitWait h#}" "mintData w = Some h"
    by (auto simp: seq_inv_def intro: single_mset)
  with w' show ?thesis by (auto simp: seq_inv_def mint_confirmed_def)
next
  case (WaitRejected h msg)
  with s have p: "AwaitWait h \<in># pending w" and w': "w' = mint_wait_failed h w"
    by (auto split: if_splits)
  with inv have "pending w = {#AwaitWait h#}" "isMinting (ui w)"
    by (auto simp: seq_inv_def intro: single_mset)
  with w' show ?thesis by (auto simp: seq_inv_def mint_wait_failed_def)
next
  case CloseModal
  with s have w': "w' = close_modal w" by (auto split: if_splits)
  with inv show ?thesis by (auto simp: seq_inv_def close_modal_def)
qed

lemma reach_seq_inv: "reach_seq w \<Longrightarrow> seq_inv w"
proof (induction rule: reach_seq.induct)
  case (init b)
  show ?case by (rule seq_inv_init)
next
  case (step w e w')
  from step.hyps(1) have "page_inv w" by (intro reach_page_inv reach_seq_reach)
  with step show ?case by (blast intro: step_seq_inv)
qed

lemma get_field_JNull: "get_field v k = Inl e \<Longrightarrow> v = JNull"
  by (cases v) auto

lemma seq_inv_render:
  assumes inv: "seq_inv w" and r: "render w = Inl e"
  shows "(latestNFTMinted (ui w) = JNull \<and> e = TypeError ''Cannot read properties of null'')
    \<or> (e = invalid_child \<and> (\<exists>nm. get_field (latestNFTMinted (ui w)) (utf16 ''name'') = Inr nm \<and> \<not> react_child_opt nm))"
proof -
  from r have "isUserConnected (ui w)" "modalShow (ui w)" "render_modal w = Inl e"
    by (auto simp: render_def split: if_splits sum.splits)
  then show ?thesis using inv
    by (auto simp: render_modal_def seq_inv_def dest: get_field_error get_field_JNull
        split: if_splits sum.splits option.splits)
qed

text \<open>C3: when mints do not overlap, the page throws while rendering only because of the
  metadata: a \<open>TypeError\<close> when it is \<open>null\<close>, React's invalid-child error when its
  \<open>name\<close> is an object (or an array holding one). The success modal always has the hash
  of a transaction.\<close>

theorem seq_render_safe:
  assumes "reach_seq w" and "render w = Inl e"
  shows "(latestNFTMinted (ui w) = JNull \<and> e = TypeError ''Cannot read properties of null'')
    \<or> (e = invalid_child \<and> (\<exists>nm. get_field (latestNFTMinted (ui w)) (utf16 ''name'') = Inr nm \<and> \<not> react_child_opt nm))"
  using reach_seq_inv [OF assms(1)] assms(2) by (rule seq_inv_render)

section \<open>A failed mint\<close>

lemma step_no_click_keeps_minting:
  assumes "step w e = Some w'" and "\<not> is_click e" and "pending w = {#}"
    and "isMinting (ui w)" and "modalShow (ui w)"
  shows "pending w' = {#} \<and> isMinting (ui w') \<and> modalShow (ui w')"
proof (cases e)
  case CloseModal
  with assms have "close_enabled w" by (auto split: if_splits)
  with assms(4) show ?thesis by (simp add: close_enabled_D)
qed (use assms in \<open>auto simp: is_click_def account_changed_def connection_effect_def
       supply_read_def uri_read_def Let_def split: if_splits\<close>)

lemma run_no_click_keeps_minting:
  "run w es = Some w' \<Longrightarrow> \<forall>e \<in> set es. \<not> is_click e \<Longrightarrow> pending w = {#}
   \<Longrightarrow> isMinting (ui w) \<Longrightarrow> modalShow (ui w)
   \<Longrightarrow> pending w' = {#} \<and> isMinting (ui w') \<and> modalShow (ui w')"
proof (induction es arbitrary: w)
  case Nil
  then show ?case by simp
next
  case (Cons e es)
  then obtain w1 where s: "step w e = Some w1" and r: "run w1 es = Some w'"
    by (auto split: option.splits)
  from s Cons.prems have "pending w1 = {#} \<and> isMinting (ui w1) \<and> modalShow (ui w1)"
    by (intro step_no_click_keeps_minting) auto
  with r Cons.prems(2) show ?case by (intro Cons.IH) auto
qed

text \<open>C6: once no call of \<open>mintToken\<close> is pending and the modal still says
  ``Minting...'' (a write or a confirmation failed), nothing but a new press of a Mint
  button gets the page out of it: the modal has no Close button in that state.\<close>

theorem failed_mint_modal_stuck:
  assumes "run w es = Some w'" and "\<forall>e \<in> set es. \<not> is_click e" and "pending w = {#}"
    and "isMinting (ui w)" and "modalShow (ui w)"
  shows "isMinting (ui w') \<and> modalShow (ui w') \<and> \<not> close_enabled w'
    \<and> (render w' = Inr PleaseConnect \<or> render w' = Inr (MintPage (map (render_card w') tiers) (Some ModalMinting)))"
proof -
  have m: "isMinting (ui w')" "modalShow (ui w')"
    using run_no_click_keeps_minting [OF assms] by simp_all
  then show ?thesis
    by (auto simp: render_def render_modal_def dest: close_enabled_D)
qed

section \<open>Concrete runs\<close>

lemma reach_run_init: "run (world_init b) es = Some w \<Longrightarrow> reach w"
  by (rule reach_run [OF reach.init])

fun seq_run :: "world \<Rightarrow> event list \<Rightarrow> world option" where
  "seq_run w [] = Some w"
| "seq_run w (e # es) =
     (if is_click e \<and> pending w \<noteq> {#} then None
      else (case step w e of None \<Rightarrow> None | Some w' \<Rightarrow> seq_run w' es))"

lemma reach_seq_run: "reach_seq w \<Longrightarrow> seq_run w es = Some w' \<Longrightarrow> reach_seq w'"
proof (induction es arbitrary: w)
  case Nil
  then show ?case by simp
next
  case (Cons e es)
  then obtain w1 where c: "is_click e \<longrightarrow> pending w = {#}" and s: "step w e = Some w1"
    and r: "seq_run w1 es = Some w'"
    by (auto split: if_splits option.splits)
  from Cons.prems(1) s c have "reach_seq w1" by (rule reach_seq.step)
  from this r show ?case by (rule Cons.IH)
qed

lemmas page_eval = page_state_defs page_view_defs token_uri_effect_def is_click_def
  decode_token_uri_def js_indexOf_def js_substring_def js_truthy_str_def

text \<open>C4: with two mints in flight (the second button pressed while the first transaction
  awaits its confirmation, which the page allows), the first confirmation shows the
  success modal while the write hook holds no transaction, and rendering throws.\<close>

theorem overlapping_mints_crash_render:
  "\<exists>w. run (world_init True) [ClickMint Tier0, WriteResolved ''0xa1'', ClickMint Tier1, WaitResolved ''0xa1'']
         = Some w
     \<and> reach w \<and> render w = Inl (TypeError ''Cannot read properties of undefined (reading hash)'')"
proof -
  obtain w where r: "run (world_init True)
      [ClickMint Tier0, WriteResolved ''0xa1'', ClickMint Tier1, WaitResolved ''0xa1''] = Some w"
    by (simp add: page_eval js_eval)
  moreover from r have "reach w" by (rule reach_run_init)
  moreover from r have "render w = Inl (TypeError ''Cannot read properties of undefined (reading hash)'')"
    by (auto simp: page_eval js_eval)
  ultimately show ?thesis by blast
qed

section \<open>Witnesses\<close>

theorem mint_click_payment_witness:
  "\<exists>w'. step (world_init True) (ClickMint Tier1) = Some w' \<and> payments w' = [2 * 10 ^ 16]"
proof -
  have "mint_enabled (world_init True)" by (simp add: page_eval)
  then obtain w' where s: "step (world_init True) (ClickMint Tier1) = Some w'" by simp
  from mint_click_payment [OF s] have "payments w' = [2 * 10 ^ 16]"
    by (simp add: world_init_def world0_def connection_effect_def token_uri_effect_def)
  with s show ?thesis by blast
qed

theorem minting_ends_only_on_confirmation_witness:
  "\<exists>w w'. run (world_init True) [ClickMint Tier0, WriteResolved ''0xb2''] = Some w
     \<and> step w (WaitResolved ''0xb2'') = Some w' \<and> refetches w' = 1 \<and> \<not> isMinting (ui w')"
proof -
  obtain w where r: "run (world_init True) [ClickMint Tier0, WriteResolved ''0xb2''] = Some w"
    by (simp add: page_eval js_eval)
  moreover obtain w' where s: "step w (WaitResolved ''0xb2'') = Some w'"
    using r by (auto simp: page_eval js_eval)
  moreover have "refetches w' = Suc (refetches w)"
    using minting_ends_only_on_confirmation [OF s] by (simp add: is_confirmation_def)
  moreover have "refetches w = 0" using r by (auto simp: page_eval js_eval)
  moreover have "\<not> isMinting (ui w')" using r s by (auto simp: page_eval js_eval)
  ultimately show ?thesis by auto
qed

theorem reachable_page_invariant_witness:
  "\<exists>w. run (world_init True) [ClickMint Tier2] = Some w \<and> isMintLoading w \<and> modalShow (ui w)"
proof -
  obtain w where r: "run (world_init True) [ClickMint Tier2] = Some w"
    by (simp add: page_eval js_eval)
  have inv: "(isMinting (ui w) \<longrightarrow> modalShow (ui w)) \<and> (isMintLoading w \<longleftrightarrow> AwaitWrite \<in># pending w)"
    using reachable_page_invariant [OF reach_run_init [OF r]] by simp
  moreover have "AwaitWrite \<in># pending w" "isMinting (ui w)" using r by (auto simp: page_eval js_eval)
  ultimately show ?thesis using r by blast
qed

theorem reachable_metadata_matches_uri_witness:
  "\<exists>w. run (world_init True) [SupplyRead 1, UriRead 1 (Some ''data:application/json;base64,eyJuYW1lIjoiWCJ9'')] = Some w
     \<and> latestNFTMinted (ui w) = JObj [(utf16 ''name'', JStr (utf16 ''X''))]"
proof -
  let ?u = "''data:application/json;base64,eyJuYW1lIjoiWCJ9''"
  obtain w where r: "run (world_init True) [SupplyRead 1, UriRead 1 (Some ?u)] = Some w"
    by (simp add: page_eval js_eval)
  have d: "decode_token_uri ?u = Inr (JObj [(utf16 ''name'', JStr (utf16 ''X''))])"
    by (simp add: page_eval js_eval utf16_def code_unit_of_def)
  have "tokenURI w = Some ?u" using r by (auto simp: page_eval js_eval)
  from reachable_metadata_matches_uri [OF reach_run_init [OF r] this _ d] r show ?thesis by auto
qed

theorem render_connection_witness:
  "render (world_init False) = Inr PleaseConnect
   \<and> render (world_init True) = Inr (MintPage
          [Card ''Tier 0'' ''/nfts/0_basic.svg'' ''0.01'' False,
           Card ''Tier 1'' ''/nfts/1_medium.svg'' ''0.02'' False,
           Card ''Tier 2'' ''/nfts/2_premium.svg'' ''0.05'' False] None)"
  using render_connection [of "world_init False"] render_connection [of "world_init True"]
  by (simp add: world_init_def world0_def page_init_def connection_effect_def token_uri_effect_def)

theorem close_modal_returns_idle_witness:
  "\<exists>w w'. run (world_init True) [ClickMint Tier0, WriteResolved ''0xc3'', WaitResolved ''0xc3''] = Some w
     \<and> step w CloseModal = Some w' \<and> render w' = Inr (MintPage (map (render_card w) tiers) None)"
proof -
  obtain w where r: "run (world_init True) [ClickMint Tier0, WriteResolved ''0xc3'', WaitResolved ''0xc3''] = Some w"
    by (simp add: page_eval js_eval)
  obtain w' where s: "step w CloseModal = Some w'"
    using r by (auto simp: page_eval js_eval utf16_def)
  from close_modal_returns_idle [OF s] r s show ?thesis by blast
qed

theorem null_metadata_crashes_modal_witness:
  "\<exists>w. run (world_init True) [SupplyRead 1, UriRead 1 (Some ''data:,bnVsbA==''), ClickMint Tier0,
        WriteResolved ''0xd4'', WaitResolved ''0xd4''] = Some w
     \<and> render w = Inl (TypeError ''Cannot read properties of null'')"
proof -
  obtain w where r: "run (world_init True) [SupplyRead 1, UriRead 1 (Some ''data:,bnVsbA==''), ClickMint Tier0,
        WriteResolved ''0xd4'', WaitResolved ''0xd4''] = Some w"
    by (simp add: page_eval js_eval)
  have "isUserConnected (ui w)" "modalShow (ui w)" "\<not> isMinting (ui w)" "latestNFTMinted (ui w) = JNull"
    using r by (auto simp: page_eval js_eval)
  from null_metadata_crashes_modal [OF this] r show ?thesis by blast
qed

theorem object_name_crashes_modal_witness:
  "\<exists>w. run (world_init True) [SupplyRead 1, UriRead 1 (Some ''data:,eyJuYW1lIjp7fX0=''), ClickMint Tier0,
        WriteResolved ''0xd4'', WaitResolved ''0xd4''] = Some w
     \<and> render w = Inl invalid_child"
proof -
  obtain w where r: "run (world_init True) [SupplyRead 1, UriRead 1 (Some ''data:,eyJuYW1lIjp7fX0=''),
        ClickMint Tier0, WriteResolved ''0xd4'', WaitResolved ''0xd4''] = Some w"
    by (simp add: page_eval js_eval utf16_def code_unit_of_def)
  have "isUserConnected (ui w)" "modalShow (ui w)" "\<not> isMinting (ui w)" "mintData w = Some ''0xd4''"
    "get_field (latestNFTMinted (ui w)) (utf16 ''name'') = Inr (Some (JObj []))" "\<not> react_child (JObj [])"
    using r by (auto simp: page_eval js_eval utf16_def code_unit_of_def)
  from object_name_crashes_modal [OF this] r show ?thesis by blast
qed

theorem seq_render_safe_witness:
  "\<exists>w e. seq_run (world_init True) [SupplyRead 1, UriRead 1 (Some ''data:,bnVsbA==''), ClickMint Tier2,
        WriteResolved ''0xe5'', WaitResolved ''0xe5''] = Some w
     \<and> render w = Inl e \<and> e = TypeError ''Cannot read properties of null''"
proof -
  obtain w where r: "seq_run (world_init True) [SupplyRead 1, UriRead 1 (Some ''data:,bnVsbA==''), ClickMint Tier2,
        WriteResolved ''0xe5'', WaitResolved ''0xe5''] = Some w"
    by (simp add: page_eval js_eval)
  obtain e where e: "render w = Inl e"
    using r by (auto simp: page_eval js_eval)
  have m: "latestNFTMinted (ui w) = JNull" using r by (auto simp: page_eval js_eval)
  from seq_render_safe [OF reach_seq_run [OF reach_seq.init r] e] m
  have "e = TypeError ''Cannot read properties of null''" by simp
  with r e show ?thesis by blast
qed

theorem uri_decode_error_keeps_metadata_witness:
  "step (supply_read 1 (world_init True)) (UriRead 1 (Some ''data:,@@@''))
     = Some ((supply_read 1 (world_init True))\<lparr>uri_cache := (\<lambda>n. None)(1 := Some ''data:,@@@''),
         tokenURI := Some ''data:,@@@'', console := [''Error fetching token URI'']\<rparr>)"
proof -
  have "tokenData (supply_read 1 (world_init True)) = Some 1"
    "tokenURI (supply_read 1 (world_init True)) \<noteq> Some ''data:,@@@''" "''data:,@@@'' \<noteq> []"
    by (simp_all add: page_eval)
  moreover have "decode_token_uri ''data:,@@@'' = Inl InvalidCharacterError"
    by (simp add: page_eval js_eval)
  ultimately show ?thesis
    using uri_decode_error_keeps_metadata [of "supply_read 1 (world_init True)" 1 "''data:,@@@''" InvalidCharacterError]
    by (simp add: page_eval)
qed

theorem failed_mint_modal_stuck_witness:
  "\<exists>w w'. run (world_init True) [ClickMint Tier0, WriteRejected ''User rejected''] = Some w
     \<and> run w [SupplyRead 4, UriRead 4 None, AccountChanged False] = Some w'
     \<and> isMinting (ui w') \<and> render w' = Inr PleaseConnect"
proof -
  obtain w where r: "run (world_init True) [ClickMint Tier0, WriteRejected ''User rejected''] = Some w"
    by (simp add: page_eval js_eval)
  obtain w' where r': "run w [SupplyRead 4, UriRead 4 None, AccountChanged False] = Some w'"
    using r by (auto simp: page_eval js_eval)
  have "\<forall>e \<in> set [SupplyRead 4, UriRead 4 None, AccountChanged False]. \<not> is_click e"
    by (simp add: is_click_def)
  moreover have "pending w = {#}" "isMinting (ui w)" "modalShow (ui w)"
    using r by (auto simp: page_eval js_eval)
  ultimately have "isMinting (ui w')" and
    v: "render w' = Inr PleaseConnect \<or> render w' = Inr (MintPage (map (render_card w') tiers) (Some ModalMinting))"
    using failed_mint_modal_stuck [OF r'] by blast+
  moreover have "\<not> isUserConnected (ui w')" using r r' by (auto simp: page_eval js_eval)
  ultimately show ?thesis using r r' by (auto simp: render_def)
qed

end
