(* ===== verification/Styles.thy ===== *)
theory Styles
  imports Prelude
begin

text \<open>
  The inline style objects of \<open>src/my-app/pages/index.js\<close> (lines 183--262), which the
  JSX passes as \<open>style\<close> attributes. A JavaScript object literal whose values are all
  strings is an association list from property names to values, in the order of the
  source; a property read is \<^const>\<open>map_of\<close> (\<open>undefined\<close> is \<^const>\<open>None\<close>). The one
  behaviour that the page's logic depends on is that the modal's container is a
  fixed-position layer over the whole viewport, stacked above the static page content
  (\<open>zIndex\<close> positive), so that a pointer cannot reach the Mint buttons under it.
\<close>

type_synonym css = "(string \<times> string) list"

section \<open>The style objects\<close>

definition header :: css where
  "header = [(''display'', ''flex''), (''alignItems'', ''center''), (''justifyContent'', ''space-between'')]"

definition NFTFlex :: css where
  "NFTFlex = [(''display'', ''flex''), (''alignItems'', ''center''), (''justifyContent'', ''space-evenly''),
     (''gap'', ''50px'')]"

definition NFTCard :: css where
  "NFTCard = [(''display'', ''flex''), (''flexDirection'', ''column''), (''border'', ''2px solid white''),
     (''borderRadius'', ''10px''), (''padding'', ''20px''), (''alignItems'', ''center''), (''gap'', ''10px''),
     (''fontWeight'', ''bold'')]"

definition NFTMint :: css where
  "NFTMint = [(''fontWeight'', ''700''), (''padding'', ''5px 20px''), (''border'', ''2px solid white''),
     (''color'', ''white''), (''backgroundColor'', ''black''), (''borderRadius'', ''5px''),
     (''cursor'', ''pointer'')]"

text \<open>Lines 217--229, the object \<open>modal\<close> (renamed: \<open>modal\<close> is the type of the modal's
  content in \<open>Page\<close>).\<close>

definition modal_style :: css where
  "modal_style = [(''position'', ''fixed''), (''left'', ''0''), (''top'', ''0''), (''right'', ''0''),
     (''bottom'', ''0''), (''backgroundColor'', ''rgba(0, 0, 0, 0.8)''), (''display'', ''flex''),
     (''alignItems'', ''center''), (''justifyContent'', ''center''), (''textAlign'', ''center''),
     (''zIndex'', ''1'')]"

definition modalContent :: css where
  "modalContent = [(''backgroundColor'', ''#fff''), (''padding'', ''10px 30px''), (''borderRadius'', ''16px''),
     (''color'', ''#000'')]"

definition modalBody :: css where
  "modalBody = [(''padding'', ''20px''), (''borderTop'', ''1px solid #eee''), (''borderBottom'', ''1px solid #eee'')]"

definition modalFooter :: css where
  "modalFooter = [(''display'', ''flex''), (''flexDirection'', ''column''), (''gap'', ''10px''),
     (''padding'', ''20px''), (''justifyContent'', ''space-evenly'')]"

definition modalButton :: css where
  "modalButton = [(''padding'', ''10px 20px''), (''backgroundColor'', ''#fff''), (''color'', ''#666''),
     (''border'', ''0''), (''borderRadius'', ''10px''), (''fontSize'', ''18px''), (''fontWeight'', ''700''),
     (''boxShadow'', ''0 0.2em 0.4em 0 rgba(0, 0, 0, 0.2), 0 0.3em 1em 0 rgba(0, 0, 0, 0.19)''),
     (''cursor'', ''pointer'')]"

section \<open>Reading a style\<close>

text \<open>A box whose \<open>position\<close> is \<open>fixed\<close> and whose four insets are \<open>0\<close> occupies the
  whole viewport (CSS 2.1, 10.3.7 and 10.6.4).\<close>

definition covers_viewport :: "css \<Rightarrow> bool" where
  "covers_viewport s \<longleftrightarrow> map_of s ''position'' = Some ''fixed''
     \<and> (\<forall>k \<in> set [''left'', ''top'', ''right'', ''bottom'']. map_of s k = Some ''0'')"

text \<open>A positioned box with a positive integer \<open>z-index\<close> is painted, and hit-tested,
  above the non-positioned content of its stacking context (CSS 2.1, appendix E).\<close>

definition stacks_above_flow :: "css \<Rightarrow> bool" where
  "stacks_above_flow s \<longleftrightarrow>
     (case map_of s ''zIndex'' of
        None \<Rightarrow> False
      | Some z \<Rightarrow> z \<noteq> [] \<and> (\<forall>c \<in> set z. is_digit c) \<and> 0 < nat_of_digits z)"

definition blocks_pointer :: "css \<Rightarrow> bool" where
  "blocks_pointer s \<longleftrightarrow> covers_viewport s \<and> stacks_above_flow s"

lemmas style_defs = header_def NFTFlex_def NFTCard_def NFTMint_def modal_style_def modalContent_def
  modalBody_def modalFooter_def modalButton_def

section \<open>Lemmas\<close>

lemma modal_style_blocks_pointer: "blocks_pointer modal_style"
  by (simp add: blocks_pointer_def covers_viewport_def stacks_above_flow_def modal_style_def
      is_digit_def nat_of_digits_def digit_val_def)

lemma card_styles_static: "map_of NFTCard ''position'' = None" "map_of NFTMint ''position'' = None"
  "map_of NFTFlex ''position'' = None"
  by (simp_all add: style_defs)

end
