(* ===== verification/Pointer.thy ===== *)
theory Pointer
  imports Page Styles
begin

text \<open>
  Composition of the page's logic (\<open>Page\<close>) with its styles (\<open>Styles\<close>). The modal's
  container (line 144, \<open>style={modal}\<close>) is rendered whenever the page is connected and
  \<open>modalShow\<close> holds, and its style makes it a layer over the whole viewport above the
  static cards. A pointer click therefore reaches a Mint button only when no modal is
  shown; keyboard activation (Tab to the button, Enter) is not blocked by the layer,
  because the layer does not make the content under it inert. The events of a user who
  only uses the pointer are the steps of \<open>pointer_step\<close>; \<^const>\<open>step\<close> remains
  the model of all users.
\<close>

section \<open>Pointer interaction\<close>

text \<open>Line 143--144: the modal's container is in the tree exactly when the page is
  connected and \<open>modalShow\<close> is set.\<close>

definition modal_layer :: "world \<Rightarrow> css option" where
  "modal_layer w = (if isUserConnected (ui w) \<and> modalShow (ui w) then Some modal_style else None)"

definition pointer_blocked :: "world \<Rightarrow> bool" where
  "pointer_blocked w \<longleftrightarrow> (case modal_layer w of None \<Rightarrow> False | Some s \<Rightarrow> blocks_pointer s)"

definition pointer_step :: "world \<Rightarrow> event \<Rightarrow> world option" where
  "pointer_step w e = (case e of ClickMint t \<Rightarrow> if pointer_blocked w then None else step w e | _ \<Rightarrow> step w e)"

inductive reach_pointer :: "world \<Rightarrow> bool" where
  init: "reach_pointer (world_init b)"
| step: "reach_pointer w \<Longrightarrow> pointer_step w e = Some w' \<Longrightarrow> reach_pointer w'"

fun pointer_run :: "world \<Rightarrow> event list \<Rightarrow> world option" where
  "pointer_run w [] = Some w"
| "pointer_run w (e # es) = (case pointer_step w e of None \<Rightarrow> None | Some w' \<Rightarrow> pointer_run w' es)"

section \<open>Lemmas\<close>

lemma pointer_blocked_iff: "pointer_blocked w \<longleftrightarrow> modal_layer w \<noteq> None"
  using modal_style_blocks_pointer by (simp add: pointer_blocked_def modal_layer_def)

lemma pointer_step_step: "pointer_step w e = Some w' \<Longrightarrow> step w e = Some w'"
  by (auto simp: pointer_step_def split: event.splits if_splits)

lemma pointer_click_free:
  assumes "pointer_step w (ClickMint t) = Some w'"
  shows "modal_layer w = None \<and> isUserConnected (ui w)"
  using assms mint_enabled_D [of w] by (auto simp: pointer_step_def pointer_blocked_iff split: if_splits)

lemma layer_free_pending:
  assumes "reach_seq w" "isUserConnected (ui w)" "modal_layer w = None"
  shows "pending w = {#}"
proof -
  have "seq_inv w" using assms(1) by (rule reach_seq_inv)
  moreover have "page_inv w" using assms(1) by (intro reach_page_inv reach_seq_reach)
  ultimately show ?thesis using assms(2,3) by (auto simp: seq_inv_def page_inv_def modal_layer_def split: if_splits)
qed

lemma reach_pointer_seq: "reach_pointer w \<Longrightarrow> reach_seq w"
proof (induction rule: reach_pointer.induct)
  case (init b)
  show ?case by (rule reach_seq.init)
next
  case (step w e w')
  have c: "is_click e \<longrightarrow> pending w = {#}"
  proof
    assume "is_click e"
    then obtain t where "e = ClickMint t" by (auto simp: is_click_def split: event.splits)
    with step.hyps(2) have "modal_layer w = None" "isUserConnected (ui w)" by (auto dest: pointer_click_free)
    with step.IH show "pending w = {#}" by (intro layer_free_pending)
  qed
  from step.IH pointer_step_step [OF step.hyps(2)] c show ?case by (rule reach_seq.step)
qed

lemma reach_pointer_run: "reach_pointer w \<Longrightarrow> pointer_run w es = Some w' \<Longrightarrow> reach_pointer w'"
proof (induction es arbitrary: w)
  case Nil
  then show ?case by simp
next
  case (Cons e es)
  then obtain w1 where s: "pointer_step w e = Some w1" and r: "pointer_run w1 es = Some w'"
    by (auto split: option.splits)
  from Cons.prems(1) s have "reach_pointer w1" by (rule reach_pointer.step)
  from this r show ?case by (rule Cons.IH)
qed

lemmas pointer_eval = pointer_step_def pointer_blocked_iff modal_layer_def

section \<open>Properties\<close>

text \<open>C21: a user who only uses the pointer never starts a mint while an earlier call of
  \<open>mintToken\<close> is still pending: the modal's layer covers the Mint buttons from the
  press until the modal is closed.\<close>

theorem pointer_click_no_overlap:
  assumes "reach_pointer w" and "pointer_step w (ClickMint t) = Some w'"
  shows "pending w = {#} \<and> \<not> modalShow (ui w)"
proof -
  have free: "modal_layer w = None" "isUserConnected (ui w)" using assms(2) by (auto dest: pointer_click_free)
  then have idle: "\<not> modalShow (ui w)" by (simp add: modal_layer_def split: if_splits)
  have "reach_seq w" using assms(1) by (rule reach_pointer_seq)
  from this free(2,1) have "pending w = {#}" by (rule layer_free_pending)
  with idle show ?thesis by simp
qed

text \<open>C22: for a user who only uses the pointer, rendering throws only because of the
  metadata: \<open>null\<close> metadata, or a \<open>name\<close> that React cannot render.\<close>

theorem pointer_render_safe:
  assumes "reach_pointer w" and "render w = Inl e"
  shows "(latestNFTMinted (ui w) = JNull \<and> e = TypeError ''Cannot read properties of null'')
    \<or> (e = invalid_child \<and> (\<exists>nm. get_field (latestNFTMinted (ui w)) (utf16 ''name'') = Inr nm \<and> \<not> react_child_opt nm))"
  using reach_seq_inv [OF reach_pointer_seq [OF assms(1)]] assms(2) by (rule seq_inv_render)

section \<open>Witnesses\<close>

theorem pointer_click_no_overlap_witness:
  "\<exists>w'. pointer_step (world_init True) (ClickMint Tier0) = Some w' \<and> pending (world_init True) = {#}
     \<and> \<not> modalShow (ui (world_init True))"
proof -
  obtain w' where s: "pointer_step (world_init True) (ClickMint Tier0) = Some w'"
    by (simp add: pointer_eval page_eval js_eval)
  from pointer_click_no_overlap [OF reach_pointer.init s] s show ?thesis by blast
qed

theorem pointer_render_safe_witness:
  "\<exists>w e. pointer_run (world_init True) [SupplyRead 1, UriRead 1 (Some ''data:,eyJuYW1lIjp7fX0=''),
        ClickMint Tier2, WriteResolved ''0xe5'', WaitResolved ''0xe5''] = Some w
     \<and> render w = Inl e \<and> e = invalid_child"
proof -
  obtain w where r: "pointer_run (world_init True) [SupplyRead 1, UriRead 1 (Some ''data:,eyJuYW1lIjp7fX0=''),
        ClickMint Tier2, WriteResolved ''0xe5'', WaitResolved ''0xe5''] = Some w"
    by (simp add: pointer_eval page_eval js_eval utf16_def code_unit_of_def)
  obtain e where e: "render w = Inl e"
    using r by (auto simp: pointer_eval page_eval js_eval utf16_def code_unit_of_def react_child_opt_def)
  have m: "latestNFTMinted (ui w) = JObj [(utf16 ''name'', JObj [])]"
    using r by (auto simp: pointer_eval page_eval js_eval utf16_def code_unit_of_def)
  from pointer_render_safe [OF reach_pointer_run [OF reach_pointer.init r] e] m
  have "e = invalid_child" by auto
  with r e show ?thesis by blast
qed

end
