(* ===== verification/Refinement.thy ===== *)
theory Refinement
  imports Pointer
begin

text \<open>
  The state machine of the specification (section 4.1: disconnected, connected and idle,
  minting, minted, back to idle on close; section 4.1 and 7: a failure leaves the modal
  as it was) as an abstract event system, and the refinement mapping from the page's
  states and events onto it. The abstract state is the connection flag and the phase
  of the modal; the abstract events are a change of connection, a press of a Mint
  button, a confirmation, a press of Close, and a step that changes neither (reads of
  the contract, a resolved or failed write, a failed confirmation).
  Runs of a user who only uses the pointer (\<open>Pointer\<close>) refine the machine; a keyboard
  user can leave it.
\<close>

section \<open>The abstract machine\<close>

datatype phase = Idle | Minting | Minted

type_synonym abs_state = "bool \<times> phase"

datatype abs_event = Connect bool | Press | Confirm | Close | Skip

inductive spec_step :: "abs_state \<Rightarrow> abs_event \<Rightarrow> abs_state \<Rightarrow> bool" where
  connect: "spec_step (c, p) (Connect b) (b, p)"
| press: "spec_step (True, Idle) Press (True, Minting)"
| confirm: "spec_step (c, Minting) Confirm (c, Minted)"
| close: "spec_step (True, Minted) Close (True, Idle)"
| skip: "spec_step s Skip s"

inductive spec_trace :: "abs_state \<Rightarrow> abs_event list \<Rightarrow> abs_state \<Rightarrow> bool" where
  nil: "spec_trace s [] s"
| cons: "spec_step s a s1 \<Longrightarrow> spec_trace s1 as s' \<Longrightarrow> spec_trace s (a # as) s'"

inductive_simps spec_step_simps: "spec_step s a s'"
inductive_simps spec_trace_Nil: "spec_trace s [] s'"
inductive_simps spec_trace_Cons: "spec_trace s (a # as) s'"

section \<open>The refinement mapping\<close>

definition abs_of :: "world \<Rightarrow> abs_state" where
  "abs_of w = (isUserConnected (ui w),
     if \<not> modalShow (ui w) then Idle else if isMinting (ui w) then Minting else Minted)"

definition abs_event_of :: "event \<Rightarrow> abs_event" where
  "abs_event_of e = (case e of
       AccountChanged b \<Rightarrow> Connect b
     | ClickMint t \<Rightarrow> Press
     | WaitResolved h \<Rightarrow> Confirm
     | CloseModal \<Rightarrow> Close
     | _ \<Rightarrow> Skip)"

section \<open>Simulation\<close>

lemma abs_of_init: "abs_of (world_init b) = (b, Idle)"
  by (simp add: abs_of_def page_state_defs)

lemma reach_pointer_invs:
  assumes "reach_pointer w"
  shows "page_inv w" "seq_inv w"
  using reach_seq_inv [OF reach_pointer_seq [OF assms]]
    reach_page_inv [OF reach_seq_reach [OF reach_pointer_seq [OF assms]]] by simp_all

lemma skip_keeps_ui:
  assumes "step w e = Some w'" and "abs_event_of e = Skip"
  shows "isUserConnected (ui w') = isUserConnected (ui w) \<and> modalShow (ui w') = modalShow (ui w)
    \<and> isMinting (ui w') = isMinting (ui w)"
  using assms
  by (cases e) (auto simp: abs_event_of_def supply_read_def uri_read_def Let_def mint_write_resolved_def
      mint_write_rejected_def mint_wait_failed_def split: if_splits)

lemma pointer_step_sim:
  assumes r: "reach_pointer w" and s: "pointer_step w e = Some w'"
  shows "spec_step (abs_of w) (abs_event_of e) (abs_of w')"
proof -
  have inv: "page_inv w" "seq_inv w" using r by (rule reach_pointer_invs)+
  have st: "step w e = Some w'" using s by (rule pointer_step_step)
  show ?thesis
  proof (cases e)
    case (AccountChanged b)
    with st inv(1) have "isUserConnected (ui w') = b" "modalShow (ui w') = modalShow (ui w)"
      "isMinting (ui w') = isMinting (ui w)"
      by (auto simp: account_changed_def connection_effect_def page_inv_def split: if_splits)
    with AccountChanged show ?thesis by (simp add: abs_of_def abs_event_of_def spec_step.connect)
  next
    case (ClickMint t)
    with s have "modal_layer w = None \<and> isUserConnected (ui w)" by (auto dest: pointer_click_free)
    then have "\<not> modalShow (ui w) \<and> isUserConnected (ui w)" by (simp add: modal_layer_def split: if_splits)
    moreover from ClickMint st have "w' = mint_start (tier_value t) w" by (simp split: if_splits)
    ultimately show ?thesis using ClickMint
      by (auto simp: abs_of_def abs_event_of_def mint_start_def Let_def spec_step.press split: sum.splits)
  next
    case (WaitResolved h)
    with st have p: "AwaitWait h \<in># pending w" and w': "w' = mint_confirmed h w" by (simp_all split: if_splits)
    from p inv have "isMinting (ui w)" "modalShow (ui w)"
      by (auto simp: seq_inv_def page_inv_def)
    with w' WaitResolved show ?thesis
      by (auto simp: abs_of_def abs_event_of_def mint_confirmed_def intro: spec_step.confirm)
  next
    case CloseModal
    with st have "close_enabled w" and w': "w' = close_modal w" by (simp_all split: if_splits)
    then have "isUserConnected (ui w) \<and> modalShow (ui w) \<and> \<not> isMinting (ui w)" by (simp add: close_enabled_D)
    with w' CloseModal show ?thesis
      by (auto simp: abs_of_def abs_event_of_def close_modal_def spec_step.close)
  qed (use skip_keeps_ui [OF st] in \<open>simp_all add: abs_of_def abs_event_of_def spec_step.skip\<close>)
qed

lemma pointer_run_sim:
  "reach_pointer w \<Longrightarrow> pointer_run w es = Some w' \<Longrightarrow> spec_trace (abs_of w) (map abs_event_of es) (abs_of w')"
proof (induction es arbitrary: w)
  case Nil
  then show ?case by (simp add: spec_trace.nil)
next
  case (Cons e es)
  then obtain w1 where s: "pointer_step w e = Some w1" and r: "pointer_run w1 es = Some w'"
    by (auto split: option.splits)
  have "spec_step (abs_of w) (abs_event_of e) (abs_of w1)" using Cons.prems(1) s by (rule pointer_step_sim)
  moreover have "spec_trace (abs_of w1) (map abs_event_of es) (abs_of w')"
    using reach_pointer.step [OF Cons.prems(1) s] r by (rule Cons.IH)
  ultimately show ?case by (simp add: spec_trace.cons)
qed

section \<open>Properties\<close>

text \<open>C23: every run of a user who only uses the pointer, mapped event by event, is a
  run of the specification's state machine from the connected-or-not idle state:
  the page refines the machine of section 4.1.\<close>

theorem pointer_runs_refine_spec:
  assumes "pointer_run (world_init b) es = Some w"
  shows "spec_trace (b, Idle) (map abs_event_of es) (abs_of w)"
  using pointer_run_sim [OF reach_pointer.init assms] by (simp only: abs_of_init)

text \<open>C24: with the keyboard, a Mint button under the success modal can be pressed, and
  the page goes from ``minted'' back to ``minting'', which the machine of the
  specification does not allow.\<close>

theorem keyboard_run_leaves_spec:
  "\<exists>w. run (world_init True) [ClickMint Tier0, WriteResolved ''0xa1'', WaitResolved ''0xa1'', ClickMint Tier1]
        = Some w
     \<and> abs_of w = (True, Minting)
     \<and> \<not> spec_trace (True, Idle) (map abs_event_of [ClickMint Tier0, WriteResolved ''0xa1'', WaitResolved ''0xa1'', ClickMint Tier1]) (abs_of w)"
proof -
  obtain w where r: "run (world_init True)
      [ClickMint Tier0, WriteResolved ''0xa1'', WaitResolved ''0xa1'', ClickMint Tier1] = Some w"
    by (simp add: page_eval js_eval)
  moreover have a: "abs_of w = (True, Minting)"
    using r by (auto simp: page_eval js_eval abs_of_def)
  moreover have "\<not> spec_trace (True, Idle) [Press, Skip, Confirm, Press] (True, Minting)"
    by (simp add: spec_trace_Cons spec_trace_Nil spec_step_simps)
  ultimately show ?thesis by (simp add: abs_event_of_def)
qed

section \<open>Witnesses\<close>

theorem pointer_runs_refine_spec_witness:
  "\<exists>w. pointer_run (world_init True) [ClickMint Tier0, WriteResolved ''0xa1'', WaitResolved ''0xa1'', CloseModal]
        = Some w
     \<and> spec_trace (True, Idle) [Press, Skip, Confirm, Close] (abs_of w) \<and> abs_of w = (True, Idle)"
proof -
  obtain w where r: "pointer_run (world_init True)
      [ClickMint Tier0, WriteResolved ''0xa1'', WaitResolved ''0xa1'', CloseModal] = Some w"
    by (simp add: pointer_eval page_eval js_eval utf16_def)
  have "abs_of w = (True, Idle)" using r by (auto simp: pointer_eval page_eval js_eval abs_of_def utf16_def)
  with pointer_runs_refine_spec [OF r] r show ?thesis by (simp add: abs_event_of_def)
qed

end
