(* ===== verification/JsonPrint.thy ===== *)
theory JsonPrint
  imports Json
begin

text \<open>
  A printer for JSON values, the reference against which \<open>JSON.parse\<close> (\<open>Json\<close>) is
  checked: \<open>json_parse\<close> inverts \<open>json_print\<close> on every well-formed
  value, and every value \<open>json_parse\<close> returns is well-formed. A value is
  well-formed (\<open>wf_json\<close>) when its numbers are in the normal form the parser
  produces (\<open>JNum m e\<close> with \<open>m\<close> not a multiple of ten, and \<open>JNum 0 0\<close> for zero);
  strings are arbitrary sequences of code units. The printer writes code units outside
  printable ASCII as \<open>\uXXXX\<close>, so its output is ASCII and can be base64-encoded as
  the token URIs of the contract are.

  The round trip is proved for the pushdown parser with the stack and the text after
  the value generalised (\<open>parse_print\<close>); well-formedness of results by induction
  on the length of the input, with the parser kept folded in the simplifier.
\<close>

section \<open>Definitions\<close>

definition hex_digit :: "nat \<Rightarrow> char" where
  "hex_digit d = (if d < 10 then char_of (48 + d) else char_of (87 + d))"

definition print_unit :: "code_unit \<Rightarrow> string" where
  "print_unit u = (let n = unat u in
     if n = 34 then [CHR 0x5C, CHR 0x22]
     else if n = 92 then [CHR 0x5C, CHR 0x5C]
     else if 32 \<le> n \<and> n < 127 then [char_of n]
     else [CHR 0x5C, CHR ''u'', hex_digit (n div 4096), hex_digit (n div 256 mod 16),
           hex_digit (n div 16 mod 16), hex_digit (n mod 16)])"

definition print_str :: "jstr \<Rightarrow> string" where
  "print_str u = CHR 0x22 # concat (map print_unit u) @ [CHR 0x22]"

definition print_num :: "int \<Rightarrow> int \<Rightarrow> string" where
  "print_num m e = (if m < 0 then ''-'' else []) @ dec_digits (nat \<bar>m\<bar>)
     @ (if e = 0 then [] else CHR ''e'' # (if e < 0 then ''-'' else []) @ dec_digits (nat \<bar>e\<bar>))"

fun print_seq :: "string list \<Rightarrow> string" where
  "print_seq [] = []"
| "print_seq (s # ss) = s @ concat (map (\<lambda>t. CHR '','' # t) ss)"

fun json_print :: "jsval \<Rightarrow> string" where
  "json_print JNull = ''null''"
| "json_print (JBool b) = (if b then ''true'' else ''false'')"
| "json_print (JNum m e) = print_num m e"
| "json_print (JStr u) = print_str u"
| "json_print (JArr vs) = CHR ''['' # print_seq (map json_print vs) @ '']''"
| "json_print (JObj kvs) = CHR ''{'' # print_seq (map (\<lambda>(k, v). print_str k @ CHR '':'' # json_print v) kvs) @ ''}''"

fun wf_json :: "jsval \<Rightarrow> bool" where
  "wf_json (JNum m e) \<longleftrightarrow> (if m = 0 then e = 0 else \<not> 10 dvd m)"
| "wf_json (JArr vs) \<longleftrightarrow> (\<forall>v \<in> set vs. wf_json v)"
| "wf_json (JObj kvs) \<longleftrightarrow> (\<forall>kv \<in> set kvs. wf_json (snd kv))"
| "wf_json _ \<longleftrightarrow> True"

definition json_delim :: "string \<Rightarrow> bool" where
  "json_delim r \<longleftrightarrow> (case r of [] \<Rightarrow> True | c # _ \<Rightarrow> c = CHR '','' \<or> c = CHR '']'' \<or> c = CHR ''}'')"

definition print_member :: "jstr \<times> jsval \<Rightarrow> string" where
  "print_member kv = print_str (fst kv) @ CHR '':'' # json_print (snd kv)"

fun frame_wf :: "frame \<Rightarrow> bool" where
  "frame_wf (FArr acc) \<longleftrightarrow> (\<forall>v \<in> set acc. wf_json v)"
| "frame_wf (FObj acc k) \<longleftrightarrow> (\<forall>kv \<in> set acc. wf_json (snd kv))"

section \<open>Strings\<close>

lemma hex_val_hex_digit [simp]: "d < 16 \<Longrightarrow> hex_val (hex_digit d) = Some d"
  by (auto simp: hex_val_def hex_digit_def Let_def)

lemma unat_code_unit_bound: "unat (u :: code_unit) < 65536"
  using unsigned_less [of u] by simp

lemma hex4_print:
  assumes "n < 65536"
  shows "hex4 (hex_digit (n div 4096)) (hex_digit (n div 256 mod 16)) (hex_digit (n div 16 mod 16))
      (hex_digit (n mod 16)) = Some n"
proof -
  have "n div 4096 < 16" using assms by simp
  moreover have d1: "n div 256 div 16 = n div 4096" by (simp add: div_mult2_eq [symmetric])
  moreover have d2: "n div 16 div 16 = n div 256" by (simp add: div_mult2_eq [symmetric])
  moreover have a: "n div 256 = n div 4096 * 16 + n div 256 mod 16"
    using div_mult_mod_eq [of "n div 256" 16] d1 by simp
  moreover have b: "n div 16 = n div 256 * 16 + n div 16 mod 16"
    using div_mult_mod_eq [of "n div 16" 16] d2 by simp
  moreover have c: "n = n div 16 * 16 + n mod 16" by simp
  ultimately show ?thesis by (simp add: hex4_def)
qed

lemma parse_str_print_unit:
  "parse_str acc (print_unit u @ s) = parse_str (acc @ [u]) s"
proof -
  let ?n = "unat u"
  have u: "u = of_nat ?n" by simp
  consider "?n = 34" | "?n = 92" | "?n \<noteq> 34" "?n \<noteq> 92" "32 \<le> ?n" "?n < 127"
    | "?n \<noteq> 34" "?n \<noteq> 92" "\<not> (32 \<le> ?n \<and> ?n < 127)" by linarith
  then show ?thesis
  proof cases
    case 1
    then have "u = 34" by (metis u of_nat_numeral)
    with 1 show ?thesis by (simp add: print_unit_def escape_unit_def)
  next
    case 2
    then have "u = 92" by (metis u of_nat_numeral)
    with 2 show ?thesis by (simp add: print_unit_def escape_unit_def)
  next
    case 3
    then have c: "of_char (char_of ?n :: char) = ?n" by (simp add: of_char_of)
    have "code_unit_of (char_of ?n) = u" using 3 by (simp add: code_unit_of_def c)
    with 3 c show ?thesis by (auto simp: print_unit_def Let_def)
  next
    case 4
    have h: "hex4 (hex_digit (?n div 4096)) (hex_digit (?n div 256 mod 16)) (hex_digit (?n div 16 mod 16))
      (hex_digit (?n mod 16)) = Some ?n" by (rule hex4_print [OF unat_code_unit_bound])
    have "print_unit u = [CHR 0x5C, CHR ''u'', hex_digit (?n div 4096), hex_digit (?n div 256 mod 16),
        hex_digit (?n div 16 mod 16), hex_digit (?n mod 16)]"
      unfolding print_unit_def Let_def using 4 by (simp only: if_False)
    with h show ?thesis by simp
  qed
qed

lemma parse_str_print:
  "parse_str acc (concat (map print_unit u) @ CHR 0x22 # rest) = Some (acc @ u, rest)"
  by (induction u arbitrary: acc) (simp_all add: parse_str_print_unit [where s = "_ @ _", simplified])

section \<open>Numbers\<close>

lemma dec_digits_hd: "dec_digits n = c # r \<Longrightarrow> c = CHR ''0'' \<Longrightarrow> n = 0"
proof (induction n arbitrary: c r rule: dec_digits.induct)
  case (1 n)
  show ?case
  proof (cases "n < 10")
    case True
    with "1.prems"(1) have "digit_char n = c" by (subst (asm) dec_digits.simps) simp
    then have "digit_val c = n" using True by auto
    with "1.prems"(2) show ?thesis by (simp add: digit_val_def)
  next
    case False
    obtain c' r' where d: "dec_digits (n div 10) = c' # r'" by (cases "dec_digits (n div 10)") simp_all
    with False "1.prems"(1) have "c = c'" by (subst (asm) dec_digits.simps) simp
    with "1.IH" [OF False d] "1.prems"(2) False show ?thesis by simp
  qed
qed

lemma not_digit_delim: "json_delim r \<Longrightarrow> r = c # r' \<Longrightarrow> \<not> is_digit c \<and> c \<noteq> CHR ''.'' \<and> c \<noteq> CHR ''e'' \<and> c \<noteq> CHR ''E''"
  by (auto simp: json_delim_def is_digit_def)

lemma takeWhile_digits: "\<forall>c \<in> set ds. is_digit c \<Longrightarrow> (\<forall>c r'. r = c # r' \<longrightarrow> \<not> is_digit c)
  \<Longrightarrow> takeWhile is_digit (ds @ r) = ds \<and> dropWhile is_digit (ds @ r) = r"
  by (cases r) (auto simp: takeWhile_append2 dropWhile_append2)

lemma norm_dec_wf: "\<not> 10 dvd n \<Longrightarrow> n \<noteq> 0 \<Longrightarrow> norm_dec n e = (n, e)"
  by (subst norm_dec.simps) (simp add: dvd_eq_mod_eq_0)

lemma parse_exp_print:
  assumes "json_delim rest"
  shows "parse_exp ((if e = 0 then [] else CHR ''e'' # (if e < 0 then ''-'' else []) @ dec_digits (nat \<bar>e\<bar>)) @ rest)
    = Some (e, rest)"
proof (cases "e = 0")
  case True
  with assms show ?thesis by (cases rest) (auto simp: parse_exp_def json_delim_def)
next
  case False
  have nd: "\<forall>c r'. rest = c # r' \<longrightarrow> \<not> is_digit c" using not_digit_delim [OF assms] by blast
  note tw = takeWhile_digits [OF dec_digits_all_digits nd, of "nat \<bar>e\<bar>"]
  obtain c r where d: "dec_digits (nat \<bar>e\<bar>) = c # r" by (cases "dec_digits (nat \<bar>e\<bar>)") simp_all
  have "is_digit c" using dec_digits_all_digits [of "nat \<bar>e\<bar>"] d by simp
  then have "c \<noteq> CHR ''-''" "c \<noteq> CHR ''+''" by (auto simp: is_digit_def)
  moreover have "int (nat_of_digits (c # r)) = \<bar>e\<bar>" using nat_of_dec_digits [of "nat \<bar>e\<bar>"] d by simp
  ultimately show ?thesis using False tw d by (auto simp: parse_exp_def exp_sign_def)
qed

lemma parse_int_digits_dec:
  assumes "\<forall>c r'. t = c # r' \<longrightarrow> \<not> is_digit c"
  shows "parse_int_digits (dec_digits n @ t) = Some (dec_digits n, t)"
proof -
  obtain c r where d: "dec_digits n = c # r" by (cases "dec_digits n") simp_all
  have ds: "\<forall>x \<in> set (c # r). is_digit x" using dec_digits_all_digits [of n] d by simp
  show ?thesis
  proof (cases "c = CHR ''0''")
    case True
    with d have "n = 0" by (rule dec_digits_hd)
    with d have "r = []" by (simp add: dec_digits.simps)
    with d True have "dec_digits n = ''0''" by simp
    then show ?thesis by (simp add: parse_int_digits_def)
  next
    case False
    have "takeWhile is_digit (r @ t) = r \<and> dropWhile is_digit (r @ t) = t"
      using ds by (intro takeWhile_digits [OF _ assms]) simp
    with False ds d show ?thesis by (simp add: parse_int_digits_def)
  qed
qed

lemma mk_num_wf:
  assumes "wf_json (JNum m e)"
  shows "mk_num (m < 0) (nat \<bar>m\<bar>) e = JNum m e"
proof (cases "m = 0")
  case True
  with assms show ?thesis by (simp add: mk_num_def norm_dec.simps)
next
  case False
  with assms have "\<not> 10 dvd nat \<bar>m\<bar>" "nat \<bar>m\<bar> \<noteq> 0"
    by (simp_all add: dvd_nat_abs_iff [symmetric] nat_dvd_iff)
  then have "norm_dec (nat \<bar>m\<bar>) e = (nat \<bar>m\<bar>, e)" by (rule norm_dec_wf)
  then show ?thesis by (simp add: mk_num_def)
qed

lemma parse_number_print:
  assumes wf: "wf_json (JNum m e)" and d: "json_delim rest"
  shows "parse_number (print_num m e @ rest) = Some (JNum m e, rest)"
proof -
  let ?x = "(if e = 0 then [] else CHR ''e'' # (if e < 0 then ''-'' else []) @ dec_digits (nat \<bar>e\<bar>)) @ rest"
  have nd: "\<forall>c r'. ?x = c # r' \<longrightarrow> \<not> is_digit c \<and> c \<noteq> CHR ''.''"
    using not_digit_delim [OF d] by (auto simp: is_digit_def)
  obtain c r where dd: "dec_digits (nat \<bar>m\<bar>) = c # r" by (cases "dec_digits (nat \<bar>m\<bar>)") simp_all
  have "is_digit c" using dec_digits_all_digits [of "nat \<bar>m\<bar>"] dd by simp
  then have "c \<noteq> CHR ''-''" by (auto simp: is_digit_def)
  then have sg: "parse_sign (print_num m e @ rest) = (m < 0, dec_digits (nat \<bar>m\<bar>) @ ?x)"
    using dd by (simp add: print_num_def parse_sign_def)
  have ip: "parse_int_digits (dec_digits (nat \<bar>m\<bar>) @ ?x) = Some (dec_digits (nat \<bar>m\<bar>), ?x)"
    using nd by (intro parse_int_digits_dec) blast
  have fr: "parse_frac ?x = Some ([], ?x)"
    using nd by (cases ?x) (auto simp: parse_frac_def)
  have ex: "parse_exp ?x = Some (e, rest)" using d by (rule parse_exp_print)
  show ?thesis using sg ip fr ex mk_num_wf [OF wf] by (simp add: parse_number_def)
qed

section \<open>Arrays and objects\<close>

lemma skip_ws_nonws: "\<not> json_ws c \<Longrightarrow> skip_ws (c # s) = c # s"
  by (simp add: skip_ws_def)

lemma print_num_Cons: "\<exists>c r. print_num m e = c # r \<and> (c = CHR ''-'' \<or> is_digit c)"
proof -
  obtain c r where d: "dec_digits (nat \<bar>m\<bar>) = c # r" by (cases "dec_digits (nat \<bar>m\<bar>)") simp_all
  have "is_digit c" using dec_digits_all_digits [of "nat \<bar>m\<bar>"] d by simp
  with d show ?thesis by (auto simp: print_num_def)
qed

lemma digit_not_ws: "is_digit c \<Longrightarrow> \<not> json_ws c"
  by (auto simp: is_digit_def json_ws_def)

lemma digit_not_open: "is_digit c \<Longrightarrow> c \<noteq> CHR ''{'' \<and> c \<noteq> CHR ''['' \<and> c \<noteq> CHR 0x22"
  by (auto simp: is_digit_def)

lemma parse_key_print: "parse_key (concat (map print_unit k) @ CHR 0x22 # CHR '':'' # s) = Some (k, s)"
  by (simp add: parse_key_def parse_str_print skip_ws_def json_ws_def)

lemma delim_simps [simp]: "json_delim [] " "json_delim (CHR '','' # s)" "json_delim (CHR '']'' # s)"
  "json_delim (CHR ''}'' # s)"
  by (simp_all add: json_delim_def)

lemma json_print_JObj: "json_print (JObj kvs) = CHR ''{'' # print_seq (map print_member kvs) @ ''}''"
  by (simp add: print_member_def [abs_def] case_prod_beta')

lemma parse_elems_arr:
  assumes "\<forall>x \<in> set (v # vs). \<forall>st rest. json_delim rest \<longrightarrow> parse_value st (json_print x @ rest) = close_value st x rest"
  shows "parse_value (FArr acc # st) (print_seq (map json_print (v # vs)) @ CHR '']'' # rest)
    = close_value st (JArr (acc @ v # vs)) rest"
  using assms
proof (induction vs arbitrary: acc v)
  case Nil
  then have "parse_value (FArr acc # st) (json_print v @ CHR '']'' # rest) = close_value (FArr acc # st) v (CHR '']'' # rest)"
    by simp
  then show ?case by (simp add: skip_ws_def json_ws_def)
next
  case (Cons y ys)
  let ?X = "print_seq (map json_print (y # ys)) @ CHR '']'' # rest"
  have "parse_value (FArr acc # st) (json_print v @ CHR '','' # ?X) = close_value (FArr acc # st) v (CHR '','' # ?X)"
    using Cons.prems by simp
  also have "\<dots> = parse_value (FArr (acc @ [v]) # st) ?X" by (simp add: skip_ws_def json_ws_def)
  also have "\<dots> = close_value st (JArr ((acc @ [v]) @ y # ys)) rest" using Cons.prems by (intro Cons.IH) simp
  finally show ?case by simp
qed

lemma parse_elems_obj:
  assumes "\<forall>kv \<in> set ((k, v) # kvs). \<forall>st rest. json_delim rest \<longrightarrow>
      parse_value st (json_print (snd kv) @ rest) = close_value st (snd kv) rest"
  shows "parse_value (FObj acc k # st) (json_print v @ concat (map (\<lambda>t. CHR '','' # t) (map print_member kvs)) @ CHR ''}'' # rest)
    = close_value st (JObj (acc @ (k, v) # kvs)) rest"
  using assms
proof (induction kvs arbitrary: acc k v)
  case Nil
  then have "parse_value (FObj acc k # st) (json_print v @ CHR ''}'' # rest) = close_value (FObj acc k # st) v (CHR ''}'' # rest)"
    by simp
  then show ?case by (simp add: skip_ws_def json_ws_def)
next
  case (Cons kv2 kvs')
  obtain k2 v2 where kv2: "kv2 = (k2, v2)" by (cases kv2)
  let ?M = "concat (map (\<lambda>t. CHR '','' # t) (map print_member kvs')) @ CHR ''}'' # rest"
  let ?X = "CHR 0x22 # concat (map print_unit k2) @ CHR 0x22 # CHR '':'' # json_print v2 @ ?M"
  have hv: "\<forall>st rest. json_delim rest \<longrightarrow> parse_value st (json_print v @ rest) = close_value st v rest"
    using Cons.prems by simp
  have "parse_value (FObj acc k # st) (json_print v @ CHR '','' # ?X) = close_value (FObj acc k # st) v (CHR '','' # ?X)"
    by (rule hv [rule_format]) simp
  also have "\<dots> = parse_value (FObj (acc @ [(k, v)]) k2 # st) (json_print v2 @ ?M)"
    by (simp add: skip_ws_def json_ws_def parse_key_print [unfolded skip_ws_def json_ws_def])
  also have "\<dots> = close_value st (JObj ((acc @ [(k, v)]) @ (k2, v2) # kvs')) rest"
    using Cons.prems kv2 by (intro Cons.IH) simp
  finally have calc: "parse_value (FObj acc k # st) (json_print v @ CHR '','' # ?X)
      = close_value st (JObj (acc @ (k, v) # kv2 # kvs')) rest" by (simp add: kv2)
  have eq: "concat (map (\<lambda>t. CHR '','' # t) (map print_member (kv2 # kvs'))) @ CHR ''}'' # rest = CHR '','' # ?X"
    by (simp add: kv2 print_member_def print_str_def)
  show ?case unfolding eq by (rule calc)
qed

section \<open>The round trip\<close>

lemma json_print_Cons: "\<exists>c r. json_print v = c # r \<and> \<not> json_ws c \<and> c \<noteq> CHR '']'' \<and> c \<noteq> CHR ''}''"
proof (cases v)
  case (JNum m e)
  obtain c r where p: "print_num m e = c # r" and c: "c = CHR ''-'' \<or> is_digit c"
    using print_num_Cons by blast
  have "\<not> json_ws c \<and> c \<noteq> CHR '']'' \<and> c \<noteq> CHR ''}''"
    using c digit_not_ws by (auto simp: json_ws_def is_digit_def)
  with JNum p show ?thesis by simp
qed (simp_all add: json_ws_def print_str_def)

lemma print_member_pair:
  "print_member (k, v) = CHR 0x22 # concat (map print_unit k) @ CHR 0x22 # CHR '':'' # json_print v"
  by (simp add: print_member_def print_str_def)

lemma parse_print:
  "wf_json v \<Longrightarrow> json_delim rest \<Longrightarrow> parse_value st (json_print v @ rest) = close_value st v rest"
proof (induction v arbitrary: st rest)
  case JNull
  then show ?case by (simp add: skip_ws_def json_ws_def is_digit_def)
next
  case (JBool b)
  then show ?case by (simp add: skip_ws_def json_ws_def is_digit_def)
next
  case (JNum m e)
  obtain c r where p: "print_num m e = c # r" and c: "c = CHR ''-'' \<or> is_digit c"
    using print_num_Cons by blast
  have "\<not> json_ws c" "c \<noteq> CHR ''{''" "c \<noteq> CHR ''[''" "c \<noteq> CHR 0x22"
    using c digit_not_ws digit_not_open by (auto simp: json_ws_def)
  moreover have "parse_number (c # r @ rest) = Some (JNum m e, rest)"
    using parse_number_print [OF JNum.prems] p by simp
  ultimately show ?case using p c by (simp add: skip_ws_nonws)
next
  case (JStr u)
  then show ?case by (simp add: print_str_def skip_ws_def json_ws_def parse_str_print)
next
  case (JArr vs)
  show ?case
  proof (cases vs)
    case Nil
    then show ?thesis by (simp add: skip_ws_def json_ws_def)
  next
    case (Cons x xs)
    have h: "\<forall>y \<in> set (x # xs). \<forall>st rest. json_delim rest \<longrightarrow> parse_value st (json_print y @ rest) = close_value st y rest"
      using JArr.IH JArr.prems(1) Cons by simp
    obtain c r where p: "json_print x = c # r" and c: "\<not> json_ws c" "c \<noteq> CHR '']''"
      using json_print_Cons [of x] by blast
    have "parse_value (FArr [] # st) (print_seq (map json_print (x # xs)) @ CHR '']'' # rest)
        = close_value st (JArr ([] @ x # xs)) rest" using h by (rule parse_elems_arr)
    with Cons p c show ?thesis by (simp add: skip_ws_def json_ws_def)
  qed
next
  case (JObj kvs)
  show ?case
  proof (cases kvs)
    case Nil
    then show ?thesis by (simp add: skip_ws_def json_ws_def)
  next
    case (Cons kv kvs')
    obtain k v where kv: "kv = (k, v)" by (cases kv)
    have h: "\<forall>kv \<in> set ((k, v) # kvs'). \<forall>st rest. json_delim rest \<longrightarrow>
        parse_value st (json_print (snd kv) @ rest) = close_value st (snd kv) rest"
      using JObj.IH JObj.prems(1) Cons kv by fastforce
    let ?M = "concat (map (\<lambda>t. CHR '','' # t) (map print_member kvs')) @ CHR ''}'' # rest"
    have j: "json_print (JObj kvs) @ rest
        = CHR ''{'' # CHR 0x22 # concat (map print_unit k) @ CHR 0x22 # CHR '':'' # json_print v @ ?M"
      by (simp add: Cons kv json_print_JObj print_member_pair del: json_print.simps)
    have "parse_value st (json_print (JObj kvs) @ rest) = parse_value (FObj [] k # st) (json_print v @ ?M)"
      unfolding j by (subst parse_value.simps) (simp add: skip_ws_def json_ws_def parse_key_print del: parse_value.simps)
    also have "\<dots> = close_value st (JObj ([] @ (k, v) # kvs')) rest" using h by (rule parse_elems_obj)
    finally show ?thesis using Cons kv by simp
  qed
qed

section \<open>Well-formedness of parsed values\<close>

lemma norm_dec_wf_result: "norm_dec n e = (m, k) \<Longrightarrow> (m = 0 \<longrightarrow> k = 0) \<and> (m \<noteq> 0 \<longrightarrow> \<not> 10 dvd m)"
proof (induction n e arbitrary: m k rule: norm_dec.induct)
  case (1 n e)
  then show ?case by (subst (asm) (2) norm_dec.simps) (auto simp: dvd_eq_mod_eq_0 split: if_splits)
qed

lemma mk_num_wf_result: "wf_json (mk_num neg n e)"
proof -
  obtain m k where nd: "norm_dec n e = (m, k)" by (cases "norm_dec n e")
  from norm_dec_wf_result [OF nd] show ?thesis
    by (auto simp: mk_num_def nd int_dvd_int_iff [of 10, simplified])
qed

lemma parse_number_wf: "parse_number s = Some (v, r) \<Longrightarrow> wf_json v"
  by (auto simp: parse_number_def mk_num_wf_result split: prod.splits option.splits)

lemma parse_value_cases:
  assumes "parse_value st s = Inr v"
  shows "(\<exists>k r. length r < length s \<and> parse_value (FObj [] k # st) r = Inr v)
    \<or> (\<exists>r. length r < length s \<and> parse_value (FArr [] # st) r = Inr v)
    \<or> (\<exists>x r. length r < length s \<and> wf_json x \<and> close_value st x r = Inr v)"
  supply parse_value.simps [simp del]
proof -
  obtain c r where sk: "skip_ws s = c # r"
    using assms by (cases "skip_ws s") (simp_all add: parse_value.simps [of st s])
  have lr: "length r < length s" using sk by (rule skip_ws_Cons_length)
  have a: "(if c = CHR ''{'' then
         (case skip_ws r of
            [] \<Rightarrow> Inl SyntaxError
          | d # r' \<Rightarrow>
              if d = CHR ''}'' then close_value st (JObj []) r'
              else if d = CHR 0x22 then
                (case parse_key r' of
                   None \<Rightarrow> Inl SyntaxError
                 | Some (k, r'') \<Rightarrow> parse_value (FObj [] k # st) r'')
              else Inl SyntaxError)
       else if c = CHR ''['' then
         (case skip_ws r of
            [] \<Rightarrow> Inl SyntaxError
          | d # r' \<Rightarrow> if d = CHR '']'' then close_value st (JArr []) r'
                      else parse_value (FArr [] # st) r)
       else if c = CHR 0x22 then
         (case parse_str [] r of
            None \<Rightarrow> Inl SyntaxError
          | Some (u, r') \<Rightarrow> close_value st (JStr u) r')
       else if c = CHR ''-'' \<or> is_digit c then
         (case parse_number (c # r) of
            None \<Rightarrow> Inl SyntaxError
          | Some (v, r') \<Rightarrow> close_value st v r')
       else if c = CHR ''t'' \<and> take 3 r = ''rue'' then close_value st (JBool True) (drop 3 r)
       else if c = CHR ''f'' \<and> take 4 r = ''alse'' then close_value st (JBool False) (drop 4 r)
       else if c = CHR ''n'' \<and> take 3 r = ''ull'' then close_value st JNull (drop 3 r)
       else Inl SyntaxError) = Inr v"
    using assms by (simp only: parse_value.simps [of st s] sk list.case)
  show ?thesis
  proof (cases "c = CHR ''{''")
    case c_open: True
    with a obtain d r' where sk2: "skip_ws r = d # r'" by (cases "skip_ws r") simp_all
    have lr': "length r' < length s" using skip_ws_Cons_length [OF sk2] lr by simp
    show ?thesis
    proof (cases "d = CHR ''}''")
      case True
      with c_open a sk2 lr' show ?thesis by auto
    next
      case False
      with c_open a sk2 obtain k r'' where pk: "parse_key r' = Some (k, r'')"
        and pv: "parse_value (FObj [] k # st) r'' = Inr v"
        by (auto split: if_splits option.splits)
      have "length r'' < length s" using parse_key_length [OF pk] lr' by simp
      with pv show ?thesis by blast
    qed
  next
    case nb: False
    show ?thesis
    proof (cases "c = CHR ''[''")
      case True
      with nb a obtain d r' where sk2: "skip_ws r = d # r'" by (cases "skip_ws r") simp_all
      have "length r' < length s" using skip_ws_Cons_length [OF sk2] lr by simp
      with True nb a sk2 lr show ?thesis by (auto split: if_splits)
    next
      case nk: False
      show ?thesis
      proof (cases "c = CHR 0x22")
        case True
        with nb nk a obtain u r' where ps: "parse_str [] r = Some (u, r')"
          and cv: "close_value st (JStr u) r' = Inr v" by (auto split: option.splits)
        have "length r' < length s" using parse_str_length [OF ps] lr by simp
        with cv show ?thesis by fastforce
      next
        case nq: False
        show ?thesis
        proof (cases "c = CHR ''-'' \<or> is_digit c")
          case True
          with nb nk nq a obtain x r' where pn: "parse_number (c # r) = Some (x, r')"
            and cv: "close_value st x r' = Inr v" by (auto split: option.splits)
          have "length r' < length s" using parse_number_length [OF pn] lr by simp
          with cv parse_number_wf [OF pn] show ?thesis by blast
        next
          case False
          have "close_value st (JBool True) (drop 3 r) = Inr v \<or> close_value st (JBool False) (drop 4 r) = Inr v
              \<or> close_value st JNull (drop 3 r) = Inr v"
            using False nb nk nq a by (simp split: if_split_asm)
          moreover have "length (drop 3 r) < length s" "length (drop 4 r) < length s" using lr by simp_all
          ultimately show ?thesis by (metis wf_json.simps(4,5,6))
        qed
      qed
    qed
  qed
qed

lemma close_value_cases_arr:
  assumes "close_value (FArr acc # st) x s = Inr v"
  shows "(\<exists>r. length r < length s \<and> parse_value (FArr (acc @ [x]) # st) r = Inr v)
    \<or> (\<exists>r. length r < length s \<and> close_value st (JArr (acc @ [x])) r = Inr v)"
  supply parse_value.simps [simp del]
proof -
  obtain c r where sk: "skip_ws s = c # r" using assms by (cases "skip_ws s") simp_all
  have "length r < length s" using sk by (rule skip_ws_Cons_length)
  with assms sk show ?thesis by (auto split: if_splits)
qed

lemma close_value_cases_obj:
  assumes "close_value (FObj acc k # st) x s = Inr v"
  shows "(\<exists>k' r. length r < length s \<and> parse_value (FObj (acc @ [(k, x)]) k' # st) r = Inr v)
    \<or> (\<exists>r. length r < length s \<and> close_value st (JObj (acc @ [(k, x)])) r = Inr v)"
  supply parse_value.simps [simp del]
proof -
  obtain c r where sk: "skip_ws s = c # r" using assms by (cases "skip_ws s") simp_all
  have lr: "length r < length s" using sk by (rule skip_ws_Cons_length)
  show ?thesis
  proof (cases "c = CHR '',''")
    case True
    with assms sk obtain d r' where sk2: "skip_ws r = d # r'" by (cases "skip_ws r") simp_all
    have lr': "length r' < length s" using skip_ws_Cons_length [OF sk2] lr by simp
    from True assms sk sk2 obtain k' r'' where pk: "parse_key r' = Some (k', r'')"
      and pv: "parse_value (FObj (acc @ [(k, x)]) k' # st) r'' = Inr v"
      by (auto split: if_splits option.splits)
    have "length r'' < length s" using parse_key_length [OF pk] lr' by simp
    with pv show ?thesis by blast
  next
    case False
    with assms sk lr show ?thesis by (auto split: if_splits)
  qed
qed

lemma parse_wf_aux:
  "length s < n \<Longrightarrow> list_all frame_wf st \<Longrightarrow> (parse_value st s = Inr v \<longrightarrow> wf_json v)
     \<and> (\<forall>x. wf_json x \<longrightarrow> close_value st x s = Inr v \<longrightarrow> wf_json v)"
  supply parse_value.simps [simp del] close_value.simps [simp del]
proof (induction n arbitrary: st s v)
  case 0
  then show ?case by simp
next
  case (Suc n)
  have IH: "\<And>st r. length r < length s \<Longrightarrow> list_all frame_wf st \<Longrightarrow> (parse_value st r = Inr v \<longrightarrow> wf_json v)
      \<and> (\<forall>x. wf_json x \<longrightarrow> close_value st x r = Inr v \<longrightarrow> wf_json v)"
    using Suc.IH Suc.prems(1) by (meson less_Suc_eq_le order_less_le_trans)
  have close: "wf_json v" if x: "wf_json x" and c: "close_value st x s = Inr v" for x
  proof (cases st)
    case Nil
    with x c show ?thesis by (simp add: close_value.simps split: if_splits)
  next
    case (Cons f st')
    show ?thesis
    proof (cases f)
      case (FArr acc)
      have fw: "list_all frame_wf (FArr (acc @ [x]) # st')" "list_all frame_wf st'" "wf_json (JArr (acc @ [x]))"
        using Suc.prems(2) x Cons FArr by auto
      from close_value_cases_arr [of acc st' x s v] c Cons FArr show ?thesis
        using IH [OF _ fw(1)] IH [OF _ fw(2)] fw(3) by blast
    next
      case (FObj acc k)
      have fw: "\<And>k'. list_all frame_wf (FObj (acc @ [(k, x)]) k' # st')" "list_all frame_wf st'"
        "wf_json (JObj (acc @ [(k, x)]))"
        using Suc.prems(2) x Cons FObj by auto
      from close_value_cases_obj [of acc k st' x s v] c Cons FObj show ?thesis
        using IH [OF _ fw(1)] IH [OF _ fw(2)] fw(3) by blast
    qed
  qed
  have "wf_json v" if p: "parse_value st s = Inr v"
  proof -
    have fa: "list_all frame_wf (FArr [] # st)" "\<And>k. list_all frame_wf (FObj [] k # st)"
      using Suc.prems(2) by simp_all
    from parse_value_cases [OF p] show ?thesis
      using IH [OF _ fa(1)] IH [OF _ fa(2)] IH [OF _ Suc.prems(2)] by blast
  qed
  with close show ?case by blast
qed

lemma json_parse_wf: "json_parse s = Inr v \<Longrightarrow> wf_json v"
  using parse_wf_aux [of s "Suc (length s)" "[]" v] by (simp add: json_parse_def)

lemma json_parse_print: "wf_json v \<Longrightarrow> json_parse (json_print v) = Inr v"
  using parse_print [of v "[]" "[]"] by (simp add: json_parse_def skip_ws_def)

end
