(* ===== verification/Metadata.thy ===== *)
theory Metadata
  imports Page JsonPrint
begin

text \<open>
  The token metadata end to end: the JSON text the contract base64-encodes into its
  token URI, the page's decoding (\<^const>\<open>decode_token_uri\<close>, line 61) and the value it
  keeps in \<open>latestNFTMinted\<close> (\<^const>\<open>token_uri_effect\<close>, lines 58--66). Uses the
  printer and the well-formedness predicate of \<open>JsonPrint\<close>.
\<close>

section \<open>Properties\<close>

text \<open>C26: when the contract's token URI is a data URI carrying the base64 encoding of
  the JSON text of a metadata value, the effect stores exactly that value: printing,
  base64 encoding, \<open>atob\<close> and \<open>JSON.parse\<close> compose to the identity.\<close>

theorem uri_roundtrip_stores_metadata:
  assumes "wf_json v" and "CHR '','' \<notin> set p"
  shows "token_uri_effect (w\<lparr>tokenURI := Some (p @ CHR '','' # btoa (json_print v))\<rparr>)
    = w\<lparr>tokenURI := Some (p @ CHR '','' # btoa (json_print v)), ui := (ui w)\<lparr>latestNFTMinted := v\<rparr>\<rparr>"
proof -
  have "decode_token_uri (p @ CHR '','' # btoa (json_print v)) = Inr v"
    by (simp only: decode_token_uri_def js_substring_after_first [OF assms(2)])
      (simp add: atob_def forgiving_base64_decode_btoa json_parse_print [OF assms(1)])
  then show ?thesis by (simp add: token_uri_effect_def)
qed

section \<open>Witnesses\<close>

theorem uri_roundtrip_stores_metadata_witness:
  "token_uri_effect ((world0 True)\<lparr>tokenURI := Some (''data:application/json;base64'' @ CHR '','' #
       btoa (json_print (JObj [(utf16 ''name'', JStr (utf16 ''X'')), (utf16 ''price'', JNum 15 (-3))])))\<rparr>)
   = (world0 True)\<lparr>tokenURI := Some (''data:application/json;base64'' @ CHR '','' #
       btoa (json_print (JObj [(utf16 ''name'', JStr (utf16 ''X'')), (utf16 ''price'', JNum 15 (-3))]))),
       ui := (ui (world0 True))\<lparr>latestNFTMinted := JObj [(utf16 ''name'', JStr (utf16 ''X'')), (utf16 ''price'', JNum 15 (-3))]\<rparr>\<rparr>"
proof -
  have "wf_json (JObj [(utf16 ''name'', JStr (utf16 ''X'')), (utf16 ''price'', JNum 15 (-3))])"
    "CHR '','' \<notin> set ''data:application/json;base64''" by simp_all
  then show ?thesis by (rule uri_roundtrip_stores_metadata)
qed

end
