(* ===== verification/Reads.thy ===== *)
theory Reads
  imports Page
begin

text \<open>
  The two contract reads of \<open>src/my-app/pages/index.js\<close> (lines 30--48) as the page sees
  them. The \<open>tokenURI\<close> read takes the total supply as its argument, and the hook keeps one
  cached result per argument (\<^const>\<open>uri_cache\<close>): a new supply makes the hook's data the
  cached result for the new argument, undefined when there is none
  (\<^const>\<open>supply_read\<close>), and a result for an argument is cached whether or not it is the
  current one (\<^const>\<open>uri_read\<close>). The lemmas compare this with the data model of the
  specification (section 3): the metadata shown belongs to the token index of the latest
  supply read. It does when the URI for that index has been read and decodes; until it has,
  the page keeps the metadata of the previous index.
\<close>

section \<open>Lemmas\<close>

lemma token_uri_effect_None: "tokenURI w = None \<Longrightarrow> token_uri_effect w = w"
  by (simp add: token_uri_effect_def)

section \<open>Properties\<close>

text \<open>C27: in every reachable state the token URI the page holds is the read hook's cached
  result for the current total supply, and undefined while the supply has not been read.\<close>

theorem reachable_uri_keyed:
  assumes "reach w"
  shows "tokenURI w = (case tokenData w of None \<Rightarrow> None | Some n \<Rightarrow> uri_cache w n)"
  using reach_page_inv [OF assms] by (simp add: page_inv_def key_inv_def)

text \<open>C28: a new total supply whose token URI has not been read yet changes only the
  supply and makes the URI undefined: the effect of lines 58--66 runs and does nothing, and
  the page goes on showing the metadata of the previous index, contrary to the data model
  of the specification.\<close>

theorem new_supply_keeps_metadata:
  assumes "tokenData w \<noteq> Some n" and "uri_cache w n = None"
  shows "step w (SupplyRead n) = Some (w\<lparr>tokenData := Some n, tokenURI := None\<rparr>)"
  using assms by (simp add: supply_read_def token_uri_effect_None)

section \<open>Witnesses\<close>

theorem reachable_uri_keyed_witness:
  "\<exists>w. run (world_init True) [SupplyRead 1, UriRead 2 (Some ''data:,eyJhIjoyfQ==''), SupplyRead 2] = Some w
     \<and> tokenURI w = Some ''data:,eyJhIjoyfQ==''"
proof -
  obtain w where r: "run (world_init True)
      [SupplyRead 1, UriRead 2 (Some ''data:,eyJhIjoyfQ==''), SupplyRead 2] = Some w"
    by (simp add: page_eval)
  have "tokenData w = Some 2" "uri_cache w 2 = Some ''data:,eyJhIjoyfQ==''"
    using r by (auto simp: page_eval js_eval utf16_def code_unit_of_def norm_dec.simps)
  with reachable_uri_keyed [OF reach_run_init [OF r]] r show ?thesis by auto
qed

theorem new_supply_keeps_metadata_witness:
  "\<exists>w w'. run (world_init True) [SupplyRead 1, UriRead 1 (Some ''data:,eyJhIjoxfQ=='')] = Some w
     \<and> step w (SupplyRead 2) = Some w'
     \<and> tokenData w' = Some 2 \<and> tokenURI w' = None
     \<and> latestNFTMinted (ui w') = JObj [(utf16 ''a'', JNum 1 0)]"
proof -
  obtain w where r: "run (world_init True) [SupplyRead 1, UriRead 1 (Some ''data:,eyJhIjoxfQ=='')] = Some w"
    by (simp add: page_eval)
  have "tokenData w \<noteq> Some 2" "uri_cache w 2 = None"
    and m: "latestNFTMinted (ui w) = JObj [(utf16 ''a'', JNum 1 0)]"
    using r by (auto simp: page_eval js_eval utf16_def code_unit_of_def norm_dec.simps)
  from new_supply_keeps_metadata [OF this(1,2)] r m show ?thesis by auto
qed

end
