(* ===== verification/Closure.thy ===== *)
theory Closure
  imports Page
begin

text \<open>
  The value that \<open>mintToken\<close> logs at line 78 of \<open>src/my-app/pages/index.js\<close>. The
  handler is a closure created by the render in which its button was pressed, so
  \<open>mintData\<close> in its body is the write hook's data of that render, not the transaction
  the call has just awaited. \<^const>\<open>mint_start\<close> records that value
  (\<^const>\<open>write_closure\<close>), \<^const>\<open>mint_write_resolved\<close> moves it to the call awaiting
  the transaction (\<^const>\<open>wait_closure\<close>), and \<^const>\<open>mint_confirmed\<close> logs it. Events
  in between (reads, other settlements, renders) do not change it.
\<close>

section \<open>Lemmas\<close>

text \<open>The value a call awaiting transaction \<open>h\<close> closed over changes only when a write
  resolves with \<open>h\<close>.\<close>

lemma step_wait_closure:
  assumes "step w e = Some w'" and "e \<noteq> WriteResolved h"
  shows "wait_closure w' h = wait_closure w h"
  using assms
  by (cases e) (auto simp: account_changed_def connection_effect_def supply_read_def uri_read_def Let_def
      mint_start_def mint_write_resolved_def mint_write_rejected_def mint_confirmed_def mint_wait_failed_def
      close_modal_def split: if_splits sum.splits)

lemma run_wait_closure:
  "run w es = Some w' \<Longrightarrow> WriteResolved h \<notin> set es \<Longrightarrow> wait_closure w' h = wait_closure w h"
proof (induction es arbitrary: w)
  case Nil
  then show ?case by simp
next
  case (Cons e es)
  then obtain w1 where s: "step w e = Some w1" and r: "run w1 es = Some w'" by (auto split: option.splits)
  have "wait_closure w1 h = wait_closure w h" using s Cons.prems(2) by (intro step_wait_closure) auto
  with Cons.IH [OF r] Cons.prems(2) show ?case by simp
qed

lemma mint_start_closure:
  "step w (ClickMint t) = Some w1 \<Longrightarrow> write_closure w1 = mintData w \<and> console w1 = console w"
  using tier_payment [of t] by (auto simp: mint_start_def Let_def split: if_splits)

section \<open>Properties\<close>

text \<open>C29: when a Mint press is followed by its write resolving with transaction \<open>h\<close>,
  then by any events that do not resolve another write with \<open>h\<close>, and then by the
  confirmation of \<open>h\<close>, the line the confirmation logs names the write hook's data at
  the press: \<open>undefined\<close> on a first mint, the previous transaction afterwards, never
  the transaction just confirmed unless it was already the hook's data.\<close>

theorem confirmation_logs_closure:
  assumes "step w (ClickMint t) = Some w1" and "step w1 (WriteResolved h) = Some w2"
    and "run w2 es = Some w3" and "WriteResolved h \<notin> set es" and "step w3 (WaitResolved h) = Some w4"
  shows "console w4 = console w3 @ [''This is the mint data '' @ log_value (mintData w)]"
proof -
  have "wait_closure w2 h = mintData w"
    using assms(2) mint_start_closure [OF assms(1)] by (auto simp: mint_write_resolved_def split: if_splits)
  then have "wait_closure w3 h = mintData w" using run_wait_closure [OF assms(3,4)] by simp
  with assms(5) show ?thesis by (auto simp: mint_confirmed_def split: if_splits)
qed

section \<open>Witnesses\<close>

text \<open>Two mints in a row, closing the success modal in between: the first confirmation
  logs \<open>undefined\<close>, the second, of transaction \<open>0xb2\<close>, logs \<open>0xa1\<close>.\<close>

theorem confirmation_logs_closure_witness:
  "\<exists>w w1 w2 w3 w4.
     run (world_init True) [ClickMint Tier0, WriteResolved ''0xa1'', WaitResolved ''0xa1'', CloseModal] = Some w
     \<and> step w (ClickMint Tier1) = Some w1 \<and> step w1 (WriteResolved ''0xb2'') = Some w2
     \<and> run w2 [SupplyRead 1] = Some w3 \<and> step w3 (WaitResolved ''0xb2'') = Some w4
     \<and> console w4 = [''This is the mint data undefined'', ''This is the mint data 0xa1'']"
proof -
  obtain w where r: "run (world_init True)
      [ClickMint Tier0, WriteResolved ''0xa1'', WaitResolved ''0xa1'', CloseModal] = Some w"
    by (simp add: page_eval js_eval utf16_def)
  have c: "console w = [''This is the mint data undefined'']" and m: "mintData w = Some ''0xa1''"
    using r by (auto simp: page_eval js_eval utf16_def log_value_def)
  obtain w1 where s1: "step w (ClickMint Tier1) = Some w1"
    using r by (auto simp: page_eval js_eval utf16_def)
  obtain w2 where s2: "step w1 (WriteResolved ''0xb2'') = Some w2"
    using r s1 by (auto simp: page_eval js_eval utf16_def split: if_splits)
  obtain w3 where s3: "run w2 [SupplyRead 1] = Some w3" by simp
  obtain w4 where s4: "step w3 (WaitResolved ''0xb2'') = Some w4"
    using r s1 s2 s3 by (auto simp: page_eval js_eval utf16_def split: if_splits)
  have "console w3 = console w" using r s1 s2 s3 by (auto simp: page_eval js_eval utf16_def split: if_splits)
  with confirmation_logs_closure [OF s1 s2 s3 _ s4] c m
  have "console w4 = [''This is the mint data undefined'', ''This is the mint data 0xa1'']"
    by (simp add: log_value_def)
  with r s1 s2 s3 s4 show ?thesis by blast
qed

end
