(* ===== verification/Spec2Isabelle.thy ===== *)
theory Spec2Isabelle
  imports Refinement Metadata Reads Closure
begin

text \<open>
  \<^bold>\<open>Verification development of the NFT minting page.\<close>
  The program is one React component, \<open>Home\<close> in \<open>src/my-app/pages/index.js\<close>.
  It shows a wallet connect control and three tier cards, each with a Mint button
  carrying a price in ether. The async handler \<open>mintToken\<close> sends a paid
  \<open>mint\<close> write through wagmi's \<open>useContractWrite\<close>, waits for the
  confirmation, and asks for a re-read of \<open>totalSupply\<close>. An effect decodes the
  newest token's URI (\<open>atob\<close> of the text after the first comma, then
  \<open>JSON.parse\<close>) into \<open>latestNFTMinted\<close>. A modal shows "Minting..." and then
  the metadata with an OpenSea and a Polygonscan link.

  \<^bold>\<open>Theories.\<close>
  \<^item> \<open>Prelude\<close>: the exception type \<^typ>\<open>js_error\<close> and the result type
    \<open>'a js_result = js_error + 'a\<close> (every \<open>throw\<close> is an \<open>Inl\<close>).
    JavaScript strings as lists of 16-bit code units, and decimal digit strings
    (\<^const>\<open>nat_of_digits\<close>, \<^const>\<open>dec_digits\<close>) with their lemmas.
    The collection \<open>js_eval\<close> gathers the unfolding rules that evaluate the
    builtins on concrete inputs by \<open>simp\<close>.
  \<^item> \<open>JsString\<close>: \<open>indexOf\<close>, one-argument \<open>substring\<close>, and string
    truthiness (lines 60--61).
  \<^item> \<open>Base64\<close>: \<open>window.atob\<close> as the HTML standard's forgiving-base64 decode,
    and a reference encoder \<^const>\<open>btoa\<close>. Lemmas: decoding undoes encoding;
    a character outside the alphabet throws \<open>InvalidCharacterError\<close>; a bad
    length throws.
  \<^item> \<open>Json\<close>: \<open>JSON.parse\<close> after ECMA-404 as a total pushdown parser.
    \<^const>\<open>parse_value\<close> and \<^const>\<open>close_value\<close> are mutually recursive over a
    stack of open arrays and objects; termination is by the length of the rest of
    the input. Numbers are exact decimals \<open>JNum m e = m * 10^e\<close>. The property
    read \<^const>\<open>get_field\<close> throws on \<open>null\<close>.
  \<^item> \<open>Ether\<close>: \<open>ethers.utils.parseEther\<close> as ethers v5's \<open>parseFixed\<close> with 18
    decimals, over unbounded integers (as \<open>BigNumber\<close> is).
  \<^item> \<open>Page\<close>: the component itself, as follows.
    \<^item> The \<open>useState\<close> cells (lines 15--18) are the record \<open>page_state\<close>.
    \<^item> The hook values and the suspended calls of \<open>mintToken\<close> (a multiset of
      \<^typ>\<open>mint_stage\<close>, one per pending \<open>await\<close>) form \<open>world\<close>. The
      \<open>tokenURI\<close> read keeps one cached result per argument
      (\<^const>\<open>uri_cache\<close>), as the hook's query cache is keyed by \<open>args\<close>;
      the \<open>mintData\<close> that each pending call closed over is kept as well
      (\<^const>\<open>write_closure\<close>, \<^const>\<open>wait_closure\<close>).
    \<^item> The effects are \<^const>\<open>connection_effect\<close> and \<^const>\<open>token_uri_effect\<close>.
      The hook updates \<^const>\<open>account_changed\<close>, \<^const>\<open>supply_read\<close> and
      \<^const>\<open>uri_read\<close> rerun an effect only when its dependency changed.
    \<^item> \<open>mintToken\<close> is split at its two \<open>await\<close>s into:
      \<^const>\<open>mint_start\<close>, \<^const>\<open>mint_write_resolved\<close>,
      \<^const>\<open>mint_write_rejected\<close>, \<^const>\<open>mint_confirmed\<close> and
      \<^const>\<open>mint_wait_failed\<close>.
    \<^item> The Close button is \<^const>\<open>close_modal\<close>.
    \<^item> The JSX is \<^const>\<open>render\<close>, \<^const>\<open>render_card\<close> and
      \<^const>\<open>render_modal\<close>, which evaluate the property reads in source order and
      then React's check of the \<open>name\<close> child (\<^const>\<open>react_child\<close>).
    \<^item> The events (clicks on rendered, enabled buttons; new hook values; promise
      settlements) drive \<^const>\<open>step\<close> and \<^const>\<open>run\<close>. The reachable states are the
      inductive \<^const>\<open>reach\<close>. The states where no two mints overlap are
      \<^const>\<open>reach_seq\<close>.
  \<^item> \<open>Styles\<close>: the nine inline style objects (lines 183--262) as association
    lists, and what CSS makes of the modal's: a fixed layer over the whole viewport,
    above the static cards (\<^const>\<open>blocks_pointer\<close>).
  \<^item> \<open>Pointer\<close>: the composition of the JSX with that style. The modal container
    (line 144) is rendered when connected and \<open>modalShow\<close>; a pointer click reaches a
    Mint button only when it is absent (\<^const>\<open>pointer_step\<close>, runs
    \<^const>\<open>reach_pointer\<close>). Keyboard activation is not blocked, so \<^const>\<open>step\<close>
    stays the model of all users.
  \<^item> \<open>Refinement\<close>: the state machine of the specification (section 4.1) as an
    abstract event system over the connection flag and the modal's phase
    (idle, minting, minted), the refinement mapping \<^const>\<open>abs_of\<close> and
    \<^const>\<open>abs_event_of\<close>, and the simulation of pointer runs.
  \<^item> \<open>JsonPrint\<close>: a printer for JSON values, the reference for \<open>JSON.parse\<close>,
    and the well-formedness predicate \<^const>\<open>wf_json\<close> (numbers in normal form).
  \<^item> \<open>Metadata\<close>: the token metadata from the contract's JSON text to the value the
    page keeps.
  \<^item> \<open>Reads\<close>: the keyed \<open>tokenURI\<close> read against the data model of the
    specification (section 3): the metadata shown belongs to the latest supply read.
  \<^item> \<open>Closure\<close>: the value \<open>mintToken\<close> logs at line 78, the \<open>mintData\<close> of
    the render in which the button was pressed.
  \<^item> This theory: the token URI effect end to end (decode, store, show), the
    payment of \<open>mintToken\<close> for any decimal button value, and the mint flow.
    The mint flow covers three cases: the happy path, the confirmation that
    does not wait for the refetch, and a value that \<open>parseEther\<close> rejects.

  \<^bold>\<open>What is proved.\<close> The lemmas fall into these groups.
  \<^item> Payments: the payment of each tier, and of any decimal button value.
  \<^item> Invariants: the reachable-state invariant (\<open>page_inv\<close>, by rule induction
    over \<^const>\<open>reach\<close>), and the metadata always matching a decodable URI.
  \<^item> Render safety when mints do not overlap: rendering throws only because of the
    metadata, a \<open>TypeError\<close> on \<open>null\<close> or React's invalid-child error on a
    \<open>name\<close> that is an object (\<^const>\<open>react_child\<close>).
  \<^item> Exact behaviour of every event: minting ends only on a confirmation, which
    triggers exactly one refetch; Close returns to the idle view; decode errors
    are logged and keep the metadata.
  \<^item> Liveness of the mint flow: once a write resolves and is confirmed, the
    success modal shows the metadata's name and the hash of that transaction.
  \<^item> Decoding: the data URI of a base64 text decodes to that text's JSON; printing,
    base64 encoding, \<open>atob\<close> and \<open>JSON.parse\<close> compose to the identity on
    well-formed values (\<open>JsonPrint\<close>, by induction on the value with the parser's
    stack generalised); every parsed value is well-formed.
  \<^item> Pointer users: the modal layer keeps them from starting a mint while another
    is pending, so their runs never overlap and never reach the crash on
    \<open>mintData.hash\<close>; every pointer run,
    mapped event by event, is a run of the specification's machine.
  \<^item> Bounds: every submitted payment is a tier price below \<open>2^256\<close>.
  \<^item> Reads: in every reachable state the page's token URI is the cached result
    for the current supply (\<open>Reads\<close>).

  The findings are each proved as theorems.
  \<^item> Overlapping mints crash the render. Reading \<open>mintData.hash\<close> of undefined
    throws, because the buttons are disabled only while the write hook loads.
    The modal layer blocks the pointer, so the second press needs the keyboard.
  \<^item> With the keyboard, a mint can start from the success modal, a transition the
    specification's machine does not have.
  \<^item> The success modal shows the metadata held before the refetch, which is not
    awaited.
  \<^item> A failed mint leaves the modal in "Minting..." with no Close button.
  \<^item> A URI without a comma is decoded whole instead of rejected.
  \<^item> \<open>null\<close> metadata makes the modal throw, and so does metadata whose
    \<open>name\<close> is an object (React cannot render it as a child).
  \<^item> A new total supply whose URI has not been read leaves the metadata of the
    previous index on display (\<open>Reads\<close>), against section 3 of the specification.
  \<^item> The confirmation logs the \<open>mintData\<close> of the press: \<open>undefined\<close> on the
    first mint and the previous transaction afterwards (\<open>Closure\<close>).

  \<^bold>\<open>Bounds and fuel.\<close> None are needed. Every function of the model is total:
  structural recursion, or the length measure of the JSON parser. The event
  sequences are finite lists. Integers are unbounded, as in \<open>BigNumber\<close> and
  JavaScript strings. The only fixed-width values are the 16-bit code units of
  the JSON strings.

  \<^bold>\<open>Not modelled.\<close>
  \<^item> The layout of the JSX beyond the content, links and enabled buttons it shows,
    and of the styles beyond the modal layer's geometry and stacking.
  \<^item> Focus management: which element has focus is not tracked; \<^const>\<open>step\<close>
    lets any enabled Mint button be activated, as Tab and Enter allow.
  \<^item> \<open>next/head\<close>, \<open>next/image\<close> and RainbowKit's \<open>ConnectButton\<close>, which
    enter only as the connection flag.
  \<^item> The internals of wagmi and of the RPC transport. Their results are
    events: a new hook value, or a promise that resolves or rejects.
  \<^item> The contract \<open>TierNFT\<close>, whose ABI artifact is not in the repository.
  \<^item> The rounding of JSON numbers to binary64.
  \<^item> The second argument of \<open>console.log\<close> in the three \<open>catch\<close> blocks
    (\<open>error.message\<close>): the log records which message was written. The value
    logged after a confirmation (line 78) is modelled, written by the
    transaction's hash.
  \<^item> The eviction of wagmi's query cache (\<open>cacheTime\<close>): a cached
    \<open>tokenURI\<close> result is kept for good. Transaction hashes are taken to be
    distinct, as the chain makes them, so one closure per hash suffices.
  \<^item> The watch mode's timing. Any interleaving of reads with the other events is
    allowed.
  \<^item> What React does after an uncaught render error: the model has no crashed
    state, so a run goes on after a render that throws (the theorems about such
    runs over-approximate the page). The checks \<open>next/image\<close> makes of its
    \<open>src\<close> are not modelled either.
  \<^item> A total supply that becomes undefined again (a change of chain): once read,
    \<open>tokenData\<close> stays a number.
\<close>

section \<open>Decoding the token URI\<close>

text \<open>C11: a token URI whose payload after the first comma is the base64 encoding of a
  text decodes to what \<open>JSON.parse\<close> makes of that text, whatever the prefix before the
  comma says.\<close>

theorem decode_data_uri:
  assumes "CHR '','' \<notin> set p"
  shows "decode_token_uri (p @ CHR '','' # btoa t) = json_parse t"
  by (simp only: decode_token_uri_def js_substring_after_first [OF assms])
    (simp add: atob_def forgiving_base64_decode_btoa)

theorem decode_data_uri_witness:
  "decode_token_uri (''data:application/json;base64'' @ CHR '','' # btoa ''null'') = Inr JNull"
proof -
  have "CHR '','' \<notin> set ''data:application/json;base64''" by simp
  from decode_data_uri [OF this, of "''null''"] show ?thesis by (simp add: js_eval)
qed

text \<open>C12: a token URI without a comma is not rejected: \<open>indexOf\<close> answers \<open>-1\<close>, so the
  whole text is base64-decoded and parsed.\<close>

theorem uri_without_comma_decoded_whole:
  assumes "CHR '','' \<notin> set u"
  shows "decode_token_uri u = (case atob u of Inl e \<Rightarrow> Inl e | Inr t \<Rightarrow> json_parse t)"
  using assms by (simp add: decode_token_uri_def)

theorem uri_without_comma_decoded_whole_witness:
  "decode_token_uri ''eyJuYW1lIjoiWCJ9'' = Inr (JObj [(utf16 ''name'', JStr (utf16 ''X''))])"
proof -
  have "CHR '','' \<notin> set ''eyJuYW1lIjoiWCJ9''" by simp
  from uri_without_comma_decoded_whole [OF this] show ?thesis
    by (simp add: js_eval utf16_def code_unit_of_def)
qed

section \<open>The token URI effect and the success modal\<close>

lemma decode_token_uri_payload:
  assumes "CHR '','' \<notin> set p"
  shows "decode_token_uri (p @ CHR '','' # s) = (case atob s of Inl e \<Rightarrow> Inl e | Inr t \<Rightarrow> json_parse t)"
  by (simp only: decode_token_uri_def js_substring_after_first [OF assms])

lemma token_uri_effect_Some:
  "u \<noteq> [] \<Longrightarrow> token_uri_effect (w\<lparr>tokenURI := Some u\<rparr>) = (case decode_token_uri u of
       Inl e \<Rightarrow> w\<lparr>tokenURI := Some u, console := console w @ [''Error fetching token URI'']\<rparr>
     | Inr v \<Rightarrow> w\<lparr>tokenURI := Some u, ui := (ui w)\<lparr>latestNFTMinted := v\<rparr>\<rparr>)"
  by (simp add: token_uri_effect_def split: sum.split)

text \<open>C13: when the contract's token URI carries, after its first comma, the base64
  encoding of a JSON object, the success modal shows that object's \<open>name\<close> and
  \<open>image\<close> members (the last occurrence of each, as \<open>JSON.parse\<close> keeps it), with the
  OpenSea link of the current supply and the Polygonscan link of the transaction, provided
  React can render the \<open>name\<close> (it is not an object).\<close>

theorem uri_metadata_shown:
  assumes "CHR '','' \<notin> set p" "json_parse t = Inr (JObj kvs)"
    and "\<not> isMinting (ui w)" "mintData w = Some h" "react_child_opt (map_of (rev kvs) (utf16 ''name''))"
  shows "render_modal (token_uri_effect (w\<lparr>tokenURI := Some (p @ CHR '','' # btoa t)\<rparr>))
    = Inr (ModalSuccess (map_of (rev kvs) (utf16 ''name'')) (map_of (rev kvs) (utf16 ''image''))
             (opensea_url (tokenData w)) (polygonscan_url h))"
  using assms by (simp add: token_uri_effect_Some decode_token_uri_payload atob_btoa render_modal_def)

theorem uri_metadata_shown_witness:
  \<open>render_modal (token_uri_effect ((world0 True)\<lparr>ui := page_init, mintData := Some ''0xa1'',
       tokenURI := Some (''data:'' @ CHR '','' # btoa ''{"name":"X"}'')\<rparr>))
   = Inr (ModalSuccess (Some (JStr (utf16 ''X''))) None (opensea_url None) (polygonscan_url ''0xa1''))\<close>
proof -
  let ?w = "(world0 True)\<lparr>ui := page_init, mintData := Some ''0xa1''\<rparr>"
  have "CHR '','' \<notin> set ''data:''" \<open>json_parse ''{"name":"X"}'' = Inr (JObj [(utf16 ''name'', JStr (utf16 ''X''))])\<close>
    "\<not> isMinting (ui ?w)" "mintData ?w = Some ''0xa1''"
    "react_child_opt (map_of (rev [(utf16 ''name'', JStr (utf16 ''X''))]) (utf16 ''name''))"
    by (simp_all add: js_eval page_init_def world0_def utf16_def code_unit_of_def react_child_opt_def)
  from uri_metadata_shown [OF this] show ?thesis
    by (simp add: world0_def utf16_def code_unit_of_def)
qed

text \<open>C14: a token URI whose payload holds a character outside the base64 alphabet (not
  whitespace, not padding) makes \<open>atob\<close> throw; the effect catches it, logs
  \<open>Error fetching token URI\<close> and changes nothing else.\<close>

theorem uri_bad_base64_logged:
  assumes "CHR '','' \<notin> set p" "c \<in> set s" "\<not> ascii_whitespace c" "c \<noteq> CHR ''=''" "b64_value c = None"
  shows "token_uri_effect (w\<lparr>tokenURI := Some (p @ CHR '','' # s)\<rparr>)
    = w\<lparr>tokenURI := Some (p @ CHR '','' # s), console := console w @ [''Error fetching token URI'']\<rparr>"
  using assms(1) atob_bad_char [OF assms(2-5)]
  by (simp add: token_uri_effect_Some decode_token_uri_payload)

theorem uri_bad_base64_logged_witness:
  "token_uri_effect ((world0 True)\<lparr>tokenURI := Some ''data:,eyJu!W1l''\<rparr>)
    = (world0 True)\<lparr>tokenURI := Some ''data:,eyJu!W1l'', console := [''Error fetching token URI'']\<rparr>"
proof -
  have "CHR '','' \<notin> set ''data:''" "CHR ''!'' \<in> set ''eyJu!W1l''" "\<not> ascii_whitespace (CHR ''!'')"
    "CHR ''!'' \<noteq> CHR ''=''" "b64_value (CHR ''!'') = None"
    by (simp_all add: ascii_whitespace_def b64_value_def)
  from uri_bad_base64_logged [OF this, of "world0 True"] show ?thesis
    by (simp add: world0_def)
qed

section \<open>The payment of \<open>mintToken\<close>\<close>

text \<open>C15: \<open>mintToken\<close> called with a button value \<open>a.b\<close> of decimal digits (at most 18
  after the point) submits one write paying \<open>a * 10^18 + b * 10^(18 - |b|)\<close> wei, the value
  read as ether.\<close>

theorem mint_value_payment:
  assumes "\<forall>c \<in> set a. is_digit c" "\<forall>c \<in> set b. is_digit c" "a \<noteq> [] \<or> b \<noteq> []" "length b \<le> 18"
  shows "payments (mint_start (a @ CHR ''.'' # b) w)
      = payments w @ [int (nat_of_digits a) * 10 ^ 18 + int (nat_of_digits b) * 10 ^ (18 - length b)]
    \<and> pending (mint_start (a @ CHR ''.'' # b) w) = add_mset AwaitWrite (pending w)
    \<and> isMintLoading (mint_start (a @ CHR ''.'' # b) w)"
  using parse_ether_decimal [OF assms] by (simp add: mint_start_def Let_def)

theorem mint_value_payment_witness:
  "payments (mint_start ''0.05'' (world0 True)) = [5 * 10 ^ 16]"
proof -
  have "\<forall>c \<in> set ''0''. is_digit c" "\<forall>c \<in> set ''05''. is_digit c" "''0'' \<noteq> [] \<or> ''05'' \<noteq> []"
    "length ''05'' \<le> 18"
    by (simp_all add: is_digit_def)
  from mint_value_payment [OF this, of "world0 True"] show ?thesis
    by (simp add: world0_def nat_of_digits_Cons digit_val_def)
qed

section \<open>The mint flow\<close>

text \<open>C18: after a Mint press, the write resolving with a transaction and that
  transaction's confirmation always lead to the success modal with the metadata's name
  and the transaction's Polygonscan link (for metadata that is not \<open>null\<close> and whose
  \<open>name\<close> React can render), having asked for one re-read of the supply; this holds
  even when other mints are in flight.\<close>

theorem mint_happy_path:
  assumes "step w (ClickMint t) = Some w1"
    and "get_field (latestNFTMinted (ui w)) (utf16 ''name'') = Inr nm" and "react_child_opt nm"
  shows "\<exists>w3. run w1 [WriteResolved h, WaitResolved h] = Some w3
    \<and> \<not> isMinting (ui w3) \<and> modalShow (ui w3) \<and> refetches w3 = Suc (refetches w)
    \<and> (\<exists>im. render_modal w3 = Inr (ModalSuccess nm im (opensea_url (tokenData w)) (polygonscan_url h)))"
proof -
  from assms(1) have w1: "w1 = mint_start (tier_value t) w" by (simp split: if_splits)
  have p: "\<exists>wei. parse_ether (tier_value t) = Inr wei" by (cases t) (simp_all add: tier_value_def js_eval)
  then obtain wei where pe: "parse_ether (tier_value t) = Inr wei" by blast
  have "latestNFTMinted (ui w) \<noteq> JNull" using assms(2) by auto
  then obtain im where im: "get_field (latestNFTMinted (ui w)) (utf16 ''image'') = Inr im"
    using get_field_Inr by blast
  show ?thesis
    using pe assms(2,3) im
    by (simp add: w1 mint_start_def mint_write_resolved_def mint_confirmed_def render_modal_def Let_def)
qed

theorem mint_happy_path_witness:
  "\<exists>w1 w3. step (world_init True) (ClickMint Tier2) = Some w1
     \<and> run w1 [WriteResolved ''0xb2'', WaitResolved ''0xb2''] = Some w3 \<and> \<not> isMinting (ui w3)
     \<and> render_modal w3 = Inr (ModalSuccess None None (opensea_url None) (polygonscan_url ''0xb2''))"
proof -
  have "mint_enabled (world_init True)" by (simp add: page_eval)
  then obtain w1 where s: "step (world_init True) (ClickMint Tier2) = Some w1" by simp
  have "get_field (latestNFTMinted (ui (world_init True))) (utf16 ''name'') = Inr None" "react_child_opt None"
    by (simp_all add: page_eval react_child_opt_def)
  from mint_happy_path [OF s this, of "''0xb2''"] obtain w3 im where
    r: "run w1 [WriteResolved ''0xb2'', WaitResolved ''0xb2''] = Some w3" and m: "\<not> isMinting (ui w3)"
    and v: "render_modal w3 = Inr (ModalSuccess None im (opensea_url (tokenData (world_init True))) (polygonscan_url ''0xb2''))"
    by blast
  have "render_modal w3 = Inr (ModalSuccess None None (opensea_url None) (polygonscan_url ''0xb2''))"
    using s r by (auto simp: page_eval js_eval)
  with s r m show ?thesis by blast
qed

text \<open>C19: the confirmation switches the modal to success at once, with the metadata,
  supply and token URI the page already held: \<open>refetchTokenData()\<close> is not awaited,
  so the modal shows whatever the earlier reads delivered.\<close>

theorem confirmation_shows_previous_metadata:
  assumes "step w (WaitResolved h) = Some w'"
  shows "latestNFTMinted (ui w') = latestNFTMinted (ui w) \<and> tokenData w' = tokenData w
    \<and> tokenURI w' = tokenURI w \<and> \<not> isMinting (ui w') \<and> refetches w' = Suc (refetches w)"
  using assms by (auto simp: mint_confirmed_def split: if_splits)

theorem confirmation_shows_previous_metadata_witness:
  \<open>\<exists>w w'. run (world_init True) [SupplyRead 1, UriRead 1 (Some ''data:application/json;base64,eyJuYW1lIjoiWCIsImltYWdlIjoiWSJ9''),
       ClickMint Tier0, WriteResolved ''0xa1''] = Some w
     \<and> step w (WaitResolved ''0xa1'') = Some w' \<and> \<not> isMinting (ui w')
     \<and> latestNFTMinted (ui w') = JObj [(utf16 ''name'', JStr (utf16 ''X'')), (utf16 ''image'', JStr (utf16 ''Y''))]\<close>
proof -
  obtain w where r: \<open>run (world_init True) [SupplyRead 1, UriRead 1 (Some ''data:application/json;base64,eyJuYW1lIjoiWCIsImltYWdlIjoiWSJ9''),
       ClickMint Tier0, WriteResolved ''0xa1''] = Some w\<close>
    by (simp add: page_eval js_eval)
  then obtain w' where s: "step w (WaitResolved ''0xa1'') = Some w'"
    by (auto simp: page_eval js_eval)
  from confirmation_shows_previous_metadata [OF s] have
    "latestNFTMinted (ui w') = latestNFTMinted (ui w)" "\<not> isMinting (ui w')" by simp_all
  moreover have "latestNFTMinted (ui w) = JObj [(utf16 ''name'', JStr (utf16 ''X'')), (utf16 ''image'', JStr (utf16 ''Y''))]"
    using r by (auto simp: page_eval js_eval utf16_def code_unit_of_def)
  ultimately show ?thesis using r s by auto
qed

text \<open>C20: a button value with more than 18 significant fractional digits makes
  \<open>parseEther\<close> throw inside \<open>mintToken\<close>: the modal is left in its minting state,
  the error is logged, and no write is submitted.\<close>

theorem mint_start_too_precise:
  assumes "\<forall>c \<in> set a. is_digit c" "\<forall>c \<in> set f. is_digit c" "18 < length (trim_trailing_zeros f)"
  shows "mint_start (a @ CHR ''.'' # f) w
    = w\<lparr>ui := (ui w)\<lparr>isMinting := True, modalShow := True\<rparr>, console := console w @ [''Error minting NFT'']\<rparr>"
  using parse_ether_too_precise [OF assms] by (simp add: mint_start_def)

theorem mint_start_too_precise_witness:
  "mint_start ''0.0000000000000000001'' (world0 True)
    = (world0 True)\<lparr>ui := page_init\<lparr>isMinting := True, modalShow := True\<rparr>, console := [''Error minting NFT'']\<rparr>"
proof -
  have "\<forall>c \<in> set ''0''. is_digit c" "\<forall>c \<in> set ''0000000000000000001''. is_digit c"
    "18 < length (trim_trailing_zeros ''0000000000000000001'')"
    by (simp_all add: is_digit_def trim_trailing_zeros_def)
  from mint_start_too_precise [OF this, of "world0 True"] show ?thesis by (simp add: world0_def)
qed

section \<open>Payments\<close>

lemma step_payments:
  assumes "step w e = Some w'"
  shows "payments w' = payments w
    \<or> (\<exists>t. payments w' = payments w @ [case t of Tier0 \<Rightarrow> 10 ^ 16 | Tier1 \<Rightarrow> 2 * 10 ^ 16 | Tier2 \<Rightarrow> 5 * 10 ^ 16])"
proof (cases e)
  case (ClickMint t)
  with assms tier_payment [of t] show ?thesis by (auto simp: mint_start_def Let_def split: if_splits)
qed (use assms in \<open>auto simp: account_changed_def connection_effect_def supply_read_def uri_read_def Let_def
       mint_write_resolved_def mint_write_rejected_def mint_confirmed_def mint_wait_failed_def
       close_modal_def token_uri_effect_def split: if_splits option.splits sum.splits\<close>)

lemma reach_payments:
  "reach w \<Longrightarrow> set (payments w) \<subseteq> {10 ^ 16, 2 * 10 ^ 16, 5 * 10 ^ 16}"
proof (induction rule: reach.induct)
  case (init b)
  show ?case by (simp add: page_state_defs token_uri_effect_def split: option.splits sum.splits)
next
  case (step w e w')
  from step_payments [OF step.hyps(2)] show ?case
  proof
    assume "payments w' = payments w"
    with step.IH show ?thesis by simp
  next
    assume "\<exists>t. payments w' = payments w @ [case t of Tier0 \<Rightarrow> 10 ^ 16 | Tier1 \<Rightarrow> 2 * 10 ^ 16 | Tier2 \<Rightarrow> 5 * 10 ^ 16]"
    then obtain t where p: "payments w' = payments w @ [case t of Tier0 \<Rightarrow> 10 ^ 16 | Tier1 \<Rightarrow> 2 * 10 ^ 16 | Tier2 \<Rightarrow> 5 * 10 ^ 16]"
      by blast
    have "(case t of Tier0 \<Rightarrow> 10 ^ 16 | Tier1 \<Rightarrow> 2 * 10 ^ 16 | Tier2 \<Rightarrow> 5 * 10 ^ 16)
        \<in> {10 ^ 16, 2 * 10 ^ 16, 5 * 10 ^ 16 :: int}"
      by (cases t) simp_all
    with p step.IH show ?thesis by simp
  qed
qed

text \<open>C25: every payment the page has submitted is one of the three tier prices, so a
  positive amount below \<open>2^256\<close>: it fits the \<open>uint256\<close> of a transaction's value.\<close>

theorem reachable_payments_bounded:
  assumes "reach w"
  shows "\<forall>p \<in> set (payments w). p \<in> {10 ^ 16, 2 * 10 ^ 16, 5 * 10 ^ 16} \<and> 0 < p \<and> p < 2 ^ 256"
  using reach_payments [OF assms] by auto

theorem reachable_payments_bounded_witness:
  "\<exists>w. run (world_init True) [ClickMint Tier2, WriteRejected ''User rejected'', ClickMint Tier1] = Some w
     \<and> payments w = [5 * 10 ^ 16, 2 * 10 ^ 16]
     \<and> (\<forall>p \<in> set (payments w). p \<in> {10 ^ 16, 2 * 10 ^ 16, 5 * 10 ^ 16} \<and> 0 < p \<and> p < 2 ^ 256)"
proof -
  obtain w where r: "run (world_init True) [ClickMint Tier2, WriteRejected ''User rejected'', ClickMint Tier1] = Some w"
    by (simp add: page_eval js_eval)
  have "payments w = [5 * 10 ^ 16, 2 * 10 ^ 16]" using r by (auto simp: page_eval js_eval)
  with reachable_payments_bounded [OF reach_run_init [OF r]] r show ?thesis by blast
qed

end
